(* ===== verification/Prelude.thy ===== *)
theory Prelude
  imports Main "HOL-Library.Word" "HOL-Library.Sublist"
begin

section \<open>Shared types, results and text operations\<close>

text \<open>
  What every component of the development uses: machine integers as words, Rust strings as lists
  of Unicode scalar values, byte vectors as lists of \<open>8 word\<close>, results as sums with the error on
  the left, the early return \<open>?\<close> as \<open>try_bind\<close>, and the operations of Rust's string and slice
  library that the code calls (\<open>windows\<close>, \<open>find\<close>, \<open>strip_prefix\<close>, \<open>trim\<close>, \<open>lines\<close>,
  \<open>split\<close>, \<open>replace\<close>, \<open>chunks\<close>, decimal printing).  It also holds the interface of a
  transition system with an invariant, which the stateful components interpret.
\<close>

type_synonym u8 = "8 word"
type_synonym u16 = "16 word"
type_synonym u32 = "32 word"
type_synonym u64 = "64 word"
type_synonym byte = "8 word"
type_synonym bytes = "byte list"

text \<open>A Rust \<open>char\<close> is a Unicode scalar value; a \<open>String\<close> or \<open>&str\<close> is a list of them.\<close>

type_synonym uchar = nat
type_synonym ustr = "uchar list"

definition lit :: "string \<Rightarrow> ustr" where
  "lit s = map of_char s"

definition blit :: "string \<Rightarrow> bytes" where
  "blit s = map (\<lambda>c. of_nat (of_char c)) s"

lemma lit_Nil [simp]: "lit [] = []"
  by (simp add: lit_def)

lemma lit_Cons [simp]: "lit (c # s) = of_char c # lit s"
  by (simp add: lit_def)

lemma lit_append [simp]: "lit (a @ b) = lit a @ lit b"
  by (simp add: lit_def)

lemma length_lit [simp]: "length (lit s) = length s"
  by (simp add: lit_def)

lemma blit_Nil [simp]: "blit [] = []"
  by (simp add: blit_def)

lemma blit_Cons [simp]: "blit (c # s) = of_nat (of_char c) # blit s"
  by (simp add: blit_def)

lemma length_blit [simp]: "length (blit s) = length s"
  by (simp add: blit_def)

named_theorems model_simps \<open>definitions that only name a composition\<close>

section \<open>Results\<close>

fun try_bind :: "'e + 'a \<Rightarrow> ('a \<Rightarrow> 'e + 'b) \<Rightarrow> 'e + 'b" where
  "try_bind (Inl e) f = Inl e"
| "try_bind (Inr v) f = f v"

fun map_err :: "('e \<Rightarrow> 'f) \<Rightarrow> 'e + 'a \<Rightarrow> 'f + 'a" where
  "map_err g (Inl e) = Inl (g e)"
| "map_err g (Inr v) = Inr v"

definition ok_or :: "'e \<Rightarrow> 'a option \<Rightarrow> 'e + 'a" where
  "ok_or e m = (case m of None \<Rightarrow> Inl e | Some v \<Rightarrow> Inr v)"

definition is_ok :: "'e + 'a \<Rightarrow> bool" where
  "is_ok r = (case r of Inl _ \<Rightarrow> False | Inr _ \<Rightarrow> True)"

lemma try_bind_Inr_iff [simp]: "try_bind m f = Inr y \<longleftrightarrow> (\<exists>x. m = Inr x \<and> f x = Inr y)"
  by (cases m) auto

lemma try_bind_Inl_iff: "try_bind m f = Inl e \<longleftrightarrow> m = Inl e \<or> (\<exists>x. m = Inr x \<and> f x = Inl e)"
  by (cases m) auto

lemma try_bind_assoc: "try_bind (try_bind m f) g = try_bind m (\<lambda>x. try_bind (f x) g)"
  by (cases m) auto

lemma map_err_Inr_iff [simp]: "map_err g m = Inr y \<longleftrightarrow> m = Inr y"
  by (cases m) auto

lemma map_err_Inl_iff: "map_err g m = Inl e \<longleftrightarrow> (\<exists>e'. m = Inl e' \<and> e = g e')"
  by (cases m) auto

lemma ok_or_simps [simp]: "ok_or e None = Inl e" "ok_or e (Some v) = Inr v"
  by (simp_all add: ok_or_def)

lemma ok_or_Inr_iff: "ok_or e m = Inr v \<longleftrightarrow> m = Some v"
  by (cases m) auto

lemma is_ok_simps [simp]: "is_ok (Inr v)" "\<not> is_ok (Inl e)"
  by (simp_all add: is_ok_def)

text \<open>Code that threads a state through calls that can fail: the state is kept when a call fails.\<close>

fun st_bind :: "'s \<times> ('e + 'a) \<Rightarrow> ('a \<Rightarrow> 's \<Rightarrow> 's \<times> ('e + 'b)) \<Rightarrow> 's \<times> ('e + 'b)" where
  "st_bind (s, Inl e) f = (s, Inl e)"
| "st_bind (s, Inr x) f = f x s"

lemma st_bind_Inr_iff: "st_bind m f = (s', Inr y) \<longleftrightarrow> (\<exists>s x. m = (s, Inr x) \<and> f x s = (s', Inr y))"
  by (cases "(m, f)" rule: st_bind.cases) auto

section \<open>Slices\<close>

text \<open>\<open>slice::windows(n)\<close>: every contiguous piece of length \<open>n\<close>, in order.\<close>

fun windows :: "nat \<Rightarrow> 'a list \<Rightarrow> 'a list list" where
  "windows n [] = (if n = 0 then [[]] else [])"
| "windows n (x # xs) = (if n \<le> Suc (length xs) then take n (x # xs) # windows n xs else [])"

lemma windows_short: "length xs < n \<Longrightarrow> windows n xs = []"
  by (cases xs) auto

lemma mem_windows_iff: "w \<in> set (windows n xs) \<longleftrightarrow> length w = n \<and> sublist w xs"
proof (induction xs)
  case Nil
  then show ?case by (auto simp: sublist_def)
next
  case (Cons x xs)
  show ?case
  proof (cases "n \<le> Suc (length xs)")
    case True
    have "w = take n (x # xs) \<longleftrightarrow> length w = n \<and> prefix w (x # xs)"
      using True by (metis length_Cons length_take min.absorb2 prefixE prefix_def append_eq_conv_conj take_is_prefix)
    moreover have "sublist w (x # xs) \<longleftrightarrow> prefix w (x # xs) \<or> sublist w xs"
      by (rule sublist_Cons_right)
    ultimately show ?thesis using Cons.IH True by auto
  next
    case False
    then show ?thesis by (auto dest: sublist_length_le)
  qed
qed

text \<open>\<open>slice::chunks(n)\<close> for \<open>n > 0\<close>: consecutive pieces, the last one possibly shorter.\<close>

function chunks :: "nat \<Rightarrow> 'a list \<Rightarrow> 'a list list" where
  "chunks n xs = (if xs = [] \<or> n = 0 then [] else take n xs # chunks n (drop n xs))"
  by pat_completeness auto
termination
  by (relation "measure (\<lambda>(n, xs). length xs)") auto

declare chunks.simps [simp del]

lemma chunks_Nil [simp]: "chunks n [] = []"
  by (simp add: chunks.simps)

lemma concat_chunks: "0 < n \<Longrightarrow> concat (chunks n xs) = xs"
proof (induction n xs rule: chunks.induct)
  case (1 n xs)
  then show ?case by (cases "xs = []") (simp_all add: chunks.simps [of n xs])
qed

lemma chunks_append: "length xs = n \<Longrightarrow> 0 < n \<Longrightarrow> chunks n (xs @ ys) = xs # chunks n ys"
  by (subst chunks.simps) auto

section \<open>Text operations of the Rust library\<close>

fun strip_prefix :: "'a list \<Rightarrow> 'a list \<Rightarrow> 'a list option" where
  "strip_prefix [] s = Some s"
| "strip_prefix (p # ps) [] = None"
| "strip_prefix (p # ps) (c # s) = (if p = c then strip_prefix ps s else None)"

lemma strip_prefix_Some_iff: "strip_prefix p s = Some r \<longleftrightarrow> s = p @ r"
  by (induction p s rule: strip_prefix.induct) auto

lemma strip_prefix_append [simp]: "strip_prefix p (p @ r) = Some r"
  by (simp add: strip_prefix_Some_iff)

lemma strip_prefix_None_iff: "strip_prefix p s = None \<longleftrightarrow> \<not> prefix p s"
  by (induction p s rule: strip_prefix.induct) auto

definition starts_with :: "'a list \<Rightarrow> 'a list \<Rightarrow> bool" where
  "starts_with s p = prefix p s"

definition ends_with :: "'a list \<Rightarrow> 'a list \<Rightarrow> bool" where
  "ends_with s p = suffix p s"

definition contains :: "'a list \<Rightarrow> 'a list \<Rightarrow> bool" where
  "contains s p = sublist p s"

text \<open>\<open>str::find\<close>: the position of the first occurrence.\<close>

fun find_sub :: "'a list \<Rightarrow> 'a list \<Rightarrow> nat option" where
  "find_sub p [] = (if p = [] then Some 0 else None)"
| "find_sub p (c # s) = (if prefix p (c # s) then Some 0 else map_option Suc (find_sub p s))"

lemma find_sub_Some: "find_sub p s = Some i \<Longrightarrow> prefix p (drop i s) \<and> i \<le> length s"
  by (induction p s arbitrary: i rule: find_sub.induct) (auto split: if_splits)

lemma find_sub_None_iff: "find_sub p s = None \<longleftrightarrow> \<not> sublist p s"
  by (induction p s rule: find_sub.induct) (auto simp: sublist_Cons_right)

lemma find_sub_single: "c \<notin> set s \<Longrightarrow> find_sub [c] (s @ c # t) = Some (length s)"
  by (induction s) auto

text \<open>\<open>str::split\<close> by one character, \<open>str::lines\<close>, and the first line with the default of
  \<open>lines().next().unwrap_or("")\<close>.  \<open>lines\<close> drops the carriage return of an ended line; a last line without a newline keeps
  its own.\<close>

fun split_on :: "'a \<Rightarrow> 'a list \<Rightarrow> 'a list list" where
  "split_on c [] = [[]]"
| "split_on c (x # xs) =
     (if x = c then [] # split_on c xs
      else (case split_on c xs of [] \<Rightarrow> [[x]] | l # ls \<Rightarrow> (x # l) # ls))"

lemma split_on_not_Nil [simp]: "split_on c xs \<noteq> []"
  by (induction xs) (auto split: list.splits)

lemma split_on_no_sep: "l \<in> set (split_on c xs) \<Longrightarrow> c \<notin> set l"
  by (induction xs arbitrary: l) (auto split: list.splits if_splits)

lemma split_on_self: "c \<notin> set xs \<Longrightarrow> split_on c xs = [xs]"
  by (induction xs) auto

lemma split_on_append: "c \<notin> set xs \<Longrightarrow> split_on c (xs @ c # ys) = xs # split_on c ys"
  by (induction xs) auto

lemma split_on_subset: "l \<in> set (split_on c xs) \<Longrightarrow> set l \<subseteq> set xs"
proof (induction xs arbitrary: l)
  case (Cons x xs)
  then show ?case
    by (cases "split_on c xs") (fastforce split: if_splits)+
qed simp

definition chomp_cr :: "ustr \<Rightarrow> ustr" where
  "chomp_cr l = (if l \<noteq> [] \<and> last l = 13 then butlast l else l)"

definition lines :: "ustr \<Rightarrow> ustr list" where
  "lines s =
     (let ls = split_on 10 s
      in map chomp_cr (butlast ls) @ (if last ls = [] then [] else [last ls]))"

definition unlines :: "ustr list \<Rightarrow> ustr" where
  "unlines ls = concat (map (\<lambda>l. l @ [10]) ls)"

text \<open>A line that was written with a newline after it is read back as it was.\<close>

definition plain_line :: "ustr \<Rightarrow> bool" where
  "plain_line l \<longleftrightarrow> 10 \<notin> set l \<and> (l = [] \<or> last l \<noteq> 13)"

lemma unlines_simps [simp]: "unlines [] = []" "unlines (l # ls) = l @ 10 # unlines ls"
  "unlines (ls @ ms) = unlines ls @ unlines ms"
  by (simp_all add: unlines_def)

lemma split_unlines: "list_all plain_line ls \<Longrightarrow> split_on 10 (unlines ls @ s) = ls @ split_on 10 s"
  by (induction ls) (auto simp: plain_line_def split_on_append)

lemma chomp_plain: "list_all plain_line ls \<Longrightarrow> map chomp_cr ls = ls"
  by (auto simp: plain_line_def chomp_cr_def list_all_iff intro!: map_idI)

lemma lines_unlines: "list_all plain_line ls \<Longrightarrow> lines (unlines ls) = ls"
  using split_unlines [of ls "[]"] by (simp add: lines_def chomp_plain)

text \<open>A last line without its newline is a line as well.\<close>

lemma lines_unlines_tail:
  assumes "list_all plain_line ls" and "10 \<notin> set l" and "l \<noteq> []"
  shows "lines (unlines ls @ l) = ls @ [l]"
  using assms by (simp add: lines_def split_unlines split_on_self chomp_plain butlast_append)

text \<open>\<open>PathBuf::join\<close> on Windows for a relative name.\<close>

definition win_join :: "ustr \<Rightarrow> ustr \<Rightarrow> ustr" where
  "win_join p x = (if p = [] \<or> last p \<in> {92, 47} then p @ x else p @ [92] @ x)"

definition last_opt :: "'a list \<Rightarrow> 'a option" where
  "last_opt xs = (if xs = [] then None else Some (last xs))"

definition first_line :: "ustr \<Rightarrow> ustr" where
  "first_line s = (case lines s of [] \<Rightarrow> [] | l # _ \<Rightarrow> l)"

text \<open>\<open>char::is_whitespace\<close>: the Unicode \<open>White_Space\<close> property.\<close>

definition is_whitespace :: "uchar \<Rightarrow> bool" where
  "is_whitespace c \<longleftrightarrow> 9 \<le> c \<and> c \<le> 13 \<or>
     c \<in> {0x20, 0x85, 0xA0, 0x1680, 0x2028, 0x2029, 0x202F, 0x205F, 0x3000} \<or>
     0x2000 \<le> c \<and> c \<le> 0x200A"

definition trim_start :: "ustr \<Rightarrow> ustr" where
  "trim_start s = dropWhile is_whitespace s"

definition trim_end :: "ustr \<Rightarrow> ustr" where
  "trim_end s = rev (dropWhile is_whitespace (rev s))"

definition trim :: "ustr \<Rightarrow> ustr" where
  "trim s = trim_end (trim_start s)"

text \<open>
  \<open>str::to_uppercase\<close> and \<open>to_lowercase\<close> on the characters that matter for the tests the code makes of
  the result, which compare it with ASCII text: the ASCII letters, and the characters whose image is or
  contains a single ASCII letter (dotless i, long s; capital I with dot, the Kelvin sign).  The
  multi-letter expansions of ligatures and sharp s are left as they are.
\<close>

definition to_uppercase :: "ustr \<Rightarrow> ustr" where
  "to_uppercase s = map (\<lambda>c. if 97 \<le> c \<and> c \<le> 122 then c - 32
     else if c = 0x131 then 73 else if c = 0x17F then 83 else c) s"

definition to_lowercase :: "ustr \<Rightarrow> ustr" where
  "to_lowercase s = concat (map (\<lambda>c. if 65 \<le> c \<and> c \<le> 90 then [c + 32]
     else if c = 0x130 then [105, 0x307] else if c = 0x212A then [107] else [c]) s)"

lemma to_lowercase_simps [simp]: "to_lowercase [] = []"
  "to_lowercase (s @ t) = to_lowercase s @ to_lowercase t"
  by (simp_all add: to_lowercase_def)

text \<open>\<open>str::replace\<close> with a non-empty pattern: left to right, without overlap.\<close>

function replace :: "'a list \<Rightarrow> 'a list \<Rightarrow> 'a list \<Rightarrow> 'a list" where
  "replace p r s =
     (case s of
        [] \<Rightarrow> []
      | c # s' \<Rightarrow> if p \<noteq> [] \<and> prefix p s then r @ replace p r (drop (length p) s)
                  else c # replace p r s')"
  by pat_completeness auto
termination
  by (relation "measure (\<lambda>(p, r, s). length s)") auto

declare replace.simps [simp del]

lemma replace_Nil [simp]: "replace p r [] = []"
  by (simp add: replace.simps)

lemma replace_single: "replace [a] r s = concat (map (\<lambda>c. if c = a then r else [c]) s)"
proof (induction s)
  case (Cons c s)
  then show ?case by (subst replace.simps) (auto simp: prefix_def)
qed simp

text \<open>\<open>str::split\<close> by a non-empty string.\<close>

function split_str :: "'a list \<Rightarrow> 'a list \<Rightarrow> 'a list list" where
  "split_str sep s =
     (case find_sub sep s of
        None \<Rightarrow> [s]
      | Some i \<Rightarrow> if sep = [] then [s] else take i s # split_str sep (drop (i + length sep) s))"
  by pat_completeness auto
termination
proof (relation "measure (\<lambda>(sep, s). length s)")
  fix sep s :: "'a list" and i
  assume "find_sub sep s = Some i" and "sep \<noteq> []"
  moreover from this have "s \<noteq> []" by (cases s) auto
  ultimately show "((sep, drop (i + length sep) s), (sep, s)) \<in> measure (\<lambda>(sep, s). length s)" by simp
qed simp

declare split_str.simps [simp del]

text \<open>\<open>Vec<String>::join\<close>.\<close>

fun join :: "'a list \<Rightarrow> 'a list list \<Rightarrow> 'a list" where
  "join sep [] = []"
| "join sep [x] = x"
| "join sep (x # y # zs) = x @ sep @ join sep (y # zs)"

lemma split_on_join:
  "xs \<noteq> [] \<Longrightarrow> \<forall>x \<in> set xs. c \<notin> set x \<Longrightarrow> split_on c (join [c] xs) = xs"
  by (induction "[c]" xs rule: join.induct) (auto simp: split_on_self split_on_append)

lemma join_subset: "set (join sep xs) \<subseteq> set sep \<union> \<Union> (set ` set xs)"
  by (induction sep xs rule: join.induct) auto

lemma join_all: "set sep \<subseteq> A \<Longrightarrow> (\<And>x. x \<in> set xs \<Longrightarrow> set x \<subseteq> A) \<Longrightarrow> set (join sep xs) \<subseteq> A"
  using join_subset [of sep xs] by fast

text \<open>Decimal printing of an unsigned integer.\<close>

fun show_nat :: "nat \<Rightarrow> ustr" where
  "show_nat n = (if n < 10 then [48 + n] else show_nat (n div 10) @ [48 + n mod 10])"

declare show_nat.simps [simp del]

lemma show_nat_digits: "\<forall>c \<in> set (show_nat n). 48 \<le> c \<and> c \<le> 57"
proof (induction n rule: show_nat.induct)
  case (1 n)
  then show ?case by (subst show_nat.simps) auto
qed

lemma show_nat_not_Nil [simp]: "show_nat n \<noteq> []"
  by (subst show_nat.simps) simp

section \<open>Transition systems with an invariant\<close>

text \<open>
  The stateful components (the web token, the paired endpoint, the report store, the viewer) are
  step functions over a state.  What holds at the start and is kept by every step holds after
  every sequence of events; a guarded one keeps its invariant only under the events that are allowed.
\<close>

fun run_steps :: "('s \<Rightarrow> 'ev \<Rightarrow> 's) \<Rightarrow> 's \<Rightarrow> 'ev list \<Rightarrow> 's" where
  "run_steps step s [] = s"
| "run_steps step s (e # es) = run_steps step (step s e) es"

lemma run_steps_append: "run_steps step s (es @ fs) = run_steps step (run_steps step s es) fs"
  by (induction es arbitrary: s) auto

locale guarded_stepper =
  fixes step :: "'s \<Rightarrow> 'ev \<Rightarrow> 's" and inv :: "'s \<Rightarrow> bool" and allowed :: "'ev \<Rightarrow> bool"
  assumes step_inv: "allowed e \<Longrightarrow> inv s \<Longrightarrow> inv (step s e)"
begin

lemma run_inv: "list_all allowed es \<Longrightarrow> inv s \<Longrightarrow> inv (run_steps step s es)"
  by (induction es arbitrary: s) (auto intro: step_inv)

end

text \<open>A stepper is one whose every event is allowed.\<close>

locale stepper =
  fixes step :: "'s \<Rightarrow> 'ev \<Rightarrow> 's" and inv :: "'s \<Rightarrow> bool"
  assumes step_inv: "inv s \<Longrightarrow> inv (step s e)"

sublocale stepper \<subseteq> guarded: guarded_stepper step inv "\<lambda>e. True"
  by unfold_locales (rule step_inv)

context stepper
begin

lemma run_inv: "inv s \<Longrightarrow> inv (run_steps step s es)"
  by (rule guarded.run_inv) (simp add: list_all_iff)

lemma run_prefix_inv: "inv s \<Longrightarrow> prefix es fs \<Longrightarrow> inv (run_steps step s es)"
  by (rule run_inv)

end

end
