(* ===== verification/Net.thy ===== *)
theory Net
  imports Prelude
begin

section \<open>Network addresses\<close>

text \<open>
  \<open>std::net::IpAddr\<close> and \<open>SocketAddr\<close>: the four octets or eight segments, the classification
  methods the crates call, and the printing of an address as the standard library does it
  (a mapped IPv4 address, the first longest run of at least two zero segments compressed).
  Parsing an address from text is a parameter where it is used.
\<close>

datatype ip_addr = V4 u8 u8 u8 u8 | V6 u16 u16 u16 u16 u16 u16 u16 u16

datatype socket_addr = SocketAddr (sock_ip: ip_addr) (sock_port: u16)

definition v4_is_loopback :: "u8 \<Rightarrow> bool" where
  "v4_is_loopback a \<longleftrightarrow> a = 127"

definition v4_is_private :: "u8 \<Rightarrow> u8 \<Rightarrow> bool" where
  "v4_is_private a b \<longleftrightarrow> a = 10 \<or> a = 172 \<and> 16 \<le> b \<and> b \<le> 31 \<or> a = 192 \<and> b = 168"

definition v4_is_link_local :: "u8 \<Rightarrow> u8 \<Rightarrow> bool" where
  "v4_is_link_local a b \<longleftrightarrow> a = 169 \<and> b = 254"

definition LOCALHOST :: ip_addr where
  "LOCALHOST = V4 127 0 0 1"

definition V6_LOCALHOST :: ip_addr where
  "V6_LOCALHOST = V6 0 0 0 0 0 0 0 1"

section \<open>Printing\<close>

definition hex_digit :: "nat \<Rightarrow> uchar" where
  "hex_digit n = (if n < 10 then 48 + n else 87 + n)"

fun show_hex :: "nat \<Rightarrow> ustr" where
  "show_hex n = (if n < 16 then [hex_digit n] else show_hex (n div 16) @ [hex_digit (n mod 16)])"

declare show_hex.simps [simp del]

text \<open>The longest run of zero segments: start and length, the first one when there are several.\<close>

fun zero_span :: "nat \<Rightarrow> nat \<times> nat \<Rightarrow> nat \<times> nat \<Rightarrow> u16 list \<Rightarrow> nat \<times> nat" where
  "zero_span i cur longest [] = longest"
| "zero_span i (st, n) longest (seg # segs) =
     (if seg = 0 then
        let cur = (if n = 0 then i else st, n + 1) in
        zero_span (Suc i) cur (if snd cur > snd longest then cur else longest) segs
      else zero_span (Suc i) (0, 0) longest segs)"

definition show_segments :: "u16 list \<Rightarrow> ustr" where
  "show_segments segs = join (lit '':'') (map (\<lambda>w. show_hex (unat w)) segs)"

definition show_v4 :: "u8 \<Rightarrow> u8 \<Rightarrow> u8 \<Rightarrow> u8 \<Rightarrow> ustr" where
  "show_v4 a b c d = join (lit ''.'') (map (\<lambda>w. show_nat (unat w)) [a, b, c, d])"

definition show_v6 :: "u16 list \<Rightarrow> ustr" where
  "show_v6 segs =
     (let (st, n) = zero_span 0 (0, 0) (0, 0) segs in
      if n > 1 then show_segments (take st segs) @ lit ''::'' @ show_segments (drop (st + n) segs)
      else show_segments segs)"

fun show_ip :: "ip_addr \<Rightarrow> ustr" where
  "show_ip (V4 a b c d) = show_v4 a b c d"
| "show_ip (V6 s0 s1 s2 s3 s4 s5 s6 s7) =
     (if s0 = 0 \<and> s1 = 0 \<and> s2 = 0 \<and> s3 = 0 \<and> s4 = 0 \<and> s5 = 0xffff then
        lit ''::ffff:'' @ show_v4 (ucast (drop_bit 8 s6)) (ucast s6) (ucast (drop_bit 8 s7)) (ucast s7)
      else show_v6 [s0, s1, s2, s3, s4, s5, s6, s7])"

definition show_sock :: "socket_addr \<Rightarrow> ustr" where
  "show_sock a =
     (case sock_ip a of
        V4 _ _ _ _ \<Rightarrow> show_ip (sock_ip a) @ lit '':''
      | V6 _ _ _ _ _ _ _ _ \<Rightarrow> lit ''['' @ show_ip (sock_ip a) @ lit '']:'') @ show_nat (unat (sock_port a))"

lemma show_ip_example: "show_ip (V6 0xfd00 0 0 0 0 0 0 1) = lit ''fd00::1''"
  by (simp add: show_v6_def show_segments_def show_hex.simps hex_digit_def Let_def)

end
