(* ===== verification/Utf8.thy ===== *)
theory Utf8
  imports Prelude
begin

section \<open>UTF-8: the bytes of a Rust string\<close>

text \<open>
  \<open>String::into_bytes\<close>, \<open>String::from_utf8\<close> and \<open>String::from_utf8_lossy\<close> as the protocol
  parser, the prompt assembler, the path handling and the trace parser use them.  The decoder
  accepts exactly the well-formed sequences (no surrogates, no overlong forms, nothing above
  \<open>U+10FFFF\<close>), so encoding and decoding are inverse to each other in both directions.
\<close>

definition is_scalar :: "uchar \<Rightarrow> bool" where
  "is_scalar c \<longleftrightarrow> c < 0xD800 \<or> 0xE000 \<le> c \<and> c < 0x110000"

definition valid_str :: "ustr \<Rightarrow> bool" where
  "valid_str s \<longleftrightarrow> list_all is_scalar s"

lemma valid_str_simps [simp]:
  "valid_str []" "valid_str (c # s) \<longleftrightarrow> is_scalar c \<and> valid_str s"
  "valid_str (s @ t) \<longleftrightarrow> valid_str s \<and> valid_str t"
  by (auto simp: valid_str_def)

definition byte_of :: "nat \<Rightarrow> byte" where
  "byte_of n = of_nat n"

lemma unat_byte_of [simp]: "n < 256 \<Longrightarrow> unat (byte_of n) = n"
  by (simp add: byte_of_def unat_of_nat)

lemma byte_of_unat [simp]: "byte_of (unat b) = b"
  by (simp add: byte_of_def)

definition encode_char :: "uchar \<Rightarrow> bytes" where
  "encode_char c =
     (if c < 0x80 then [byte_of c]
      else if c < 0x800 then [byte_of (0xC0 + c div 64), byte_of (0x80 + c mod 64)]
      else if c < 0x10000 then
        [byte_of (0xE0 + c div 4096), byte_of (0x80 + c div 64 mod 64), byte_of (0x80 + c mod 64)]
      else
        [byte_of (0xF0 + c div 262144), byte_of (0x80 + c div 4096 mod 64),
         byte_of (0x80 + c div 64 mod 64), byte_of (0x80 + c mod 64)])"

definition utf8_encode :: "ustr \<Rightarrow> bytes" where
  "utf8_encode s = concat (map encode_char s)"

lemma utf8_encode_simps [simp]:
  "utf8_encode [] = []" "utf8_encode (c # s) = encode_char c @ utf8_encode s"
  "utf8_encode (s @ t) = utf8_encode s @ utf8_encode t"
  by (simp_all add: utf8_encode_def)

lemma encode_char_not_Nil [simp]: "encode_char c \<noteq> []"
  by (simp add: encode_char_def)

lemma length_encode_char: "length (encode_char c) \<le> 4"
  by (simp add: encode_char_def)

definition is_cont :: "byte \<Rightarrow> bool" where
  "is_cont b \<longleftrightarrow> 0x80 \<le> unat b \<and> unat b < 0xC0"

text \<open>
  The first scalar value of a byte sequence, or the number of bytes of the longest invalid piece
  that \<open>from_utf8_lossy\<close> replaces by one \<open>U+FFFD\<close>.
\<close>

definition decode_step :: "bytes \<Rightarrow> nat + (uchar \<times> bytes)" where
  "decode_step bs =
     (case bs of
        [] \<Rightarrow> Inl 0
      | b0 # r0 \<Rightarrow>
          let n0 = unat b0 in
          if n0 < 0x80 then Inr (n0, r0)
          else if n0 < 0xC2 then Inl 1
          else if n0 < 0xE0 then
            (case r0 of
               b1 # r1 \<Rightarrow> if is_cont b1 then Inr ((n0 - 0xC0) * 64 + (unat b1 - 0x80), r1) else Inl 1
             | [] \<Rightarrow> Inl 1)
          else if n0 < 0xF0 then
            (case r0 of
               b1 # r1 \<Rightarrow>
                 if is_cont b1 \<and> (n0 = 0xE0 \<longrightarrow> 0xA0 \<le> unat b1) \<and> (n0 = 0xED \<longrightarrow> unat b1 < 0xA0)
                 then (case r1 of
                         b2 # r2 \<Rightarrow>
                           if is_cont b2
                           then Inr ((n0 - 0xE0) * 4096 + (unat b1 - 0x80) * 64 + (unat b2 - 0x80), r2)
                           else Inl 2
                       | [] \<Rightarrow> Inl 2)
                 else Inl 1
             | [] \<Rightarrow> Inl 1)
          else if n0 < 0xF5 then
            (case r0 of
               b1 # r1 \<Rightarrow>
                 if is_cont b1 \<and> (n0 = 0xF0 \<longrightarrow> 0x90 \<le> unat b1) \<and> (n0 = 0xF4 \<longrightarrow> unat b1 < 0x90)
                 then (case r1 of
                         b2 # r2 \<Rightarrow>
                           if is_cont b2
                           then (case r2 of
                                   b3 # r3 \<Rightarrow>
                                     if is_cont b3
                                     then Inr ((n0 - 0xF0) * 262144 + (unat b1 - 0x80) * 4096
                                                 + (unat b2 - 0x80) * 64 + (unat b3 - 0x80), r3)
                                     else Inl 3
                                 | [] \<Rightarrow> Inl 3)
                           else Inl 2
                       | [] \<Rightarrow> Inl 2)
                 else Inl 1
             | [] \<Rightarrow> Inl 1)
          else Inl 1)"

lemma decode_step_shorter: "decode_step bs = Inr (c, r) \<Longrightarrow> length r < length bs"
  by (auto simp: decode_step_def Let_def split: list.splits if_splits)

text \<open>One decoding lemma per width, over the digits of the scalar value in base 64.\<close>

lemma is_cont_byte_of [simp]: "d < 64 \<Longrightarrow> is_cont (byte_of (128 + d))"
  by (simp add: is_cont_def)

lemma decode_step_1: "c < 128 \<Longrightarrow> decode_step (byte_of c # r) = Inr (c, r)"
  by (simp add: decode_step_def)

lemma decode_step_2:
  "2 \<le> a \<Longrightarrow> a < 32 \<Longrightarrow> b < 64 \<Longrightarrow>
     decode_step (byte_of (192 + a) # byte_of (128 + b) # r) = Inr (a * 64 + b, r)"
  by (simp add: decode_step_def Let_def)

lemma decode_step_3:
  "a < 16 \<Longrightarrow> b < 64 \<Longrightarrow> d < 64 \<Longrightarrow> (a = 0 \<longrightarrow> 32 \<le> b) \<Longrightarrow> (a = 13 \<longrightarrow> b < 32) \<Longrightarrow>
     decode_step (byte_of (224 + a) # byte_of (128 + b) # byte_of (128 + d) # r)
       = Inr (a * 4096 + b * 64 + d, r)"
  by (simp add: decode_step_def Let_def)

lemma decode_step_4:
  "a < 5 \<Longrightarrow> b < 64 \<Longrightarrow> d < 64 \<Longrightarrow> e < 64 \<Longrightarrow> (a = 0 \<longrightarrow> 16 \<le> b) \<Longrightarrow> (a = 4 \<longrightarrow> b < 16) \<Longrightarrow>
     decode_step (byte_of (240 + a) # byte_of (128 + b) # byte_of (128 + d) # byte_of (128 + e) # r)
       = Inr (a * 262144 + b * 4096 + d * 64 + e, r)"
  by (simp add: decode_step_def Let_def)

lemma div_4096: "c div 4096 = c div 64 div 64" for c :: nat
  using div_mult2_eq [of c 64 64] by simp

lemma div_262144: "c div 262144 = c div 64 div 64 div 64" for c :: nat
  using div_mult2_eq [of c 64 4096] by (simp add: div_4096)

lemma digit_64: "d < 64 \<Longrightarrow> (q * 64 + d) div 64 = q \<and> (q * 64 + d) mod 64 = d" for q d :: nat
  by simp

lemma digits_3: "c = c div 4096 * 4096 + c div 64 mod 64 * 64 + c mod 64" for c :: nat
  using div_mult_mod_eq [of c 64] div_mult_mod_eq [of "c div 64" 64] unfolding div_4096 by linarith

lemma digits_4:
  "c = c div 262144 * 262144 + c div 4096 mod 64 * 4096 + c div 64 mod 64 * 64 + c mod 64" for c :: nat
  using digits_3 [of c] div_mult_mod_eq [of "c div 4096" 64]
  unfolding div_262144 div_4096 by linarith

lemma undigits_3:
  assumes "b < 64" "d < 64" "c = a * 4096 + b * 64 + d"
  shows "c div 4096 = a \<and> c div 64 mod 64 = b \<and> c mod 64 = (d :: nat)"
proof -
  have "c = (a * 64 + b) * 64 + d" using assms(3) by simp
  with digit_64 [OF assms(2), of "a * 64 + b"] digit_64 [OF assms(1), of a]
  show ?thesis unfolding div_4096 by metis
qed

lemma undigits_4:
  assumes "b < 64" "d < 64" "e < 64" "c = a * 262144 + b * 4096 + d * 64 + e"
  shows "c div 262144 = a \<and> c div 4096 mod 64 = b \<and> c div 64 mod 64 = d \<and> c mod 64 = (e :: nat)"
proof -
  have "c = (a * 4096 + b * 64 + d) * 64 + e" using assms(4) by simp
  with digit_64 [OF assms(3), of "a * 4096 + b * 64 + d"] undigits_3 [OF assms(1,2) refl, of a]
  show ?thesis unfolding div_262144 div_4096 by metis
qed

lemma decode_encode_char:
  assumes "is_scalar c"
  shows "decode_step (encode_char c @ r) = Inr (c, r)"
proof -
  consider "c < 0x80" | "0x80 \<le> c" "c < 0x800" | "0x800 \<le> c" "c < 0x10000" | "0x10000 \<le> c"
    by linarith
  then show ?thesis
  proof cases
    case 1
    then show ?thesis by (simp add: encode_char_def decode_step_1)
  next
    case 2
    then have "2 \<le> c div 64" "c div 64 < 32" by auto
    with decode_step_2 [of "c div 64" "c mod 64" r] 2 show ?thesis
      by (simp add: encode_char_def)
  next
    case 3
    have d: "c mod 64 < 64" "c div 64 mod 64 < 64" by simp_all
    from 3 have "c div 4096 < 16" by auto
    moreover from 3 digits_3 [of c] d have "c div 4096 = 0 \<longrightarrow> 32 \<le> c div 64 mod 64" by linarith
    moreover from 3 assms digits_3 [of c] d have "c div 4096 = 13 \<longrightarrow> c div 64 mod 64 < 32"
      unfolding is_scalar_def by linarith
    ultimately show ?thesis
      using decode_step_3 [of "c div 4096" "c div 64 mod 64" "c mod 64" r] 3 digits_3 [of c]
      by (simp add: encode_char_def)
  next
    case 4
    with assms have u: "c < 0x110000" by (simp add: is_scalar_def)
    have d: "c mod 64 < 64" "c div 64 mod 64 < 64" "c div 4096 mod 64 < 64" by simp_all
    from u have "c div 262144 < 5" by auto
    moreover from 4 digits_4 [of c] d have "c div 262144 = 0 \<longrightarrow> 16 \<le> c div 4096 mod 64" by linarith
    moreover from u digits_4 [of c] d have "c div 262144 = 4 \<longrightarrow> c div 4096 mod 64 < 16" by linarith
    ultimately show ?thesis
      using decode_step_4 [of "c div 262144" "c div 4096 mod 64" "c div 64 mod 64" "c mod 64" r] 4
        digits_4 [of c]
      by (simp add: encode_char_def)
  qed
qed

function utf8_decode :: "bytes \<Rightarrow> ustr option" where
  "utf8_decode bs =
     (if bs = [] then Some []
      else (case decode_step bs of
              Inl _ \<Rightarrow> None
            | Inr (c, r) \<Rightarrow> map_option ((#) c) (utf8_decode r)))"
  by pat_completeness auto
termination
  by (relation "measure length") (auto dest: decode_step_shorter)

declare utf8_decode.simps [simp del]

function utf8_lossy :: "bytes \<Rightarrow> ustr" where
  "utf8_lossy bs =
     (if bs = [] then []
      else (case decode_step bs of
              Inl k \<Rightarrow> 0xFFFD # utf8_lossy (drop (max 1 k) bs)
            | Inr (c, r) \<Rightarrow> c # utf8_lossy r))"
  by pat_completeness auto
termination
  by (relation "measure length") (auto dest: decode_step_shorter)

declare utf8_lossy.simps [simp del]

lemma utf8_decode_encode: "valid_str s \<Longrightarrow> utf8_decode (utf8_encode s) = Some s"
proof (induction s)
  case (Cons c s)
  then show ?case by (subst utf8_decode.simps) (simp add: decode_encode_char)
qed (simp add: utf8_decode.simps)

lemma utf8_lossy_encode: "valid_str s \<Longrightarrow> utf8_lossy (utf8_encode s) = s"
proof (induction s)
  case (Cons c s)
  then show ?case by (subst utf8_lossy.simps) (simp add: decode_encode_char)
qed (simp add: utf8_lossy.simps)

lemma utf8_encode_inject:
  "valid_str s \<Longrightarrow> valid_str t \<Longrightarrow> utf8_encode s = utf8_encode t \<Longrightarrow> s = t"
  by (metis utf8_decode_encode option.inject)

text \<open>The converse: what the decoder accepts is the encoding of what it returns.\<close>

lemma unat_byte_bound: "unat (b :: byte) < 256"
  using unsigned_less [of b] by simp

lemma byte_eqI: "unat b = n \<Longrightarrow> byte_of n = b"
  by auto

lemma decode_step_valid:
  assumes "decode_step bs = Inr (c, r)"
  shows "is_scalar c \<and> bs = encode_char c @ r"
proof -
  obtain b0 r0 where bs: "bs = b0 # r0" using assms by (cases bs) (auto simp: decode_step_def)
  define n0 where "n0 = unat b0"
  have b0: "b0 = byte_of n0" by (simp add: n0_def)
  consider "n0 < 0x80" | "0xC2 \<le> n0" "n0 < 0xE0" | "0xE0 \<le> n0" "n0 < 0xF0" | "0xF0 \<le> n0" "n0 < 0xF5"
    using assms unfolding bs decode_step_def by (fastforce simp: n0_def Let_def split: if_splits)
  then show ?thesis
  proof cases
    case 1
    then show ?thesis using assms unfolding bs
      by (auto simp: decode_step_def n0_def encode_char_def is_scalar_def)
  next
    case 2
    then obtain b1 where r0: "r0 = b1 # r" and k: "is_cont b1"
      and c: "c = (n0 - 192) * 64 + (unat b1 - 128)"
      using assms unfolding bs
      by (auto simp: decode_step_def n0_def Let_def split: list.splits if_splits)
    obtain a b where a: "n0 = 192 + a" "2 \<le> a" "a < 32" and b: "unat b1 = 128 + b" "b < 64"
      using 2 k that [of "n0 - 192" "unat b1 - 128"] by (auto simp: is_cont_def)
    have "c = a * 64 + b" using c a b by simp
    then show ?thesis using a b byte_eqI [OF b(1)] b0 unfolding bs r0
      by (auto simp: encode_char_def is_scalar_def)
  next
    case 3
    then obtain b1 b2 where r0: "r0 = b1 # b2 # r" and k: "is_cont b1" "is_cont b2"
      and lo: "n0 = 0xE0 \<longrightarrow> 0xA0 \<le> unat b1" and hi: "n0 = 0xED \<longrightarrow> unat b1 < 0xA0"
      and c: "c = (n0 - 224) * 4096 + (unat b1 - 128) * 64 + (unat b2 - 128)"
      using assms unfolding bs
      by (auto simp: decode_step_def n0_def Let_def split: list.splits if_splits)
    obtain a b d where a: "n0 = 224 + a" "a < 16" and b: "unat b1 = 128 + b" "b < 64"
      and d: "unat b2 = 128 + d" "d < 64"
      using 3 k that [of "n0 - 224" "unat b1 - 128" "unat b2 - 128"] by (auto simp: is_cont_def)
    have c': "c = a * 4096 + b * 64 + d" using c a b d by simp
    have "a = 0 \<longrightarrow> 32 \<le> b" "a = 13 \<longrightarrow> b < 32" using lo hi a b by auto
    then have "0x800 \<le> c" "c < 0x10000" using a b d unfolding c' by linarith+
    moreover have "is_scalar c"
    proof (cases "a \<le> 13")
      case True
      with \<open>a = 13 \<longrightarrow> b < 32\<close> b d show ?thesis unfolding c' is_scalar_def by linarith
    next
      case False
      with a b d show ?thesis unfolding c' is_scalar_def by linarith
    qed
    moreover have "c div 4096 = a" "c div 64 mod 64 = b" "c mod 64 = d"
      using undigits_3 [OF b(2) d(2) c'] by simp_all
    ultimately show ?thesis using a byte_eqI [OF b(1)] byte_eqI [OF d(1)] b0 unfolding bs r0
      by (simp add: encode_char_def)
  next
    case 4
    then obtain b1 b2 b3 where r0: "r0 = b1 # b2 # b3 # r" and k: "is_cont b1" "is_cont b2" "is_cont b3"
      and lo: "n0 = 0xF0 \<longrightarrow> 0x90 \<le> unat b1" and hi: "n0 = 0xF4 \<longrightarrow> unat b1 < 0x90"
      and c: "c = (n0 - 240) * 262144 + (unat b1 - 128) * 4096 + (unat b2 - 128) * 64 + (unat b3 - 128)"
      using assms unfolding bs
      by (auto simp: decode_step_def n0_def Let_def split: list.splits if_splits)
    obtain a b d e where a: "n0 = 240 + a" "a < 5" and b: "unat b1 = 128 + b" "b < 64"
      and d: "unat b2 = 128 + d" "d < 64" and e: "unat b3 = 128 + e" "e < 64"
      using 4 k that [of "n0 - 240" "unat b1 - 128" "unat b2 - 128" "unat b3 - 128"]
      by (auto simp: is_cont_def)
    have c': "c = a * 262144 + b * 4096 + d * 64 + e" using c a b d e by simp
    have "a = 0 \<longrightarrow> 16 \<le> b" "a = 4 \<longrightarrow> b < 16" using lo hi a b by auto
    then have "0x10000 \<le> c" "is_scalar c"
      using a b d e unfolding c' is_scalar_def by linarith+
    moreover have "c div 262144 = a" "c div 4096 mod 64 = b" "c div 64 mod 64 = d" "c mod 64 = e"
      using undigits_4 [OF b(2) d(2) e(2) c'] by simp_all
    ultimately show ?thesis
      using a byte_eqI [OF b(1)] byte_eqI [OF d(1)] byte_eqI [OF e(1)] b0 unfolding bs r0
      by (simp add: encode_char_def)
  qed
qed

lemma utf8_decode_valid: "utf8_decode bs = Some s \<Longrightarrow> valid_str s \<and> utf8_encode s = bs"
proof (induction bs arbitrary: s rule: utf8_decode.induct)
  case (1 bs)
  show ?case
  proof (cases "bs = []")
    case True
    then show ?thesis using "1.prems" by (simp add: utf8_decode.simps)
  next
    case False
    with "1.prems" obtain c r t where d: "decode_step bs = Inr (c, r)" and t: "utf8_decode r = Some t"
      and s: "s = c # t"
      by (subst (asm) utf8_decode.simps) (auto split: sum.splits)
    from "1.IH" [OF False d refl t] decode_step_valid [OF d] s show ?thesis by simp
  qed
qed

lemma valid_utf8_lossy: "valid_str (utf8_lossy bs)"
proof (induction bs rule: utf8_lossy.induct)
  case (1 bs)
  show ?case
  proof (cases "bs = []")
    case False
    with 1 show ?thesis
      by (subst utf8_lossy.simps)
        (auto split: sum.splits dest: decode_step_valid simp: is_scalar_def)
  qed (simp add: utf8_lossy.simps)
qed

lemma encode_char_low: "is_scalar c \<Longrightarrow> b \<in> set (encode_char c) \<Longrightarrow> unat b < 128 \<Longrightarrow> unat b = c"
  by (auto simp: encode_char_def is_scalar_def split: if_splits)

lemma encode_no_byte: "valid_str s \<Longrightarrow> k < 128 \<Longrightarrow> k \<notin> set s \<Longrightarrow> byte_of k \<notin> set (utf8_encode s)"
proof (induction s)
  case (Cons c s)
  then show ?case using encode_char_low [of c "byte_of k"] by auto
qed simp

lemma utf8_lossy_ascii: "list_all (\<lambda>b. unat b < 128) bs \<Longrightarrow> utf8_lossy bs = map unat bs"
proof -
  assume a: "list_all (\<lambda>b. unat b < 128) bs"
  have e: "utf8_encode (map unat bs) = bs"
    using a by (induction bs) (auto simp: encode_char_def byte_of_def)
  have "valid_str (map unat bs)" using a by (auto simp: valid_str_def is_scalar_def list_all_iff)
  then show ?thesis using utf8_lossy_encode [of "map unat bs"] e by simp
qed

lemma utf8_encode_ascii: "list_all (\<lambda>c. c < 128) s \<Longrightarrow> utf8_encode s = map byte_of s"
  by (induction s) (auto simp: encode_char_def)

end
