(* ===== verification/Pair.thy ===== *)
theory Pair
  imports Net Utf8
begin

section \<open>\<open>seck-pair\<close>: the pairing endpoint\<close>

text \<open>
  \<open>crates/seck-pair/src/wg.rs\<close> and \<open>pairing.rs\<close>.  The endpoint's peer slot is a small state machine
  (\<open>set_peer\<close>), the bundle a function of the endpoint and the published address.  The random source
  is a parameter \<open>rng\<close> (the bytes of each draw), the X25519 base-point multiplication, SHA3-256 and
  the hexadecimal encoder are parameters too, and so is the parser of addresses.
\<close>

type_synonym key32 = bytes

definition zero32 :: key32 where
  "zero32 = replicate 32 0"

record wg_endpoint =
  host_private :: key32
  host_public :: key32
  peer_public :: key32
  psk :: key32
  bind_addr :: socket_addr

text \<open>\<open>StaticSecret::from\<close> keeps the 32 bytes; the key pair takes the first draw, the PSK the second.\<close>

definition new_random :: "(nat \<Rightarrow> bytes) \<Rightarrow> (key32 \<Rightarrow> key32) \<Rightarrow> socket_addr \<Rightarrow> wg_endpoint" where
  "new_random rng x25519 addr =
     (let host_priv = rng 0 in
      \<lparr>host_private = host_priv, host_public = x25519 host_priv, peer_public = zero32,
       psk = rng 1, bind_addr = addr\<rparr>)"

datatype pair_error = AlreadyPaired | ZeroPeer | NotPrivate ip_addr | AddrParse

definition set_peer :: "key32 \<Rightarrow> wg_endpoint \<Rightarrow> wg_endpoint \<times> (pair_error + unit)" where
  "set_peer k ep =
     (if peer_public ep \<noteq> zero32 then (ep, Inl AlreadyPaired)
      else if k = zero32 then (ep, Inl ZeroPeer)
      else (ep\<lparr>peer_public := k\<rparr>, Inr ()))"

definition is_paired :: "wg_endpoint \<Rightarrow> bool" where
  "is_paired ep \<longleftrightarrow> peer_public ep \<noteq> zero32"

definition pair_step :: "wg_endpoint \<Rightarrow> key32 \<Rightarrow> wg_endpoint" where
  "pair_step ep k = fst (set_peer k ep)"

interpretation paired: stepper pair_step "\<lambda>ep. is_paired ep \<and> ep = ep0" for ep0
  by unfold_locales (auto simp: pair_step_def set_peer_def is_paired_def)

interpretation pair_frame: stepper pair_step "\<lambda>ep. \<exists>k. ep = ep0\<lparr>peer_public := k\<rparr>" for ep0
  by unfold_locales (auto simp: pair_step_def set_peer_def)

section \<open>The published bundle\<close>

record pairing_bundle =
  host_public_hex :: ustr
  psk_hex :: ustr
  host_endpoint :: ustr
  fingerprint_sha3_256 :: ustr

fun is_private_ip :: "ip_addr \<Rightarrow> bool" where
  "is_private_ip (V4 a b c d) \<longleftrightarrow>
     v4_is_loopback a \<or> v4_is_private a b \<or> v4_is_link_local a b \<or> (a = 100 \<and> 64 \<le> b \<and> b \<le> 127)"
| "is_private_ip (V6 s0 s1 s2 s3 s4 s5 s6 s7) \<longleftrightarrow>
     V6 s0 s1 s2 s3 s4 s5 s6 s7 = V6_LOCALHOST \<or> and s0 0xfe00 = 0xfc00"

definition build_bundle_with_ip ::
    "(bytes \<Rightarrow> bytes) \<Rightarrow> (bytes \<Rightarrow> ustr) \<Rightarrow> wg_endpoint \<Rightarrow> ip_addr \<Rightarrow> pair_error + pairing_bundle" where
  "build_bundle_with_ip sha3 hex ep ip =
     (if \<not> is_private_ip ip then Inl (NotPrivate ip)
      else
        let endpoint = show_ip ip @ lit '':'' @ show_nat (unat (sock_port (bind_addr ep))) in
        Inr \<lparr>host_public_hex = hex (host_public ep), psk_hex = hex (psk ep), host_endpoint = endpoint,
             fingerprint_sha3_256 = hex (sha3 (host_public ep @ psk ep))\<rparr>)"

definition lan_ip :: "(ustr \<Rightarrow> ip_addr option) \<Rightarrow> ustr option \<Rightarrow> pair_error + ip_addr" where
  "lan_ip parse_ip env_lan_ip =
     (case env_lan_ip of
        Some s \<Rightarrow> ok_or AddrParse (parse_ip s)
      | None \<Rightarrow> Inr LOCALHOST)"

definition build_bundle ::
    "(ustr \<Rightarrow> ip_addr option) \<Rightarrow> (bytes \<Rightarrow> bytes) \<Rightarrow> (bytes \<Rightarrow> ustr) \<Rightarrow> ustr option \<Rightarrow> wg_endpoint
       \<Rightarrow> pair_error + pairing_bundle" where
  "build_bundle parse_ip sha3 hex env_lan_ip ep =
     try_bind (lan_ip parse_ip env_lan_ip) (\<lambda>ip. build_bundle_with_ip sha3 hex ep ip)"

definition from_utf8_or_empty :: "bytes \<Rightarrow> ustr" where
  "from_utf8_or_empty c = (case utf8_decode c of Some s \<Rightarrow> s | None \<Rightarrow> [])"

definition format_fingerprint :: "ustr \<Rightarrow> ustr" where
  "format_fingerprint hex = join (lit '' '') (map from_utf8_or_empty (chunks 8 (utf8_encode hex)))"

section \<open>Address ranges\<close>

text \<open>An IPv4 address as a number, and the ranges the documentation names.\<close>

definition v4_num :: "u8 \<Rightarrow> u8 \<Rightarrow> u8 \<Rightarrow> u8 \<Rightarrow> nat" where
  "v4_num a b c d = ((unat a * 256 + unat b) * 256 + unat c) * 256 + unat d"

definition in_block :: "nat \<Rightarrow> nat \<Rightarrow> nat \<Rightarrow> bool" where
  "in_block base bits n \<longleftrightarrow> n div 2 ^ bits = base div 2 ^ bits"

text \<open>The IPv4 ranges that the comments at \<open>pairing.rs:22\<close> and \<open>pairing.rs:67\<close> list: loopback, the three of
  RFC 1918, and RFC 6598.\<close>

definition v4_documented :: "nat \<Rightarrow> bool" where
  "v4_documented n \<longleftrightarrow>
     in_block 0x7f000000 24 n
     \<or> in_block 0x0a000000 24 n \<or> in_block 0xac100000 20 n \<or> in_block 0xc0a80000 16 n
     \<or> in_block 0x64400000 22 n"

text \<open>169.254/16, which they do not list and the code accepts.\<close>

definition v4_link_local_num :: "nat \<Rightarrow> bool" where
  "v4_link_local_num n \<longleftrightarrow> in_block 0xa9fe0000 16 n"

lemma v4_div16: "v4_num a b c d div 65536 = unat a * 256 + unat b"
  using unat_byte_bound [of c] unat_byte_bound [of d] by (simp add: v4_num_def)

lemma v4_divs:
  "v4_num a b c d div 16777216 = unat a"
  "v4_num a b c d div 1048576 = unat a * 16 + unat b div 16"
  "v4_num a b c d div 4194304 = unat a * 4 + unat b div 64"
proof -
  have "v4_num a b c d div 16777216 = v4_num a b c d div 65536 div 256"
    "v4_num a b c d div 1048576 = v4_num a b c d div 65536 div 16"
    "v4_num a b c d div 4194304 = v4_num a b c d div 65536 div 64"
    by (simp_all flip: div_mult2_eq)
  then show "v4_num a b c d div 16777216 = unat a"
    "v4_num a b c d div 1048576 = unat a * 16 + unat b div 16"
    "v4_num a b c d div 4194304 = unat a * 4 + unat b div 64"
    using unat_byte_bound [of b] unfolding v4_div16 by linarith+
qed

lemma digit_eqs:
  fixes x q :: nat
  shows "q < 16 \<Longrightarrow> x * 16 + q = 2753 \<longleftrightarrow> x = 172 \<and> q = 1"
    and "q < 4 \<Longrightarrow> x * 4 + q = 401 \<longleftrightarrow> x = 100 \<and> q = 1"
    and "q < 256 \<Longrightarrow> x * 256 + q = 49320 \<longleftrightarrow> x = 192 \<and> q = 168"
    and "q < 256 \<Longrightarrow> x * 256 + q = 43518 \<longleftrightarrow> x = 169 \<and> q = 254"
proof -
  show "q < 16 \<Longrightarrow> x * 16 + q = 2753 \<longleftrightarrow> x = 172 \<and> q = 1" by presburger
  show "q < 4 \<Longrightarrow> x * 4 + q = 401 \<longleftrightarrow> x = 100 \<and> q = 1" by presburger
  show "q < 256 \<Longrightarrow> x * 256 + q = 49320 \<longleftrightarrow> x = 192 \<and> q = 168"
    by (rule iffI, subgoal_tac "x = 192", simp, linarith, simp)
  show "q < 256 \<Longrightarrow> x * 256 + q = 43518 \<longleftrightarrow> x = 169 \<and> q = 254"
    by (rule iffI, subgoal_tac "x = 169", simp, linarith, simp)
qed

lemma block_bounds:
  fixes x y :: nat
  assumes "y < 256"
  shows "x * 16 + y div 16 = 2753 \<longleftrightarrow> x = 172 \<and> 16 \<le> y \<and> y \<le> 31"
    and "x * 4 + y div 64 = 401 \<longleftrightarrow> x = 100 \<and> 64 \<le> y \<and> y \<le> 127"
    and "x * 256 + y = 49320 \<longleftrightarrow> x = 192 \<and> y = 168"
    and "x * 256 + y = 43518 \<longleftrightarrow> x = 169 \<and> y = 254"
proof -
  have m: "y div 16 * 16 + y mod 16 = y" "y mod 16 < 16" "y div 64 * 64 + y mod 64 = y" "y mod 64 < 64"
    by simp_all
  have "y div 16 = 1 \<longleftrightarrow> 16 \<le> y \<and> y \<le> 31" "y div 64 = 1 \<longleftrightarrow> 64 \<le> y \<and> y \<le> 127"
    using m by linarith+
  moreover have "y div 16 < 16" "y div 64 < 4" using m assms by linarith+
  ultimately show "x * 16 + y div 16 = 2753 \<longleftrightarrow> x = 172 \<and> 16 \<le> y \<and> y \<le> 31"
    "x * 4 + y div 64 = 401 \<longleftrightarrow> x = 100 \<and> 64 \<le> y \<and> y \<le> 127"
    by (simp_all add: digit_eqs)
qed (simp_all add: digit_eqs assms)

lemma private_v4_num:
  "is_private_ip (V4 a b c d) \<longleftrightarrow> v4_documented (v4_num a b c d) \<or> v4_link_local_num (v4_num a b c d)"
proof -
  have ab: "a = n \<longleftrightarrow> unat a = unat n" "n \<le> a \<longleftrightarrow> unat n \<le> unat a" "a \<le> n \<longleftrightarrow> unat a \<le> unat n" for a n :: u8
    by (simp_all add: word_unat_eq_iff word_le_nat_alt)
  show ?thesis
    using block_bounds [OF unat_byte_bound [of b], of "unat a"]
    by (auto simp: v4_is_loopback_def v4_is_private_def v4_is_link_local_def v4_documented_def v4_link_local_num_def in_block_def
        v4_divs v4_div16 ab)
qed

lemma unique_local_v6: "(and s0 0xfe00 = 0xfc00) = (unat (s0 :: u16) div 512 = 126)"
proof -
  have m: "(0xfe00 :: u16) = push_bit 9 (mask 7)" by (simp add: mask_eq_exp_minus_1 push_bit_eq_mult)
  have "and s0 0xfe00 = push_bit 9 (drop_bit 9 s0)"
    unfolding m by (rule bit_word_eqI) (auto simp: bit_simps)
  then have "and s0 0xfe00 = s0 div 512 * 512"
    by (simp add: push_bit_eq_mult drop_bit_eq_div)
  moreover have "unat s0 div 512 * 512 < 65536"
    using unsigned_less [of s0, where ?'a = nat] by simp
  ultimately have "unat (and s0 0xfe00) = unat s0 div 512 * 512"
    by (simp add: unat_word_ariths(2) unat_div)
  then show ?thesis by (simp add: word_unat_eq_iff)
qed

section \<open>The peer slot\<close>

fun first_nonzero :: "key32 list \<Rightarrow> key32" where
  "first_nonzero [] = zero32"
| "first_nonzero (k # ks) = (if k = zero32 then first_nonzero ks else k)"

lemma pair_run_peer: "peer_public (run_steps pair_step ep ks) =
    (if peer_public ep = zero32 then first_nonzero ks else peer_public ep)"
  by (induction ks arbitrary: ep) (auto simp: pair_step_def set_peer_def)

section \<open>The displayed fingerprint\<close>

definition plain_ascii :: "ustr \<Rightarrow> bool" where
  "plain_ascii s \<longleftrightarrow> list_all (\<lambda>c. c < 128 \<and> c \<noteq> 32) s"

lemma from_utf8_ascii: "list_all (\<lambda>c. c < 128) s \<Longrightarrow> from_utf8_or_empty (map byte_of s) = s"
proof -
  assume a: "list_all (\<lambda>c. c < 128) s"
  then have "valid_str s" by (auto simp: valid_str_def is_scalar_def list_all_iff)
  from utf8_decode_encode [OF this] show ?thesis by (simp add: from_utf8_or_empty_def utf8_encode_ascii [OF a])
qed

lemma chunks_map: "chunks n (map f s) = map (map f) (chunks n s)"
proof (induction n s rule: chunks.induct)
  case (1 n s)
  then show ?case
    by (cases "s = [] \<or> n = 0") (auto simp: chunks.simps [of n s] chunks.simps [of n "map f s"] take_map drop_map)
qed

lemma set_chunks: "g \<in> set (chunks n s) \<Longrightarrow> set g \<subseteq> set s"
proof (induction n s rule: chunks.induct)
  case (1 n s)
  show ?case
  proof (cases "s = [] \<or> n = 0")
    case False
    then have "g = take n s \<or> g \<in> set (chunks n (drop n s))" using 1(2) by (simp add: chunks.simps [of n s])
    then show ?thesis using 1(1) [OF False] set_take_subset [of n s] set_drop_subset [of n s] by blast
  qed (use 1(2) in \<open>simp add: chunks.simps [of n s]\<close>)
qed

lemma format_ascii: "plain_ascii h \<Longrightarrow> format_fingerprint h = join [32] (chunks 8 h)"
proof -
  assume h: "plain_ascii h"
  then have a: "list_all (\<lambda>c. c < 128) h" by (auto simp: plain_ascii_def list_all_iff)
  have "from_utf8_or_empty (map byte_of g) = g" if "g \<in> set (chunks 8 h)" for g
    using set_chunks [OF that] a by (intro from_utf8_ascii) (auto simp: list_all_iff)
  then have "map from_utf8_or_empty (chunks 8 (map byte_of h)) = chunks 8 h"
    by (simp add: chunks_map map_idI)
  then show ?thesis by (simp add: format_fingerprint_def utf8_encode_ascii [OF a])
qed

section \<open>Properties\<close>

text \<open>C37: the addresses a pairing bundle may carry are exactly: the IPv4 blocks that the comments list (127/8,
  RFC 1918 and RFC 6598) and the link-local block 169.254/16, which they do not list, all read as 32-bit ranges;
  and in IPv6 the address ::1 and the unique local block \<open>fc00::/7\<close> (RFC 4193).\<close>

theorem private_ip_ranges:
  "is_private_ip ip \<longleftrightarrow>
     (case ip of
        V4 a b c d \<Rightarrow> v4_documented (v4_num a b c d) \<or> v4_link_local_num (v4_num a b c d)
      | V6 s0 s1 s2 s3 s4 s5 s6 s7 \<Rightarrow> ip = V6_LOCALHOST \<or> unat s0 div 512 = 126)"
  by (cases ip) (simp_all only: private_v4_num ip_addr.case is_private_ip.simps(2) unique_local_v6)

text \<open>pairing takes effect once: after any sequence of attempts on a new endpoint, the peer is the first
  non-zero key that was offered, and the host keys, the PSK and the address are untouched.\<close>

theorem pairs_once:
  "run_steps pair_step (new_random rng x25519 addr) ks
     = (new_random rng x25519 addr)\<lparr>peer_public := first_nonzero ks\<rparr>"
proof -
  let ?e = "new_random rng x25519 addr"
  obtain k where "run_steps pair_step ?e ks = ?e\<lparr>peer_public := k\<rparr>"
    using pair_frame.run_inv [of ?e ?e ks] by (metis wg_endpoint.surjective wg_endpoint.update_convs(3))
  moreover have "peer_public (run_steps pair_step ?e ks) = first_nonzero ks"
    by (simp add: pair_run_peer new_random_def Let_def)
  ultimately show ?thesis by simp
qed

text \<open>The fingerprint shown to the user is the hexadecimal digest in groups of eight, and reading the
  groups gives the digest back.\<close>

theorem fingerprint_groups:
  assumes "plain_ascii h" and "h \<noteq> []"
  shows "split_on 32 (format_fingerprint h) = chunks 8 h \<and> concat (split_on 32 (format_fingerprint h)) = h"
proof -
  have "split_on 32 (join [32] (chunks 8 h)) = chunks 8 h"
  proof (rule split_on_join)
    show "chunks 8 h \<noteq> []" using assms(2) by (subst chunks.simps) simp
    show "\<forall>g \<in> set (chunks 8 h). 32 \<notin> set g"
      using assms(1) set_chunks by (fastforce simp: plain_ascii_def list_all_iff)
  qed
  then show ?thesis by (simp add: format_ascii [OF assms(1)] concat_chunks)
qed

theorem fingerprint_groups_witness:
  "plain_ascii (replicate 20 97) \<and> split_on 32 (format_fingerprint (replicate 20 97))
     = [replicate 8 97, replicate 8 97, replicate 4 97]"
proof -
  have a: "plain_ascii (replicate 20 97)" by (simp add: plain_ascii_def list_all_iff)
  have "chunks 8 (replicate 20 (97 :: nat)) = [replicate 8 97, replicate 8 97, replicate 4 97]"
    by (simp add: chunks.simps)
  then show ?thesis using a fingerprint_groups [OF a] by simp
qed

text \<open>An IPv6 endpoint is published without brackets, so address and port cannot be told apart: the
  endpoint of \<open>fd00::1\<close> on port 5 is the text of the address \<open>fd00::1:5\<close>.\<close>

theorem ipv6_endpoint_ambiguous:
  "case build_bundle_with_ip sha3 hex ep (V6 0xfd00 0 0 0 0 0 0 1) of
     Inl e \<Rightarrow> False
   | Inr b \<Rightarrow> sock_port (bind_addr ep) = 5 \<longrightarrow> host_endpoint b = show_ip (V6 0xfd00 0 0 0 0 0 1 5)"
  by (simp add: build_bundle_with_ip_def show_v6_def show_segments_def show_hex.simps hex_digit_def Let_def
      show_nat.simps)

theorem ipv6_endpoint_ambiguous_witness:
  "sock_port (bind_addr (new_random (\<lambda>n. zero32) id (SocketAddr LOCALHOST 5))) = 5
   \<and> (case build_bundle_with_ip id (map unat) (new_random (\<lambda>n. zero32) id (SocketAddr LOCALHOST 5))
        (V6 0xfd00 0 0 0 0 0 0 1) of
        Inl e \<Rightarrow> False | Inr b \<Rightarrow> host_endpoint b = show_ip (V6 0xfd00 0 0 0 0 0 1 5))"
proof -
  have p: "sock_port (bind_addr (new_random (\<lambda>n. zero32) id (SocketAddr LOCALHOST 5))) = 5"
    by (simp add: new_random_def Let_def)
  then show ?thesis
    using ipv6_endpoint_ambiguous [where ?sha3.0 = id and hex = "map unat" and ep = "new_random (\<lambda>n. zero32) id (SocketAddr LOCALHOST 5)"]
    by (auto split: sum.splits)
qed

end
