(* ===== verification/TraceCheck.thy ===== *)
theory TraceCheck
  imports Utf8
begin

section \<open>\<open>seck-trace-check\<close>: the runtime trace checker\<close>

text \<open>
  \<open>crates/seck-trace-check/src\<close>: the parser of \<open>strace\<close> lines into effects, the check of the IO
  boundary against a canary, and the command-line tool around them.  The scanner of quoted strings
  works on the UTF-8 bytes of a line, as the code does; the positions \<open>str::find\<close> gives are
  counted in characters instead of bytes, which denotes the same slices.
\<close>

datatype effect =
    OpenP bytes
  | ExecP bytes "bytes list" "(bytes \<times> bytes) list"
  | ReadF int
  | WriteF int bytes
  | NetConn ustr u16

subsection \<open>Parsing\<close>

definition strip_pid_prefix :: "ustr \<Rightarrow> ustr" where
  "strip_pid_prefix line =
     (let trimmed = trim_start line in
      case strip_prefix (lit ''['') trimmed of
        Some rest \<Rightarrow> (case find_sub (lit '']'') rest of Some idx \<Rightarrow> trim_start (drop (idx + 1) rest) | None \<Rightarrow> trimmed)
      | None \<Rightarrow> trimmed)"

text \<open>The inner loop: the bytes up to the closing quote, honouring backslash escapes, and the rest.\<close>

fun quoted :: "bytes \<Rightarrow> (bytes \<times> bytes) option" where
  "quoted [] = None"
| "quoted [b] = (if b = 34 then Some ([], []) else None)"
| "quoted (b # c # bs) =
     (if b = 92 then map_option (\<lambda>(s, r). (b # c # s, r)) (quoted bs)
      else if b = 34 then Some ([], c # bs)
      else map_option (\<lambda>(s, r). (b # s, r)) (quoted (c # bs)))"

lemma quoted_length: "quoted bs = Some (s, r) \<Longrightarrow> length r < length bs"
  by (induction bs arbitrary: s r rule: quoted.induct) (fastforce split: if_splits)+

function nth_quoted :: "nat \<Rightarrow> bytes \<Rightarrow> ustr option" where
  "nth_quoted n [] = None"
| "nth_quoted n (b # bs) =
     (if b = 34 then
        (case quoted bs of
           None \<Rightarrow> None
         | Some (s, r) \<Rightarrow> if n = 0 then Some (utf8_lossy s) else nth_quoted (n - 1) r)
      else nth_quoted n bs)"
  by pat_completeness auto
termination
  by (relation "measure (\<lambda>(n, bs). length bs)") (auto dest: quoted_length)

definition nth_quoted_string :: "ustr \<Rightarrow> nat \<Rightarrow> ustr option" where
  "nth_quoted_string args n = nth_quoted n (utf8_encode args)"

text \<open>\<open>str::parse\<close> for \<open>i32\<close> and \<open>u16\<close>: an optional sign (no minus for the unsigned one), then digits, in
  range.\<close>

fun digits_value :: "nat \<Rightarrow> ustr \<Rightarrow> nat option" where
  "digits_value acc [] = Some acc"
| "digits_value acc (c # s) = (if 48 \<le> c \<and> c \<le> 57 then digits_value (acc * 10 + (c - 48)) s else None)"

definition parse_nat :: "ustr \<Rightarrow> nat option" where
  "parse_nat s = (if s = [] then None else digits_value 0 s)"

definition parse_i32 :: "ustr \<Rightarrow> int option" where
  "parse_i32 s =
     (case s of
        [] \<Rightarrow> None
      | c # t \<Rightarrow>
          if c = 45 then
            (case parse_nat t of Some n \<Rightarrow> if n \<le> 2147483648 then Some (- int n) else None | None \<Rightarrow> None)
          else
            (case parse_nat (if c = 43 then t else s) of
               Some n \<Rightarrow> if n \<le> 2147483647 then Some (int n) else None
             | None \<Rightarrow> None))"

definition parse_u16 :: "ustr \<Rightarrow> u16 option" where
  "parse_u16 s =
     (case parse_nat (case s of c # t \<Rightarrow> if c = 43 then t else s | [] \<Rightarrow> s) of
        Some n \<Rightarrow> if n < 65536 then Some (of_nat n) else None
      | None \<Rightarrow> None)"

definition first_token_int :: "ustr \<Rightarrow> int option" where
  "first_token_int args = parse_i32 (trim (hd (split_on 44 args)))"

definition connect_host :: "ustr \<Rightarrow> ustr option" where
  "connect_host args =
     Option.bind (find_sub (lit ''inet_addr(\"'') args) (\<lambda>i.
     let s = drop (i + 11) args in
     Option.bind (find_sub [34] s) (\<lambda>end. Some (take end s)))"

definition connect_port :: "ustr \<Rightarrow> u16 option" where
  "connect_port args =
     Option.bind (find_sub (lit ''htons('') args) (\<lambda>i.
     let s = drop (i + 6) args in
     Option.bind (find_sub (lit '')'') s) (\<lambda>end. parse_u16 (take end s)))"

definition parse_line :: "ustr \<Rightarrow> effect option" where
  "parse_line line =
     (let body = strip_pid_prefix line in
      case strip_prefix (lit ''openat('') body of
        Some args \<Rightarrow> map_option (\<lambda>path. OpenP (utf8_encode path)) (nth_quoted_string args 0)
      | None \<Rightarrow>
      case strip_prefix (lit ''openat2('') body of
        Some args \<Rightarrow> map_option (\<lambda>path. OpenP (utf8_encode path)) (nth_quoted_string args 0)
      | None \<Rightarrow>
      case strip_prefix (lit ''execve('') body of
        Some args \<Rightarrow> map_option (\<lambda>path. ExecP (utf8_encode path) [] []) (nth_quoted_string args 0)
      | None \<Rightarrow>
      case strip_prefix (lit ''execveat('') body of
        Some args \<Rightarrow> map_option (\<lambda>path. ExecP (utf8_encode path) [] []) (nth_quoted_string args 0)
      | None \<Rightarrow>
      case strip_prefix (lit ''write('') body of
        Some args \<Rightarrow>
          Option.bind (first_token_int args) (\<lambda>fd.
          Option.bind (nth_quoted_string args 0) (\<lambda>bytes_str. Some (WriteF fd (utf8_encode bytes_str))))
      | None \<Rightarrow>
      case strip_prefix (lit ''read('') body of
        Some args \<Rightarrow> Option.bind (first_token_int args) (\<lambda>fd. Some (ReadF fd))
      | None \<Rightarrow>
      case strip_prefix (lit ''connect('') body of
        Some args \<Rightarrow>
          Option.bind (connect_host args) (\<lambda>host.
          Option.bind (connect_port args) (\<lambda>port. Some (NetConn host port)))
      | None \<Rightarrow> None)"

definition parse_strace :: "ustr \<Rightarrow> effect list" where
  "parse_strace inp = List.map_filter parse_line (lines inp)"

subsection \<open>Checking\<close>

definition ALLOWED_TAINTED_WRITE_FDS :: "int list" where
  "ALLOWED_TAINTED_WRITE_FDS = [3, 5]"

datatype invariant_error =
    TaintedOpen bytes
  | TaintedExec bytes
  | Net ustr u16
  | UnauthorizedWrite int

definition contains_subsequence :: "bytes \<Rightarrow> bytes \<Rightarrow> bool" where
  "contains_subsequence haystack needle =
     (if needle = [] \<or> length needle > length haystack then False
      else list_ex (\<lambda>w. w = needle) (windows (length needle) haystack))"

fun check_args :: "bytes list \<Rightarrow> bytes \<Rightarrow> invariant_error + unit" where
  "check_args [] canary = Inr ()"
| "check_args (a # as) canary =
     (if contains_subsequence a canary then Inl (TaintedExec a) else check_args as canary)"

fun check_env :: "(bytes \<times> bytes) list \<Rightarrow> bytes \<Rightarrow> invariant_error + unit" where
  "check_env [] canary = Inr ()"
| "check_env ((k, v) # env) canary =
     (if contains_subsequence k canary then Inl (TaintedExec k)
      else if contains_subsequence v canary then Inl (TaintedExec v)
      else check_env env canary)"

fun check_effect :: "bytes \<Rightarrow> effect \<Rightarrow> invariant_error + unit" where
  "check_effect canary (OpenP path) =
     (if contains_subsequence path canary then Inl (TaintedOpen path) else Inr ())"
| "check_effect canary (ExecP path args env) =
     (if contains_subsequence path canary then Inl (TaintedExec path)
      else try_bind (check_args args canary) (\<lambda>_. check_env env canary))"
| "check_effect canary (NetConn host port) = Inl (Net host port)"
| "check_effect canary (WriteF fd bs) =
     (if contains_subsequence bs canary \<and> fd \<notin> set ALLOWED_TAINTED_WRITE_FDS then Inl (UnauthorizedWrite fd)
      else Inr ())"
| "check_effect canary (ReadF fd) = Inr ()"

fun check_trace :: "effect list \<Rightarrow> bytes \<Rightarrow> invariant_error + unit" where
  "check_trace [] canary = Inr ()"
| "check_trace (e # effects) canary = try_bind (check_effect canary e) (\<lambda>_. check_trace effects canary)"

subsection \<open>The tool\<close>

datatype trace_exit = MissingTrace | MissingCanary | ReadTrace | TraceOk ustr | TraceFailed invariant_error

definition trace_check_main :: "(ustr \<Rightarrow> ustr option) \<Rightarrow> ustr list \<Rightarrow> trace_exit" where
  "trace_check_main read_file argv =
     (case tl argv of
        [] \<Rightarrow> MissingTrace
      | [_] \<Rightarrow> MissingCanary
      | trace_path # canary # _ \<Rightarrow>
          case read_file trace_path of
            None \<Rightarrow> ReadTrace
          | Some body \<Rightarrow>
              let effs = parse_strace body in
              case check_trace effs (utf8_encode canary) of
                Inr _ \<Rightarrow> TraceOk (lit ''trace-check: IO boundary holds ('' @ show_nat (length effs) @ lit '' effects scanned)'')
              | Inl e \<Rightarrow> TraceFailed e)"

section \<open>What the check means\<close>

text \<open>The boundary: no effect carries the canary where it may not go, and there is no connection.\<close>

definition occurs :: "bytes \<Rightarrow> bytes \<Rightarrow> bool" where
  "occurs canary bs \<longleftrightarrow> canary \<noteq> [] \<and> sublist canary bs"

fun allowed :: "bytes \<Rightarrow> effect \<Rightarrow> bool" where
  "allowed canary (OpenP path) \<longleftrightarrow> \<not> occurs canary path"
| "allowed canary (ExecP path args env) \<longleftrightarrow>
     list_all (\<lambda>s. \<not> occurs canary s) (path # args @ map fst env @ map snd env)"
| "allowed canary (ReadF fd) \<longleftrightarrow> True"
| "allowed canary (WriteF fd bs) \<longleftrightarrow> fd = 3 \<or> fd = 5 \<or> \<not> occurs canary bs"
| "allowed canary (NetConn host port) \<longleftrightarrow> False"

lemma contains_subsequence_occurs [simp]: "contains_subsequence h n = occurs n h"
  by (auto simp: contains_subsequence_def occurs_def list_ex_iff mem_windows_iff dest: sublist_length_le)

lemma check_args_ok: "is_ok (check_args as c) \<longleftrightarrow> list_all (\<lambda>s. \<not> occurs c s) as"
  by (induction as) auto

lemma check_env_ok: "is_ok (check_env env c) \<longleftrightarrow> list_all (\<lambda>s. \<not> occurs c s) (map fst env @ map snd env)"
  by (induction env c rule: check_env.induct) auto

lemma is_ok_bind: "is_ok (try_bind m (\<lambda>_. n)) \<longleftrightarrow> is_ok m \<and> is_ok n"
  by (cases m) auto

lemma check_effect_ok: "is_ok (check_effect c e) \<longleftrightarrow> allowed c e"
  by (cases e) (auto simp: is_ok_bind check_args_ok check_env_ok ALLOWED_TAINTED_WRITE_FDS_def)

lemma check_trace_ok: "is_ok (check_trace es c) \<longleftrightarrow> list_all (allowed c) es"
  by (induction es) (auto simp: is_ok_bind check_effect_ok)

lemma check_trace_find:
  "check_trace es c = (case List.find (\<lambda>e. \<not> allowed c e) es of None \<Rightarrow> Inr () | Some e \<Rightarrow> check_effect c e)"
proof (induction es)
  case (Cons e es)
  show ?case
  proof (cases "check_effect c e")
    case (Inl x)
    then have "\<not> allowed c e" using check_effect_ok [of c e] by simp
    then show ?thesis using Inl by simp
  next
    case (Inr u)
    then have "allowed c e" using check_effect_ok [of c e] by simp
    then show ?thesis using Inr Cons by simp
  qed
qed simp

section \<open>Lines\<close>

lemma digits_value_append:
  "digits_value a (s @ [48 + d]) = (if d < 10 then map_option (\<lambda>v. v * 10 + d) (digits_value a s) else None)"
  by (induction a s rule: digits_value.induct) auto

lemma digits_value_show: "digits_value 0 (show_nat n) = Some n"
proof (induction n rule: show_nat.induct)
  case (1 n)
  show ?case
  proof (cases "n < 10")
    case True
    then show ?thesis by (simp add: show_nat.simps [of n])
  next
    case False
    then have "show_nat n = show_nat (n div 10) @ [48 + n mod 10]" by (subst show_nat.simps) simp
    then show ?thesis using 1 [OF False] by (simp only: digits_value_append) simp
  qed
qed

lemma parse_i32_show: "n \<le> 2147483647 \<Longrightarrow> parse_i32 (show_nat n) = Some (int n)"
proof -
  assume n: "n \<le> 2147483647"
  obtain c t where ct: "show_nat n = c # t" by (cases "show_nat n") auto
  then have "48 \<le> c" using show_nat_digits [of n] by simp
  then show ?thesis using ct n digits_value_show [of n] by (simp add: parse_i32_def parse_nat_def)
qed

lemma quoted_plain: "34 \<notin> set bs \<Longrightarrow> 92 \<notin> set bs \<Longrightarrow> quoted (bs @ 34 # r) = Some (bs, r)"
proof (induction bs)
  case Nil
  then show ?case by (cases r) auto
next
  case (Cons b bs)
  then show ?case by (cases "bs @ 34 # r") auto
qed

lemma nth_quoted_skip: "34 \<notin> set xs \<Longrightarrow> nth_quoted n (xs @ ys) = nth_quoted n ys"
  by (induction xs) auto

lemma show_nat_trim: "trim (show_nat n) = show_nat n"
proof -
  have d: "\<not> is_whitespace c" if "c \<in> set (show_nat n)" for c
    using show_nat_digits [of n] that by (auto simp: is_whitespace_def)
  have "dropWhile is_whitespace xs = xs" if "set xs = set (show_nat n)" for xs
    using that d by (cases xs) auto
  then show ?thesis by (simp add: trim_def trim_start_def trim_end_def)
qed

lemma parse_line_plain_write:
  assumes "valid_str s" and "34 \<notin> set s" and "92 \<notin> set s" and "n \<le> 2147483647"
  shows "parse_line (lit ''write('' @ show_nat n @ lit '', \"'' @ s @ [34] @ t) = Some (WriteF (int n) (utf8_encode s))"
proof -
  let ?args = "show_nat n @ lit '', \"'' @ s @ [34] @ t"
  have digits: "set (show_nat n) \<subseteq> {48..57}" using show_nat_digits [of n] by auto
  have pre: "strip_pid_prefix (lit ''write('' @ ?args) = lit ''write('' @ ?args"
    by (simp add: strip_pid_prefix_def trim_start_def is_whitespace_def Let_def)
  have "44 \<notin> set (show_nat n)" using digits by auto
  then have "hd (split_on 44 ?args) = show_nat n"
    by (simp add: split_on_append)
  then have fd: "first_token_int ?args = Some (int n)"
    by (simp add: first_token_int_def show_nat_trim parse_i32_show assms(4))
  have bs: "34 \<notin> set (utf8_encode s)" "92 \<notin> set (utf8_encode s)"
    using encode_no_byte [OF assms(1), of 34] encode_no_byte [OF assms(1), of 92] assms(2,3)
    by (simp_all add: byte_of_def)
  have "utf8_encode (show_nat n) = map byte_of (show_nat n)"
    using digits by (intro utf8_encode_ascii) (auto simp: list_all_iff)
  then have e: "utf8_encode ?args = (map byte_of (show_nat n) @ [44, 32]) @ 34 # utf8_encode s @ 34 # utf8_encode t"
    by (simp add: encode_char_def byte_of_def)
  have pre34: "34 \<notin> set (map byte_of (show_nat n) @ [44, 32])"
    using digits by (auto simp: byte_of_def word_unat_eq_iff unat_of_nat subset_iff)
  have q: "nth_quoted_string ?args 0 = Some s"
    unfolding nth_quoted_string_def e nth_quoted_skip [OF pre34]
    using quoted_plain [OF bs] by (simp add: utf8_lossy_encode assms(1))
  show ?thesis
    unfolding parse_line_def pre Let_def using fd q by simp
qed

lemma parse_line_digit: "48 \<le> c \<Longrightarrow> c \<le> 57 \<Longrightarrow> parse_line (c # s) = None"
  by (simp add: parse_line_def strip_pid_prefix_def trim_start_def is_whitespace_def Let_def)

lemma parse_line_Nil: "parse_line [] = None"
  by (simp add: parse_line_def strip_pid_prefix_def trim_start_def Let_def)

definition pid_line :: "ustr \<Rightarrow> bool" where
  "pid_line l \<longleftrightarrow> (case l of [] \<Rightarrow> True | c # _ \<Rightarrow> 48 \<le> c \<and> c \<le> 57)"

lemma parse_pid_line: "pid_line l \<Longrightarrow> parse_line l = None"
  by (auto simp: pid_line_def parse_line_digit parse_line_Nil split: list.splits)

lemma map_filter_none: "list_all (\<lambda>x. f x = None) xs \<Longrightarrow> List.map_filter f xs = []"
  by (induction xs) (auto simp: map_filter_simps)

lemma parse_line_plain_exec:
  assumes "valid_str p" and "34 \<notin> set p" and "92 \<notin> set p"
  shows "parse_line (lit ''execve(\"'' @ p @ [34] @ t) = Some (ExecP (utf8_encode p) [] [])"
proof -
  let ?args = "34 # p @ 34 # t"
  have pre: "strip_pid_prefix (lit ''execve(\"'' @ p @ [34] @ t) = lit ''execve('' @ ?args"
    by (simp add: strip_pid_prefix_def trim_start_def is_whitespace_def Let_def)
  have bs: "34 \<notin> set (utf8_encode p)" "92 \<notin> set (utf8_encode p)"
    using encode_no_byte [OF assms(1), of 34] encode_no_byte [OF assms(1), of 92] assms(2,3)
    by (simp_all add: byte_of_def)
  have q: "encode_char 34 = [34]" by (simp add: encode_char_def byte_of_def)
  have "nth_quoted_string ?args 0 = Some p"
    using quoted_plain [OF bs] by (simp add: nth_quoted_string_def utf8_lossy_encode assms(1) q)
  then show ?thesis unfolding parse_line_def pre Let_def by simp
qed

text \<open>No line gives an effect with arguments or environment.\<close>

definition no_args :: "effect option \<Rightarrow> bool" where
  "no_args r \<longleftrightarrow> (case r of Some (ExecP path args env) \<Rightarrow> args = [] \<and> env = [] | _ \<Rightarrow> True)"

lemma no_args_rules:
  "no_args None" "no_args (map_option (\<lambda>p. OpenP (f p)) m)" "no_args (map_option (\<lambda>p. ExecP (f p) [] []) m)"
  "no_args (Some (WriteF fd b))" "no_args (Some (ReadF fd))" "no_args (Some (NetConn h q))"
  by (cases m; simp add: no_args_def)+

lemma no_args_bind: "(\<And>x. no_args (f x)) \<Longrightarrow> no_args (Option.bind n f)"
  by (cases n) (simp_all add: no_args_rules)

lemma no_args_case: "no_args a \<Longrightarrow> (\<And>x. no_args (f x)) \<Longrightarrow> no_args (case n of None \<Rightarrow> a | Some x \<Rightarrow> f x)"
  by (cases n) simp_all

lemma no_args_parse_line: "no_args (parse_line l)"
  unfolding parse_line_def Let_def by (intro no_args_case no_args_bind no_args_rules)

section \<open>Properties\<close>

text \<open>C19: the checker accepts a list of effects exactly when every one of them respects the boundary (no canary
  in an opened path, in a program's path, arguments or environment, or in a write to another descriptor
  than 3 and 5, and no connection), and otherwise reports the error of the first that does not.\<close>

theorem check_trace_spec:
  "(is_ok (check_trace es c) \<longleftrightarrow> list_all (allowed c) es)
   \<and> check_trace es c = (case List.find (\<lambda>e. \<not> allowed c e) es of None \<Rightarrow> Inr () | Some e \<Rightarrow> check_effect c e)"
  using check_trace_ok check_trace_find by blast

text \<open>The line \<open>strace\<close> prints for a write of printable text is read back as that write: the descriptor
  and exactly the bytes of the text.\<close>

theorem plain_write_parsed:
  assumes "valid_str s" and "34 \<notin> set s" and "92 \<notin> set s" and "n \<le> 2147483647"
  shows "parse_line (lit ''write('' @ show_nat n @ lit '', \"'' @ s @ [34] @ t) = Some (WriteF (int n) (utf8_encode s))"
  using assms by (rule parse_line_plain_write)

theorem plain_write_parsed_witness:
  "parse_line (lit ''write('' @ show_nat 2 @ lit '', \"'' @ lit ''leak'' @ [34] @ lit '', 4) = 4'')
     = Some (WriteF 2 (utf8_encode (lit ''leak'')))"
  using plain_write_parsed [of "lit ''leak''" 2 "lit '', 4) = 4''"] by (simp add: is_scalar_def)

text \<open>a line that starts with a bare process number, which is how \<open>strace -f -o\<close> writes every line, is
  not recognised: such a trace has no effects and passes the check whatever it contains.\<close>

theorem bare_pid_trace_passes:
  assumes "list_all pid_line (lines body)"
  shows "parse_strace body = [] \<and> check_trace (parse_strace body) canary = Inr ()"
proof -
  have "list_all (\<lambda>l. parse_line l = None) (lines body)"
    using assms parse_pid_line by (auto simp: list_all_iff)
  then show ?thesis by (simp add: parse_strace_def map_filter_none)
qed

definition leaking_trace :: ustr where
  "leaking_trace = lit ''4711  write(1, \"CANARY\", 6) = 6'' @ [10]"

theorem bare_pid_trace_passes_witness:
  "list_all pid_line (lines leaking_trace) \<and> check_trace (parse_strace leaking_trace) (blit ''CANARY'') = Inr ()"
proof -
  have l: "list_all pid_line (lines leaking_trace)"
    by (simp add: leaking_trace_def lines_def pid_line_def chomp_cr_def)
  then show ?thesis using bare_pid_trace_passes [OF l] by blast
qed

text \<open>The parser never reports the arguments or the environment of a started program: whatever follows the
  program's path on the line, a canary in the arguments included, leaves no trace in the effect.\<close>

theorem exec_arguments_unseen:
  assumes "valid_str p" and "34 \<notin> set p" and "92 \<notin> set p"
  shows "no_args (parse_line l) \<and> parse_line (lit ''execve(\"'' @ p @ [34] @ t) = Some (ExecP (utf8_encode p) [] [])"
  using no_args_parse_line parse_line_plain_exec [OF assms] by blast

theorem exec_arguments_unseen_witness:
  "check_trace (List.map_filter parse_line
      [lit ''execve(\"'' @ lit ''/bin/sh'' @ [34] @ lit '', [\"sh\", \"CANARY\"], 0x7ffd) = 0'']) (blit ''CANARY'') = Inr ()"
proof -
  have p: "parse_line (lit ''execve(\"'' @ lit ''/bin/sh'' @ [34] @ lit '', [\"sh\", \"CANARY\"], 0x7ffd) = 0'')
      = Some (ExecP (utf8_encode (lit ''/bin/sh'')) [] [])"
    using exec_arguments_unseen [of "lit ''/bin/sh''"] by (simp add: is_scalar_def)
  have "\<not> occurs (blit ''CANARY'') (utf8_encode (lit ''/bin/sh''))"
    by (auto simp: occurs_def encode_char_def byte_of_def dest!: set_mono_sublist)
  then have "check_trace [ExecP (utf8_encode (lit ''/bin/sh'')) [] []] (blit ''CANARY'') = Inr ()"
    by simp
  then show ?thesis by (simp only: map_filter_simps p option.case)
qed

end
