(* ===== verification/ByteIo.thy ===== *)
theory ByteIo
  imports Utf8
begin

section \<open>Little-endian integers, exact reads, byte codecs and byte sinks\<close>

text \<open>
  The pieces the wire format is made of: \<open>to_le_bytes\<close> and \<open>from_le_bytes\<close>, \<open>Read::read_exact\<close>
  over a stream that ends with a given I/O error, and two interfaces.  A \<open>codec\<close> is an encoder and
  a decoder that undo each other; its counted lists (\<open>for _ in 0..n\<close>) then do so too.  A
  \<open>byte_sink\<close> appends what it is given, or a prefix of it when it fails; a sequence of writes then
  does so for the concatenation.
\<close>

datatype io_error = UnexpectedEof | InvalidData | NotFound | OsError nat | OtherIo ustr

text \<open>What the \<open>read\<close> calls on a descriptor or a connection answer, in order; an empty answer is its end.\<close>

type_synonym read_answers = "(io_error + bytes) list"

fun le_nat :: "nat \<Rightarrow> nat \<Rightarrow> bytes" where
  "le_nat 0 x = []"
| "le_nat (Suc n) x = byte_of (x mod 256) # le_nat n (x div 256)"

fun of_le :: "bytes \<Rightarrow> nat" where
  "of_le [] = 0"
| "of_le (b # bs) = unat b + 256 * of_le bs"

definition u16_le :: "u16 \<Rightarrow> bytes" where "u16_le w = le_nat 2 (unat w)"
definition u32_le :: "u32 \<Rightarrow> bytes" where "u32_le w = le_nat 4 (unat w)"
definition u64_le :: "u64 \<Rightarrow> bytes" where "u64_le w = le_nat 8 (unat w)"
definition u16_from_le :: "bytes \<Rightarrow> u16" where "u16_from_le bs = of_nat (of_le bs)"
definition u32_from_le :: "bytes \<Rightarrow> u32" where "u32_from_le bs = of_nat (of_le bs)"
definition u64_from_le :: "bytes \<Rightarrow> u64" where "u64_from_le bs = of_nat (of_le bs)"

lemma length_le_nat [simp]: "length (le_nat n x) = n"
  by (induction n arbitrary: x) auto

lemma length_le_words [simp]:
  "length (u16_le a) = 2" "length (u32_le b) = 4" "length (u64_le c) = 8"
  by (simp_all add: u16_le_def u32_le_def u64_le_def)

lemma of_le_le_nat: "x < 256 ^ n \<Longrightarrow> of_le (le_nat n x) = x"
proof (induction n arbitrary: x)
  case (Suc n)
  then have "x div 256 < 256 ^ n" by (simp add: div_less_iff_less_mult mult.commute)
  with Suc.IH show ?case by simp
qed simp

lemma of_le_bound: "of_le bs < 256 ^ length bs"
proof (induction bs)
  case (Cons b bs)
  with unat_byte_bound [of b] show ?case by (simp add: algebra_simps)
qed simp

lemma le_nat_of_le: "length bs = n \<Longrightarrow> le_nat n (of_le bs) = bs"
proof (induction bs arbitrary: n)
  case (Cons b bs)
  have "(unat b + 256 * of_le bs) mod 256 = unat b" "(unat b + 256 * of_le bs) div 256 = of_le bs"
    using unat_byte_bound [of b] by simp_all
  with Cons show ?case by auto
qed simp

lemma unat_word_bounds:
  "unat (a :: u16) < 65536" "unat (b :: u32) < 4294967296" "unat (c :: u64) < 18446744073709551616"
  using unsigned_less [of a] unsigned_less [of b] unsigned_less [of c] by simp_all

lemma u16_from_le_le [simp]: "u16_from_le (u16_le w) = w"
  using unat_word_bounds(1) [of w] by (simp add: u16_from_le_def u16_le_def of_le_le_nat)

lemma u32_from_le_le [simp]: "u32_from_le (u32_le w) = w"
  using unat_word_bounds(2) [of w] by (simp add: u32_from_le_def u32_le_def of_le_le_nat)

lemma u64_from_le_le [simp]: "u64_from_le (u64_le w) = w"
  using unat_word_bounds(3) [of w] by (simp add: u64_from_le_def u64_le_def of_le_le_nat)

lemma le_from_le [simp]:
  "length bs = 2 \<Longrightarrow> u16_le (u16_from_le bs) = bs"
  "length bs = 4 \<Longrightarrow> u32_le (u32_from_le bs) = bs"
  "length bs = 8 \<Longrightarrow> u64_le (u64_from_le bs) = bs"
  using of_le_bound [of bs]
  by (simp_all add: u16_from_le_def u16_le_def u32_from_le_def u32_le_def u64_from_le_def u64_le_def
      unat_of_nat le_nat_of_le)

section \<open>Exact reads\<close>

text \<open>The stream is its remaining bytes; \<open>eof\<close> is the error a read past the end gives.\<close>

definition read_exact :: "io_error \<Rightarrow> nat \<Rightarrow> bytes \<Rightarrow> io_error + (bytes \<times> bytes)" where
  "read_exact eof n s = (if length s < n then Inl eof else Inr (take n s, drop n s))"

lemma read_exact_append [simp]: "length a = n \<Longrightarrow> read_exact eof n (a @ s) = Inr (a, s)"
  by (simp add: read_exact_def)

lemma read_exact_Inr_iff: "read_exact eof n s = Inr (a, r) \<longleftrightarrow> s = a @ r \<and> length a = n"
  by (auto simp: read_exact_def)

lemma read_exact_short: "length s < n \<Longrightarrow> read_exact eof n s = Inl eof"
  by (simp add: read_exact_def)

section \<open>Writing files\<close>

text \<open>
  What happens to a write of a whole buffer: the file is opened and takes it all, it cannot be opened, or
  \<open>write_all\<close> fails after some of the bytes, never all of them, have reached the file.  \<open>fs_write_file\<close> is
  \<open>std::fs::write\<close>, which creates the file or empties it first; \<open>append_file\<close> is a \<open>write_all\<close> on a file opened for
  appending without \<open>create\<close>.
\<close>

datatype write_outcome = WriteDone | OpenFails io_error | WriteStops nat io_error

fun fs_write_file :: "write_outcome \<Rightarrow> bytes \<Rightarrow> bytes option \<Rightarrow> bytes option \<times> (io_error + unit)" where
  "fs_write_file WriteDone bs old = (Some bs, Inr ())"
| "fs_write_file (OpenFails e) bs old = (old, Inl e)"
| "fs_write_file (WriteStops n e) bs old = (Some (take n (butlast bs)), Inl e)"

fun append_file :: "write_outcome \<Rightarrow> bytes \<Rightarrow> bytes option \<Rightarrow> bytes option \<times> (io_error + unit)" where
  "append_file (OpenFails e) bs old = (old, Inl e)"
| "append_file wo bs None = (None, Inl NotFound)"
| "append_file WriteDone bs (Some old) = (Some (old @ bs), Inr ())"
| "append_file (WriteStops n e) bs (Some old) = (Some (old @ take n (butlast bs)), Inl e)"

definition not_torn :: "write_outcome \<Rightarrow> bool" where
  "not_torn wo \<longleftrightarrow> (case wo of WriteStops n e \<Rightarrow> False | _ \<Rightarrow> True)"

lemma not_torn_simps [simp]: "not_torn WriteDone" "not_torn (OpenFails e)" "\<not> not_torn (WriteStops n e)"
  by (simp_all add: not_torn_def)

lemma fs_write_file_ok: "snd (fs_write_file wo bs old) = Inr u \<longleftrightarrow> wo = WriteDone"
  by (cases wo) auto

lemma take_butlast_strict: "xs \<noteq> [] \<Longrightarrow> strict_prefix (take n (butlast xs)) xs"
  by (metis (no_types) append_butlast_last_id append_take_drop_id append_Nil2 append_assoc append_self_conv
      list.distinct(1) prefixI append_is_Nil_conv strict_prefix_def)

text \<open>A failed append leaves the old content with less than the new behind it.\<close>

lemma append_file_err:
  assumes "append_file wo bs (Some old) = (f, Inl e)" and "bs \<noteq> []"
  obtains p where "f = Some (old @ p)" and "strict_prefix p bs"
proof (cases wo)
  case (WriteStops n e')
  then show ?thesis using assms that [of "take n (butlast bs)"] take_butlast_strict [of bs n] by auto
qed (use assms that [of "[]"] in \<open>auto simp: strict_prefix_def\<close>)

section \<open>Codecs\<close>

fun read_many :: "('s \<Rightarrow> 'e + ('a \<times> 's)) \<Rightarrow> nat \<Rightarrow> 's \<Rightarrow> 'e + ('a list \<times> 's)" where
  "read_many dec 0 s = Inr ([], s)"
| "read_many dec (Suc n) s =
     try_bind (dec s) (\<lambda>(x, r). try_bind (read_many dec n r) (\<lambda>(xs, r'). Inr (x # xs, r')))"

lemma read_many_length: "read_many dec n s = Inr (xs, r) \<Longrightarrow> length xs = n"
  by (induction n arbitrary: s xs) auto

locale codec =
  fixes enc :: "'a \<Rightarrow> bytes" and dec :: "bytes \<Rightarrow> 'e + ('a \<times> bytes)" and wf :: "'a \<Rightarrow> bool"
  assumes dec_enc: "wf x \<Longrightarrow> dec (enc x @ r) = Inr (x, r)"
    and enc_dec: "dec s = Inr (x, r) \<Longrightarrow> wf x \<and> s = enc x @ r"
begin

lemma many_roundtrip: "list_all wf xs \<Longrightarrow> read_many dec (length xs) (concat (map enc xs) @ r) = Inr (xs, r)"
  by (induction xs) (simp_all add: dec_enc)

lemma many_prefix: "list_all wf xs \<Longrightarrow> read_many dec (length xs + n) (concat (map enc xs) @ s)
    = try_bind (read_many dec n s) (\<lambda>(ys, r). Inr (xs @ ys, r))"
proof (induction xs)
  case Nil
  then show ?case by (cases "read_many dec n s") auto
next
  case (Cons x xs)
  then show ?case by (cases "read_many dec n s") (auto simp: dec_enc)
qed

lemma many_canonical:
  "read_many dec n s = Inr (xs, r) \<Longrightarrow> list_all wf xs \<and> length xs = n \<and> s = concat (map enc xs) @ r"
proof (induction n arbitrary: s xs)
  case (Suc n)
  then obtain x t ys where d: "dec s = Inr (x, t)" and m: "read_many dec n t = Inr (ys, r)"
    and xs: "xs = x # ys" by auto
  from enc_dec [OF d] Suc.IH [OF m] xs show ?case by simp
qed simp

lemma enc_prefix_free: "wf x \<Longrightarrow> wf y \<Longrightarrow> enc x @ r = enc y @ t \<Longrightarrow> x = y \<and> r = t"
  by (metis dec_enc sum.inject(2) prod.inject)

end

section \<open>Byte sinks\<close>

fun put_all :: "('k \<Rightarrow> bytes \<Rightarrow> 'k \<times> ('e + unit)) \<Rightarrow> 'k \<Rightarrow> bytes list \<Rightarrow> 'k \<times> ('e + unit)" where
  "put_all put k [] = (k, Inr ())"
| "put_all put k (c # cs) =
     (case put k c of (k', Inl e) \<Rightarrow> (k', Inl e) | (k', Inr _) \<Rightarrow> put_all put k' cs)"

locale byte_sink =
  fixes put :: "'k \<Rightarrow> bytes \<Rightarrow> 'k \<times> ('e + unit)" and out :: "'k \<Rightarrow> bytes"
  assumes put_ok: "put k bs = (k', Inr ()) \<Longrightarrow> out k' = out k @ bs"
    and put_err: "put k bs = (k', Inl e) \<Longrightarrow> \<exists>p. strict_prefix p bs \<and> out k' = out k @ p"
begin

lemma put_all_ok: "put_all put k cs = (k', Inr ()) \<Longrightarrow> out k' = out k @ concat cs"
proof (induction cs arbitrary: k)
  case (Cons c cs)
  then show ?case by (auto split: prod.splits sum.splits dest: put_ok)
qed simp

lemma put_all_err: "put_all put k cs = (k', Inl e) \<Longrightarrow> \<exists>p. strict_prefix p (concat cs) \<and> out k' = out k @ p"
proof (induction cs arbitrary: k)
  case (Cons c cs)
  obtain k1 r where p: "put k c = (k1, r)" by (cases "put k c")
  show ?case
  proof (cases r)
    case (Inl e')
    with Cons.prems p have "put k c = (k', Inl e)" by auto
    from put_err [OF this] show ?thesis by (auto simp: strict_prefix_def prefix_def)
  next
    case (Inr u)
    with Cons.prems p have "put_all put k1 cs = (k', Inl e)" by auto
    from Cons.IH [OF this] obtain q where q: "strict_prefix q (concat cs)" "out k' = out k1 @ q" by blast
    with put_ok p Inr show ?thesis
      by (intro exI [of _ "c @ q"]) (auto simp: strict_prefix_def)
  qed
qed simp

lemma put_all_result:
  assumes "put_all put k cs = (k', r)"
  shows "\<exists>p. prefix p (concat cs) \<and> out k' = out k @ p \<and> (is_ok r \<longleftrightarrow> p = concat cs)"
proof (cases r)
  case (Inl e)
  with put_all_err assms show ?thesis by (fastforce simp: strict_prefix_def)
next
  case (Inr u)
  with put_all_ok [of k cs k'] assms show ?thesis by auto
qed

end

end
