(* ===== verification/Taint.thy ===== *)
theory Taint
  imports ByteIo
begin

section \<open>\<open>seck-taint\<close>: the wrapper around untrusted bytes\<close>

text \<open>
  \<open>crates/seck-taint/src/lib.rs\<close>.  \<open>Tainted\<close> carries its payload and has one eliminator, which asks
  for a \<open>SinkToken\<close>; a token is made from a \<open>FriendKey\<close>, and the three keys are constants.
  Dropping a value runs \<open>Zeroize::zeroize\<close>, which is third-party code and so a parameter; so is the
  constant-time comparison of the \<open>subtle\<close> crate.
\<close>

datatype 'a tainted = Tainted (tainted_inner: 'a)

datatype 'a untainted = Untainted (untainted_inner: 'a)

datatype friend_key = FriendKey unit

datatype sink_token = SinkToken unit

definition FOR_SECK_FD :: friend_key where "FOR_SECK_FD = FriendKey ()"
definition FOR_SECK_HOST :: friend_key where "FOR_SECK_HOST = FriendKey ()"
definition FOR_SECK_REPORT :: friend_key where "FOR_SECK_REPORT = FriendKey ()"

definition new_friend :: "friend_key \<Rightarrow> sink_token" where
  "new_friend k = SinkToken ()"

definition new_internal :: "'a \<Rightarrow> 'a tainted" where
  "new_internal inner = Tainted inner"

definition into_inner_for_sink :: "'a tainted \<Rightarrow> sink_token \<Rightarrow> 'a" where
  "into_inner_for_sink t token = tainted_inner t"

definition drop_tainted :: "('a \<Rightarrow> 'a) \<Rightarrow> 'a tainted \<Rightarrow> 'a tainted" where
  "drop_tainted zeroize t = Tainted (zeroize (tainted_inner t))"

definition untainted_new :: "'a \<Rightarrow> 'a untainted" where
  "untainted_new inner = Untainted inner"

definition untainted_get :: "'a untainted \<Rightarrow> 'a" where
  "untainted_get u = untainted_inner u"

definition untainted_into_inner :: "'a untainted \<Rightarrow> 'a" where
  "untainted_into_inner u = untainted_inner u"

definition ct_eq :: "(bytes \<Rightarrow> bytes \<Rightarrow> bool) \<Rightarrow> bytes tainted \<Rightarrow> bytes tainted \<Rightarrow> bool" where
  "ct_eq ct a b = ct (tainted_inner a) (tainted_inner b)"

lemma into_inner_new [simp]: "into_inner_for_sink (new_internal x) t = x"
  by (simp add: into_inner_for_sink_def new_internal_def)

lemma untainted_round [simp]: "untainted_into_inner (untainted_new x) = x" "untainted_get (untainted_new x) = x"
  by (simp_all add: untainted_into_inner_def untainted_new_def untainted_get_def)

end
