(* ===== verification/Walker.thy ===== *)
theory Walker
  imports Taint
begin

section \<open>\<open>seck-host\<close>: the directory walker and the tainted file set\<close>

text \<open>
  \<open>crates/seck-host/src/walker.rs\<close> and \<open>fileset.rs\<close>.  The file system below the root is a tree of
  what the system calls answer: a node whose \<open>symlink_metadata\<close> fails, a symbolic link, a directory
  with the outcome of \<open>read_dir\<close> and of each of its entries, a regular file with its length and the
  outcome of \<open>open_target\<close>, or something else (a socket, a pipe).  An opened descriptor is the list
  of answers its \<open>read\<close> calls give.  \<open>usize\<close> is 64 bits wide, and \<open>total\<close> wraps as it does in a
  release build.
\<close>

datatype path_comp = RootDir | CurDir | ParentDir | Normal bytes

type_synonym path = "path_comp list"

datatype resolve_error = SymlinkErr | EscapeErr | RealpathMismatch | ResolveIo io_error

datatype 'fd fnode =
    StatErr io_error
  | Symlink
  | DirErr io_error
  | Dir "'fd dentry list"
  | Regular u64 "resolve_error + 'fd"
  | Other
and 'fd dentry = EntryErr io_error | DEntry bytes "'fd fnode"

record walk_limits =
  max_files :: nat
  max_bytes_per_file :: u64
  max_total_bytes :: u64

definition default_limits :: walk_limits where
  "default_limits = \<lparr>max_files = 10000, max_bytes_per_file = 16 * 1024 * 1024,
                     max_total_bytes = 256 * 1024 * 1024\<rparr>"

record 'fd entry =
  entry_relative :: path
  entry_fd :: 'fd
  entry_size :: u64

datatype walk_error = Limit ustr | Resolve resolve_error | WalkIo io_error

definition file_name :: "path \<Rightarrow> path_comp option" where
  "file_name p = (if p = [] then None
                  else case last p of Normal n \<Rightarrow> Some (Normal n) | _ \<Rightarrow> None)"

definition relative_to :: "path \<Rightarrow> path \<Rightarrow> path" where
  "relative_to root current =
     (let rel = (case strip_prefix root current of Some r \<Rightarrow> r | None \<Rightarrow> current)
      in if rel = [] then (case file_name current of Some n \<Rightarrow> [n] | None \<Rightarrow> rel) else rel)"

definition too_big_msg :: "u64 \<Rightarrow> u64 \<Rightarrow> ustr" where
  "too_big_msg a b = lit ''file size '' @ show_nat (unat a) @ lit '' > '' @ show_nat (unat b)"

fun walk_inner :: "path \<Rightarrow> path \<Rightarrow> 'fd fnode \<Rightarrow> 'fd entry list \<Rightarrow> u64 \<Rightarrow> walk_limits
                     \<Rightarrow> walk_error + ('fd entry list \<times> u64)"
  and walk_entries :: "path \<Rightarrow> path \<Rightarrow> 'fd dentry list \<Rightarrow> 'fd entry list \<Rightarrow> u64 \<Rightarrow> walk_limits
                     \<Rightarrow> walk_error + ('fd entry list \<times> u64)" where
  "walk_inner root current (StatErr e) out tot lim = Inl (WalkIo e)"
| "walk_inner root current Symlink out tot lim = Inr (out, tot)"
| "walk_inner root current (DirErr e) out tot lim = Inl (WalkIo e)"
| "walk_inner root current (Dir ds) out tot lim = walk_entries root current ds out tot lim"
| "walk_inner root current (Regular len opened) out tot lim =
     (if len > max_bytes_per_file lim then Inl (Limit (too_big_msg len (max_bytes_per_file lim)))
      else
        let tot = tot + len in
        if tot > max_total_bytes lim then Inl (Limit (lit ''max_total_bytes''))
        else
          (case opened of
             Inl e \<Rightarrow> Inl (Resolve e)
           | Inr f \<Rightarrow> Inr (out @ [\<lparr>entry_relative = relative_to root current, entry_fd = f, entry_size = len\<rparr>], tot)))"
| "walk_inner root current Other out tot lim = Inr (out, tot)"
| "walk_entries root current [] out tot lim = Inr (out, tot)"
| "walk_entries root current (EntryErr e # ds) out tot lim = Inl (WalkIo e)"
| "walk_entries root current (DEntry name node # ds) out tot lim =
     (if length out \<ge> max_files lim then Inl (Limit (lit ''max_files''))
      else
        try_bind (walk_inner root (current @ [Normal name]) node out tot lim) (\<lambda>(out, tot).
        walk_entries root current ds out tot lim))"

definition walk :: "path \<Rightarrow> 'fd fnode \<Rightarrow> walk_limits \<Rightarrow> walk_error + 'fd entry list" where
  "walk root node lim = try_bind (walk_inner root root node [] 0 lim) (\<lambda>(out, tot). Inr out)"

subsection \<open>What a walk is meant to list\<close>

text \<open>The regular files of the tree in directory order, without entering symbolic links.\<close>

fun files_of :: "path \<Rightarrow> path \<Rightarrow> 'fd fnode \<Rightarrow> (path \<times> u64 \<times> (resolve_error + 'fd)) list"
  and files_of_entries :: "path \<Rightarrow> path \<Rightarrow> 'fd dentry list \<Rightarrow> (path \<times> u64 \<times> (resolve_error + 'fd)) list" where
  "files_of root cur (Regular len opened) = [(relative_to root cur, len, opened)]"
| "files_of root cur (Dir ds) = files_of_entries root cur ds"
| "files_of root cur (StatErr e) = []"
| "files_of root cur Symlink = []"
| "files_of root cur (DirErr e) = []"
| "files_of root cur Other = []"
| "files_of_entries root cur [] = []"
| "files_of_entries root cur (EntryErr e # ds) = files_of_entries root cur ds"
| "files_of_entries root cur (DEntry name node # ds) =
     files_of root (cur @ [Normal name]) node @ files_of_entries root cur ds"

definition entry_view :: "'fd entry \<Rightarrow> path \<times> u64 \<times> (resolve_error + 'fd)" where
  "entry_view e = (entry_relative e, entry_size e, Inr (entry_fd e))"

text \<open>The tree as the walk needs it: nothing below the root fails to be read or opened.\<close>

fun clean :: "'fd fnode \<Rightarrow> bool" and clean_entries :: "'fd dentry list \<Rightarrow> bool" where
  "clean (StatErr e) = False"
| "clean Symlink = True"
| "clean (DirErr e) = False"
| "clean (Dir ds) = clean_entries ds"
| "clean (Regular len opened) = is_ok opened"
| "clean Other = True"
| "clean_entries [] = True"
| "clean_entries (EntryErr e # ds) = False"
| "clean_entries (DEntry name node # ds) = (clean node \<and> clean_entries ds)"

definition total_size :: "'fd entry list \<Rightarrow> nat" where
  "total_size es = sum_list (map (unat \<circ> entry_size) es)"

lemma total_size_simps [simp]:
  "total_size [] = 0" "total_size (e # es) = unat (entry_size e) + total_size es"
  "total_size (es @ fs) = total_size es + total_size fs"
  by (simp_all add: total_size_def)

text \<open>What holds of the list and the total while the walk runs.\<close>

definition walk_inv :: "walk_limits \<Rightarrow> 'fd entry list \<Rightarrow> u64 \<Rightarrow> bool" where
  "walk_inv lim out tot \<longleftrightarrow>
     unat tot = total_size out \<and> tot \<le> max_total_bytes lim
     \<and> (\<forall>e \<in> set out. entry_size e \<le> max_bytes_per_file lim)"

definition no_wrap :: "walk_limits \<Rightarrow> bool" where
  "no_wrap lim \<longleftrightarrow> unat (max_total_bytes lim) + unat (max_bytes_per_file lim) < 2 ^ 64"

lemma no_wrap_default: "no_wrap default_limits"
  by (simp add: no_wrap_def default_limits_def)

lemma walk_inv_add:
  assumes "walk_inv lim out tot" and "no_wrap lim" and "len \<le> max_bytes_per_file lim"
    and "tot + len \<le> max_total_bytes lim"
  shows "walk_inv lim (out @ [\<lparr>entry_relative = p, entry_fd = f, entry_size = len\<rparr>]) (tot + len)"
proof -
  have "unat tot + unat len < 2 ^ 64"
    using assms(1,2,3) by (simp add: walk_inv_def no_wrap_def word_le_nat_alt)
  then have "unat (tot + len) = unat tot + unat len"
    by (simp add: unat_word_ariths)
  then show ?thesis using assms by (auto simp: walk_inv_def)
qed

lemma walk_lists:
  "walk_inner root cur node out tot lim = Inr (out', tot') \<Longrightarrow>
     \<exists>new. out' = out @ new \<and> map entry_view new = files_of root cur node \<and> clean node"
  "walk_entries root cur ds out tot lim = Inr (out', tot') \<Longrightarrow>
     \<exists>new. out' = out @ new \<and> map entry_view new = files_of_entries root cur ds \<and> clean_entries ds"
proof (induction root cur node out tot lim and root cur ds out tot lim
    arbitrary: out' tot' and out' tot' rule: walk_inner_walk_entries.induct)
  case (9 root current name node ds out tot lim)
  then obtain out1 t1 where w: "walk_inner root (current @ [Normal name]) node out tot lim = Inr (out1, t1)"
    and r: "walk_entries root current ds out1 t1 lim = Inr (out', tot')"
    and n: "\<not> length out \<ge> max_files lim"
    by (auto split: if_splits)
  from "9.IH"(1) [OF n w] "9.IH"(2) [OF n r] show ?case by fastforce
qed (auto simp: Let_def entry_view_def split: if_splits sum.splits)

lemma walk_keeps:
  "walk_inner root cur node out tot lim = Inr (out', tot') \<Longrightarrow> no_wrap lim \<Longrightarrow>
     walk_inv lim out tot \<Longrightarrow> walk_inv lim out' tot' \<and> length out' \<le> max (Suc (length out)) (max_files lim)"
  "walk_entries root cur ds out tot lim = Inr (out', tot') \<Longrightarrow> no_wrap lim \<Longrightarrow>
     walk_inv lim out tot \<Longrightarrow> walk_inv lim out' tot' \<and> length out' \<le> max (length out) (max_files lim)"
proof (induction root cur node out tot lim and root cur ds out tot lim
    arbitrary: out' tot' and out' tot' rule: walk_inner_walk_entries.induct)
  case (5 root current len opened out tot lim)
  then show ?case by (auto simp: Let_def not_less intro!: walk_inv_add split: if_splits sum.splits)
next
  case (9 root current name node ds out tot lim)
  then obtain out1 t1 where w: "walk_inner root (current @ [Normal name]) node out tot lim = Inr (out1, t1)"
    and r: "walk_entries root current ds out1 t1 lim = Inr (out', tot')"
    and n: "\<not> length out \<ge> max_files lim"
    by (auto split: if_splits)
  from "9.IH"(1) [OF n w "9.prems"(2,3)] have i: "walk_inv lim out1 t1"
    and l: "length out1 \<le> max (Suc (length out)) (max_files lim)" by simp_all
  from "9.IH"(2) [OF n r "9.prems"(2) i] l n show ?case by simp
qed auto

lemma walk_Inr:
  assumes "walk root node lim = Inr out"
  shows "map entry_view out = files_of root root node" "clean node"
    "no_wrap lim \<Longrightarrow> length out \<le> max 1 (max_files lim)"
    "no_wrap lim \<Longrightarrow> \<forall>e \<in> set out. entry_size e \<le> max_bytes_per_file lim"
    "no_wrap lim \<Longrightarrow> total_size out \<le> unat (max_total_bytes lim)"
proof -
  from assms obtain t where w: "walk_inner root root node [] 0 lim = Inr (out, t)"
    by (auto simp: walk_def)
  from walk_lists(1) [OF w] show "map entry_view out = files_of root root node" "clean node" by auto
  have "walk_inv lim [] 0" by (simp add: walk_inv_def)
  from walk_keeps(1) [OF w _ this]
  show "no_wrap lim \<Longrightarrow> length out \<le> max 1 (max_files lim)"
    "no_wrap lim \<Longrightarrow> \<forall>e \<in> set out. entry_size e \<le> max_bytes_per_file lim"
    "no_wrap lim \<Longrightarrow> total_size out \<le> unat (max_total_bytes lim)"
    by (auto simp: walk_inv_def word_le_nat_alt)
qed

subsection \<open>A walk that must succeed\<close>

definition file_sizes :: "(path \<times> u64 \<times> (resolve_error + 'fd)) list \<Rightarrow> nat" where
  "file_sizes fs = sum_list (map (\<lambda>(p, n, r). unat n) fs)"

definition files_small :: "walk_limits \<Rightarrow> (path \<times> u64 \<times> (resolve_error + 'fd)) list \<Rightarrow> bool" where
  "files_small lim fs \<longleftrightarrow> list_all (\<lambda>(p, n, r). n \<le> max_bytes_per_file lim) fs"

lemma file_sizes_simps [simp]:
  "file_sizes [] = 0" "file_sizes ((p, n, r) # fs) = unat n + file_sizes fs"
  "file_sizes (fs @ gs) = file_sizes fs + file_sizes gs"
  by (simp_all add: file_sizes_def)

lemma files_small_simps [simp]:
  "files_small lim []" "files_small lim ((p, n, r) # fs) \<longleftrightarrow> n \<le> max_bytes_per_file lim \<and> files_small lim fs"
  "files_small lim (fs @ gs) \<longleftrightarrow> files_small lim fs \<and> files_small lim gs"
  by (auto simp: files_small_def)

lemma unat_add_u64: "unat a + unat b < 2 ^ 64 \<Longrightarrow> unat (a + b :: u64) = unat a + unat b"
  by (simp add: unat_word_ariths)

lemma walk_succeeds:
  "clean node \<Longrightarrow> files_small lim (files_of root cur node) \<Longrightarrow>
     unat tot + file_sizes (files_of root cur node) \<le> unat (max_total_bytes lim) \<Longrightarrow>
     length out + length (files_of root cur node) < max_files lim \<Longrightarrow>
     \<exists>out' tot'. walk_inner root cur node out tot lim = Inr (out', tot')
       \<and> length out' = length out + length (files_of root cur node)
       \<and> unat tot' = unat tot + file_sizes (files_of root cur node)"
  "clean_entries ds \<Longrightarrow> files_small lim (files_of_entries root cur ds) \<Longrightarrow>
     unat tot + file_sizes (files_of_entries root cur ds) \<le> unat (max_total_bytes lim) \<Longrightarrow>
     length out + length (files_of_entries root cur ds) < max_files lim \<Longrightarrow>
     \<exists>out' tot'. walk_entries root cur ds out tot lim = Inr (out', tot')
       \<and> length out' = length out + length (files_of_entries root cur ds)
       \<and> unat tot' = unat tot + file_sizes (files_of_entries root cur ds)"
proof (induction root cur node out tot lim and root cur ds out tot lim
    rule: walk_inner_walk_entries.induct)
  case (5 root current len opened out tot lim)
  then have u: "unat (tot + len) = unat tot + unat len"
    using unat_add_u64 [of tot len] unat_word_bounds(3) [of "max_total_bytes lim"] by simp
  obtain f where "opened = Inr f" using 5 by (cases opened) auto
  moreover have "\<not> tot + len > max_total_bytes lim" using u 5 by (simp add: word_less_nat_alt)
  ultimately show ?case using 5 u by (simp add: Let_def not_less)
next
  case (9 root current name node ds out tot lim)
  have n: "\<not> length out \<ge> max_files lim" using "9.prems" by simp
  from "9.IH"(1) [OF n] "9.prems" obtain out1 t1 where
    w: "walk_inner root (current @ [Normal name]) node out tot lim = Inr (out1, t1)"
    and l: "length out1 = length out + length (files_of root (current @ [Normal name]) node)"
    and t: "unat t1 = unat tot + file_sizes (files_of root (current @ [Normal name]) node)"
    by auto
  from "9.IH"(2) [OF n, of t1 out1] "9.prems" l t n w show ?case by auto
qed auto

section \<open>Properties\<close>

text \<open>C12: a successful walk lists exactly the regular files below the root, in directory order and without
  following a symbolic link; it lists no more than \<open>max_files\<close> (a root that is itself a file is always
  listed), no file is larger than \<open>max_bytes_per_file\<close>, and together they stay within
  \<open>max_total_bytes\<close>, provided the two byte limits do not add up beyond 64 bits.\<close>

theorem walk_respects_limits:
  assumes "walk root node lim = Inr out" and "no_wrap lim"
  shows "map entry_view out = files_of root root node
    \<and> length out \<le> max 1 (max_files lim)
    \<and> list_all (\<lambda>e. entry_size e \<le> max_bytes_per_file lim) out
    \<and> total_size out \<le> unat (max_total_bytes lim)"
  using walk_Inr [OF assms(1)] assms(2) by (simp add: list_all_iff)

theorem walk_respects_limits_witness:
  "walk [Normal [114]] (Dir [DEntry [97] (Regular 2 (Inr 10)), DEntry [98] Symlink]) default_limits
     = Inr [\<lparr>entry_relative = [Normal [97]], entry_fd = 10 :: nat, entry_size = 2\<rparr>]
   \<and> total_size [\<lparr>entry_relative = [Normal [97]], entry_fd = 10 :: nat, entry_size = 2\<rparr>]
       \<le> unat (max_total_bytes default_limits)"
proof -
  have w: "walk [Normal [114]] (Dir [DEntry [97] (Regular 2 (Inr 10)), DEntry [98] Symlink]) default_limits
     = Inr [\<lparr>entry_relative = [Normal [97]], entry_fd = 10 :: nat, entry_size = 2\<rparr>]"
    by (simp add: walk_def default_limits_def Let_def relative_to_def)
  from walk_respects_limits [OF w no_wrap_default] w show ?thesis by blast
qed

text \<open>C14: a tree in which nothing fails to be read or opened, with fewer than \<open>max_files\<close> regular files, each
  within the per-file limit and all within the total, is walked successfully.\<close>

theorem walk_within_limits_succeeds:
  assumes "clean node" and "length (files_of root root node) < max_files lim"
    and "files_small lim (files_of root root node)"
    and "file_sizes (files_of root root node) \<le> unat (max_total_bytes lim)"
  shows "\<exists>out. walk root node lim = Inr out \<and> map entry_view out = files_of root root node"
proof -
  from walk_succeeds(1) [OF assms(1,3), of 0 "[]"] assms(2,4)
  obtain out t where "walk_inner root root node [] 0 lim = Inr (out, t)" by auto
  then have "walk root node lim = Inr out" by (simp add: walk_def)
  with walk_Inr(1) show ?thesis by blast
qed

theorem walk_within_limits_succeeds_witness:
  "\<exists>out. walk [] (Dir [DEntry [97] (Regular 2 (Inr (10 :: nat)))]) default_limits = Inr out
     \<and> map entry_view out = [([Normal [97]], 2, Inr 10)]"
  using walk_within_limits_succeeds
    [of "Dir [DEntry [97] (Regular 2 (Inr (10 :: nat)))]" "[]" default_limits]
  by (simp add: default_limits_def relative_to_def)

end
