(* ===== verification/FdPipe.thy ===== *)
theory FdPipe
  imports Taint
begin

section \<open>\<open>seck-fd\<close>: the only sink for tainted bytes\<close>

text \<open>
  \<open>crates/seck-fd/src/lib.rs\<close>.  The kernel's side of \<open>write(2)\<close> is a policy: for the \<open>n\<close>-th call it
  either fails or says how many bytes it is willing to take, and what it takes is appended to the
  descriptor's output.  \<open>write_loop\<close> is the \<open>while\<close> loop of \<open>write_to_sandbox_pipe\<close>; it stops
  because every accepted write is non-empty.
\<close>

datatype stdin_tag = Stdin
datatype report_tag = Report
datatype egress_tag = Egress

datatype 'tag sandbox_fd = SandboxFd (sandbox_raw: nat)
datatype 'tag host_pipe_fd = HostPipeFd (host_raw: nat)

definition sandbox_from_owned :: "nat \<Rightarrow> 'tag sandbox_fd" where
  "sandbox_from_owned fd = SandboxFd fd"

definition sandbox_into_owned :: "'tag sandbox_fd \<Rightarrow> nat" where
  "sandbox_into_owned s = sandbox_raw s"

definition host_from_owned :: "nat \<Rightarrow> 'tag host_pipe_fd" where
  "host_from_owned fd = HostPipeFd fd"

datatype fd_error = ShortWrite nat nat | FdIo io_error

record kernel =
  k_calls :: nat
  k_policy :: "nat \<Rightarrow> io_error + nat"
  k_out :: "nat \<Rightarrow> bytes"

definition sys_write :: "nat \<Rightarrow> bytes \<Rightarrow> kernel \<Rightarrow> kernel \<times> (io_error + nat)" where
  "sys_write fd buf k =
     (let k1 = k\<lparr>k_calls := Suc (k_calls k)\<rparr> in
      case k_policy k (k_calls k) of
        Inl e \<Rightarrow> (k1, Inl e)
      | Inr n \<Rightarrow> let m = min n (length buf) in
          (k1\<lparr>k_out := (k_out k)(fd := k_out k fd @ take m buf)\<rparr>, Inr m))"

function write_loop :: "nat \<Rightarrow> bytes \<Rightarrow> nat \<Rightarrow> kernel \<Rightarrow> kernel \<times> (fd_error + unit)" where
  "write_loop fd inner written k =
     (if written < length inner then
        (case sys_write fd (drop written inner) k of
           (k', Inl e) \<Rightarrow> (k', Inl (FdIo e))
         | (k', Inr n) \<Rightarrow>
             if n = 0 then (k', Inl (ShortWrite written (length inner)))
             else write_loop fd inner (written + n) k')
      else (k, Inr ()))"
  by pat_completeness auto
termination
  by (relation "measure (\<lambda>(fd, inner, written, k). length inner - written)") auto

declare write_loop.simps [simp del]

definition write_to_sandbox_pipe ::
    "bytes tainted \<Rightarrow> stdin_tag sandbox_fd \<Rightarrow> kernel \<Rightarrow> kernel \<times> (fd_error + unit)" where
  "write_to_sandbox_pipe bs fd k =
     (let token = new_friend FOR_SECK_FD;
          inner = into_inner_for_sink bs token
      in write_loop (sandbox_raw fd) inner 0 k)"

text \<open>What one call of \<open>write\<close> and the whole loop do to the outputs.\<close>

lemma sys_write_out:
  assumes "sys_write fd buf k = (k', r)"
  shows "k_policy k' = k_policy k \<and>
    (case r of Inl e \<Rightarrow> k_out k' = k_out k
     | Inr n \<Rightarrow> n \<le> length buf \<and> k_out k' = (k_out k)(fd := k_out k fd @ take n buf))"
  using assms by (auto simp: sys_write_def Let_def split: sum.splits)

lemma write_loop_out:
  assumes "write_loop fd inner written k = (k', r)" and "written \<le> length inner"
  shows "\<exists>p. prefix p (drop written inner) \<and> k_out k' = (k_out k)(fd := k_out k fd @ p)
           \<and> (is_ok r \<longleftrightarrow> p = drop written inner)"
  using assms
proof (induction fd inner written k rule: write_loop.induct)
  case (1 fd inner written k)
  show ?case
  proof (cases "written < length inner")
    case False
    with "1.prems" show ?thesis by (auto simp: write_loop.simps [of fd inner written k])
  next
    case True
    obtain k1 q where w: "sys_write fd (drop written inner) k = (k1, q)" by fastforce
    note out = sys_write_out [OF w]
    show ?thesis
    proof (cases q)
      case (Inl e)
      with "1.prems" True w out show ?thesis
        by (auto simp: write_loop.simps [of fd inner written k] intro!: exI [of _ "[]"])
    next
      case (Inr n)
      show ?thesis
      proof (cases "n = 0")
        case True
        with "1.prems" \<open>written < length inner\<close> w out Inr show ?thesis
          by (auto simp: write_loop.simps [of fd inner written k] intro!: exI [of _ "[]"])
      next
        case False
        have le: "written + n \<le> length inner" using out Inr True by auto
        have rec: "write_loop fd inner (written + n) k1 = (k', r)"
          using "1.prems" True False w Inr by (simp add: write_loop.simps [of fd inner written k])
        from "1.IH" [OF True w [symmetric] Inr False rec le]
        obtain p where p: "prefix p (drop (written + n) inner)"
          "k_out k' = (k_out k1)(fd := k_out k1 fd @ p)" "is_ok r \<longleftrightarrow> p = drop (written + n) inner"
          by blast
        have split: "drop written inner = take n (drop written inner) @ drop (written + n) inner"
          by (metis append_take_drop_id drop_drop add.commute)
        show ?thesis
        proof (intro exI conjI)
          show "prefix (take n (drop written inner) @ p) (drop written inner)"
            using p(1) split by (metis same_prefix_prefix)
          show "k_out k' = (k_out k)(fd := k_out k fd @ (take n (drop written inner) @ p))"
            using p(2) out Inr by simp
          show "is_ok r \<longleftrightarrow> take n (drop written inner) @ p = drop written inner"
            using p(3) split by (metis same_append_eq)
        qed
      qed
    qed
  qed
qed

lemma write_pipe_out:
  assumes "write_to_sandbox_pipe t fd k = (k', r)"
  shows "\<exists>p. prefix p (tainted_inner t)
           \<and> k_out k' = (k_out k)(sandbox_raw fd := k_out k (sandbox_raw fd) @ p)
           \<and> (is_ok r \<longleftrightarrow> p = tainted_inner t)"
  using write_loop_out [of "sandbox_raw fd" "tainted_inner t" 0 k k' r] assms
  by (simp add: write_to_sandbox_pipe_def into_inner_for_sink_def)

interpretation pipe_sink: byte_sink
  "\<lambda>k bs. write_to_sandbox_pipe (new_internal bs) fd k" "\<lambda>k. k_out k (sandbox_raw fd)" for fd
proof
  fix k bs k' assume "write_to_sandbox_pipe (new_internal bs) fd k = (k', Inr ())"
  from write_pipe_out [OF this] show "k_out k' (sandbox_raw fd) = k_out k (sandbox_raw fd) @ bs"
    by (auto simp: new_internal_def)
next
  fix k bs k' e assume "write_to_sandbox_pipe (new_internal bs) fd k = (k', Inl e)"
  from write_pipe_out [OF this]
  show "\<exists>p. strict_prefix p bs \<and> k_out k' (sandbox_raw fd) = k_out k (sandbox_raw fd) @ p"
    by (auto simp: new_internal_def strict_prefix_def)
qed

text \<open>A write never changes another descriptor, and a policy that always accepts gives success.\<close>

lemma write_pipe_frame:
  "write_to_sandbox_pipe t fd k = (k', r) \<Longrightarrow> n \<noteq> sandbox_raw fd \<Longrightarrow> k_out k' n = k_out k n"
  using write_pipe_out by fastforce

lemma write_loop_total:
  assumes "\<And>i. \<exists>n. k_policy k i = Inr (Suc n)"
  shows "snd (write_loop fd inner written k) = Inr () \<and> k_policy (fst (write_loop fd inner written k)) = k_policy k"
  using assms
proof (induction fd inner written k rule: write_loop.induct)
  case (1 fd inner written k)
  show ?case
  proof (cases "written < length inner")
    case False
    then show ?thesis by (simp add: write_loop.simps)
  next
    case True
    obtain n where n: "k_policy k (k_calls k) = Inr (Suc n)" using "1.prems" by blast
    define m where "m = min (Suc n) (length inner - written)"
    obtain k1 where w: "sys_write fd (drop written inner) k = (k1, Inr m)"
      using n by (auto simp: sys_write_def m_def Let_def)
    have m: "m \<noteq> 0" using True by (simp add: m_def)
    have pol: "k_policy k1 = k_policy k" using sys_write_out [OF w] by simp
    from "1.IH" [OF True w [symmetric] refl m] "1.prems" pol True w m show ?thesis
      by (simp add: write_loop.simps [of fd inner written k])
  qed
qed

lemma write_pipe_total:
  assumes "\<And>i. \<exists>n. k_policy k i = Inr (Suc n)"
  shows "\<exists>k'. write_to_sandbox_pipe t fd k = (k', Inr ()) \<and> k_policy k' = k_policy k"
  using write_loop_total [OF assms, of "sandbox_raw fd" "tainted_inner t" 0]
  by (cases "write_to_sandbox_pipe t fd k")
    (simp add: write_to_sandbox_pipe_def into_inner_for_sink_def)

end
