(* ===== verification/Proto.thy ===== *)
theory Proto
  imports ByteIo
begin

section \<open>The host-to-reader wire format and its parser\<close>

text \<open>
  \<open>crates/seck-proto/src/lib.rs\<close> (constants, \<open>ProtoError\<close>) and
  \<open>crates/seck-reader/src/protocol.rs\<close> (\<open>Frame\<close>, \<open>read_frames\<close>).  The parser of one entry is
  \<open>read_frame\<close>, the body of the \<open>for\<close> loop; \<open>frame_wire\<close> is the layout the format's comment
  gives.  The two form a codec, from which the round trip of whole streams and the canonicity of
  what the parser accepts follow.
\<close>

definition MAGIC_HEADER :: bytes where "MAGIC_HEADER = blit ''SECK''"
definition MAGIC_TRAILER :: bytes where "MAGIC_TRAILER = blit ''DONE''"
definition VERSION :: u16 where "VERSION = 1"
definition MAX_ENTRY_BYTES :: u64 where "MAX_ENTRY_BYTES = 16 * 1024 * 1024"
definition MAX_ENTRIES :: u32 where "MAX_ENTRIES = 10000"
definition MAX_PATH_LEN :: u32 where "MAX_PATH_LEN = 4096"

datatype proto_error =
    BadMagic
  | BadVersion u16
  | ShortRead
  | ProtoIo io_error
  | BadPath
  | TooLarge u64

record frame =
  relative_path :: ustr
  frame_bytes :: bytes

definition read_frame :: "io_error \<Rightarrow> bytes \<Rightarrow> proto_error + (frame \<times> bytes)" where
  "read_frame eof s =
     try_bind (map_err ProtoIo (read_exact eof 4 s)) (\<lambda>(buf4, s).
     let pl = u32_from_le buf4 in
     if pl > MAX_PATH_LEN then Inl (TooLarge (ucast pl)) else
     try_bind (map_err ProtoIo (read_exact eof (unat pl) s)) (\<lambda>(path, s).
     try_bind (ok_or BadPath (utf8_decode path)) (\<lambda>rel.
     try_bind (map_err ProtoIo (read_exact eof 8 s)) (\<lambda>(buf8, s).
     let bl = u64_from_le buf8 in
     if bl > MAX_ENTRY_BYTES then Inl (TooLarge bl) else
     try_bind (map_err ProtoIo (read_exact eof (unat bl) s)) (\<lambda>(bytes, s).
     Inr (\<lparr>relative_path = rel, frame_bytes = bytes\<rparr>, s))))))"

definition read_frames :: "io_error \<Rightarrow> bytes \<Rightarrow> proto_error + (frame list \<times> bytes)" where
  "read_frames eof s =
     try_bind (map_err ProtoIo (read_exact eof 4 s)) (\<lambda>(buf4, s).
     if buf4 \<noteq> MAGIC_HEADER then Inl BadMagic else
     try_bind (map_err ProtoIo (read_exact eof 2 s)) (\<lambda>(buf2, s).
     let v = u16_from_le buf2 in
     if v \<noteq> VERSION then Inl (BadVersion v) else
     try_bind (map_err ProtoIo (read_exact eof 2 s)) (\<lambda>(rsv, s).
     try_bind (map_err ProtoIo (read_exact eof 4 s)) (\<lambda>(buf4, s).
     let n = u32_from_le buf4 in
     if n > MAX_ENTRIES then Inl (TooLarge (ucast n)) else
     try_bind (read_many (read_frame eof) (unat n) s) (\<lambda>(out, s).
     try_bind (map_err ProtoIo (read_exact eof 4 s)) (\<lambda>(buf4, s).
     if buf4 \<noteq> MAGIC_TRAILER then Inl BadMagic else Inr (out, s)))))))"

text \<open>The layout of the comment, for arbitrary reserved bytes.\<close>

definition frame_wire :: "frame \<Rightarrow> bytes" where
  "frame_wire f =
     (let p = utf8_encode (relative_path f) in
      u32_le (of_nat (length p)) @ p @ u64_le (of_nat (length (frame_bytes f))) @ frame_bytes f)"

definition stream_wire :: "bytes \<Rightarrow> frame list \<Rightarrow> bytes" where
  "stream_wire rsv fs =
     MAGIC_HEADER @ u16_le VERSION @ rsv @ u32_le (of_nat (length fs))
       @ concat (map frame_wire fs) @ MAGIC_TRAILER"

definition wf_frame :: "frame \<Rightarrow> bool" where
  "wf_frame f \<longleftrightarrow> valid_str (relative_path f)
     \<and> length (utf8_encode (relative_path f)) \<le> unat MAX_PATH_LEN
     \<and> length (frame_bytes f) \<le> unat MAX_ENTRY_BYTES"

lemma unat_limits [simp]:
  "unat MAX_PATH_LEN = 4096" "unat MAX_ENTRY_BYTES = 16777216" "unat MAX_ENTRIES = 10000"
  by (simp_all add: MAX_PATH_LEN_def MAX_ENTRY_BYTES_def MAX_ENTRIES_def)

lemma length_magic [simp]: "length MAGIC_HEADER = 4" "length MAGIC_TRAILER = 4"
  by (simp_all add: MAGIC_HEADER_def MAGIC_TRAILER_def)

lemma of_nat_u32 [simp]: "n < 4294967296 \<Longrightarrow> unat (of_nat n :: u32) = n"
  by (simp add: unat_of_nat)

lemma of_nat_u64 [simp]: "n < 18446744073709551616 \<Longrightarrow> unat (of_nat n :: u64) = n"
  by (simp add: unat_of_nat)

lemma word_gt_nat: "(a :: 'a::len word) > b \<longleftrightarrow> unat b < unat a"
  by (simp add: word_less_nat_alt)

lemma read_frame_wire:
  assumes "wf_frame f"
  shows "read_frame eof (frame_wire f @ r) = Inr (f, r)"
proof -
  let ?p = "utf8_encode (relative_path f)"
  have p: "length ?p \<le> 4096" and b: "length (frame_bytes f) \<le> 16777216"
    and v: "valid_str (relative_path f)"
    using assms by (simp_all add: wf_frame_def)
  have "\<not> (of_nat (length ?p) :: u32) > MAX_PATH_LEN" using p by (simp add: word_gt_nat)
  moreover have "\<not> (of_nat (length (frame_bytes f)) :: u64) > MAX_ENTRY_BYTES"
    using b by (simp add: word_gt_nat)
  ultimately show ?thesis
    using p b utf8_decode_encode [OF v] by (simp add: read_frame_def frame_wire_def Let_def)
qed

lemma read_frame_canonical:
  assumes "read_frame eof s = Inr (f, r)"
  shows "wf_frame f \<and> s = frame_wire f @ r"
proof -
  from assms obtain b4 path rel b8 body s1 where
    s: "s = b4 @ path @ b8 @ body @ r" and l4: "length b4 = 4" and l8: "length b8 = 8"
    and pl: "\<not> u32_from_le b4 > MAX_PATH_LEN" "length path = unat (u32_from_le b4)"
    and bl: "\<not> u64_from_le b8 > MAX_ENTRY_BYTES" "length body = unat (u64_from_le b8)"
    and rel: "utf8_decode path = Some rel" and f: "f = \<lparr>relative_path = rel, frame_bytes = body\<rparr>"
    by (auto simp: read_frame_def Let_def read_exact_Inr_iff ok_or_Inr_iff split: if_splits)
  from utf8_decode_valid [OF rel] have "valid_str rel" "utf8_encode rel = path" by simp_all
  moreover have "(of_nat (length path) :: u32) = u32_from_le b4"
    "(of_nat (length body) :: u64) = u64_from_le b8"
    using pl bl by simp_all
  ultimately show ?thesis
    using pl bl l4 l8 unfolding f s
    by (simp add: wf_frame_def frame_wire_def word_gt_nat)
qed

interpretation frame_codec: codec frame_wire "read_frame eof" wf_frame for eof
  by unfold_locales (auto simp: read_frame_wire dest: read_frame_canonical)

lemma read_frames_wire:
  assumes "list_all wf_frame fs" and "length fs \<le> 10000" and "length rsv = 2"
  shows "read_frames eof (stream_wire rsv fs @ r) = Inr (fs, r)"
proof -
  have n: "unat (of_nat (length fs) :: u32) = length fs" using assms(2) by simp
  then have "\<not> (of_nat (length fs) :: u32) > MAX_ENTRIES" using assms(2) by (simp add: word_gt_nat)
  then show ?thesis
    using assms(3) n frame_codec.many_roundtrip [OF assms(1), of eof "MAGIC_TRAILER @ r"]
    by (simp add: read_frames_def stream_wire_def Let_def)
qed

lemma read_frames_canonical:
  assumes "read_frames eof s = Inr (fs, r)"
  shows "list_all wf_frame fs \<and> length fs \<le> 10000
    \<and> (\<exists>rsv. length rsv = 2 \<and> s = stream_wire rsv fs @ r)"
proof -
  from assms obtain b2 rsv b4 s1 where
    s: "s = MAGIC_HEADER @ b2 @ rsv @ b4 @ s1" and l: "length b2 = 2" "length rsv = 2" "length b4 = 4"
    and v: "u16_from_le b2 = VERSION" and n: "\<not> u32_from_le b4 > MAX_ENTRIES"
    and m: "read_many (read_frame eof) (unat (u32_from_le b4)) s1 = Inr (fs, MAGIC_TRAILER @ r)"
    by (auto simp: read_frames_def Let_def read_exact_Inr_iff split: if_splits)
  from frame_codec.many_canonical [OF m]
  have fs: "list_all wf_frame fs" "length fs = unat (u32_from_le b4)"
    "s1 = concat (map frame_wire fs) @ MAGIC_TRAILER @ r" by simp_all
  have "(of_nat (length fs) :: u32) = u32_from_le b4" using fs(2) by simp
  moreover have "b2 = u16_le VERSION" using l(1) v le_from_le(1) by metis
  ultimately show ?thesis using fs n l s by (auto simp: stream_wire_def word_gt_nat)
qed

text \<open>C1: the parser accepts a byte stream exactly when it is, up to the two reserved bytes, the layout of
  the format's comment for at most 10000 frames whose paths are well-formed UTF-8 of at most 4096
  bytes and whose contents are at most 16 MiB; it then returns those frames and leaves what follows
  the trailer unread.\<close>

theorem read_frames_iff:
  "read_frames eof s = Inr (fs, r) \<longleftrightarrow>
     list_all wf_frame fs \<and> length fs \<le> 10000 \<and> (\<exists>rsv. length rsv = 2 \<and> s = stream_wire rsv fs @ r)"
  using read_frames_canonical read_frames_wire by blast

end
