(* ===== verification/Fileset.thy ===== *)
theory Fileset
  imports Walker FdPipe Proto
begin

section \<open>\<open>seck-host\<close>: reading the files and writing the frame stream\<close>

text \<open>
  \<open>crates/seck-host/src/fileset.rs\<close> and \<open>write_fileset_protocol\<close> of \<open>orchestrator.rs\<close>.  A
  descriptor is the list of answers of its \<open>read\<close> calls (an empty answer is the end of the file);
  \<open>read_loop\<close> is the inner \<open>loop\<close> of \<open>build_fileset\<close>.  The writer sends every piece through
  \<open>write_to_sandbox_pipe\<close>; the frame it announces carries the size \<open>walk\<close> saw, not the number of
  bytes read.
\<close>

datatype fileset_error = FsIo io_error | FsNix io_error

record file_entry =
  fe_relative :: "path untainted"
  fe_bytes :: "bytes tainted"
  fe_size :: u64

fun read_loop :: "nat \<Rightarrow> read_answers \<Rightarrow> bytes \<Rightarrow> fileset_error + bytes" where
  "read_loop sz [] buf = Inr buf"
| "read_loop sz (Inl e # as) buf = Inl (FsNix e)"
| "read_loop sz (Inr c # as) buf =
     (if c = [] then Inr buf
      else let buf = buf @ c in
        if length buf \<ge> sz then Inr (take sz buf) else read_loop sz as buf)"

fun build_fileset :: "read_answers entry list \<Rightarrow> fileset_error + file_entry list" where
  "build_fileset [] = Inr []"
| "build_fileset (e # es) =
     try_bind (read_loop (unat (entry_size e)) (entry_fd e) []) (\<lambda>buf.
     try_bind (build_fileset es) (\<lambda>out.
     Inr (\<lparr>fe_relative = untainted_new (entry_relative e), fe_bytes = new_internal buf,
           fe_size = entry_size e\<rparr> # out)))"

text \<open>The bytes a descriptor yields up to its end or its first failure.\<close>

fun content :: "read_answers \<Rightarrow> bytes" where
  "content [] = []"
| "content (Inl e # as) = []"
| "content (Inr c # as) = (if c = [] then [] else c @ content as)"

lemma read_loop_content:
  "read_loop sz as buf = Inr out \<Longrightarrow> length buf \<le> sz \<Longrightarrow> out = take sz (buf @ content as)"
proof (induction sz as buf rule: read_loop.induct)
  case (3 sz c as buf)
  then show ?case by (cases "length (buf @ c) \<ge> sz") (auto simp: Let_def split: if_splits)
qed auto

lemma build_fileset_Inr:
  "build_fileset es = Inr fs \<Longrightarrow>
     list_all2 (\<lambda>e f. untainted_inner (fe_relative f) = entry_relative e \<and> fe_size f = entry_size e
       \<and> tainted_inner (fe_bytes f) = take (unat (entry_size e)) (content (entry_fd e))) es fs"
proof (induction es arbitrary: fs)
  case (Cons e es)
  then show ?case
    by (auto simp: untainted_new_def new_internal_def dest!: read_loop_content)
qed simp

section \<open>The frame stream\<close>

fun comp_bytes :: "path_comp \<Rightarrow> bytes" where
  "comp_bytes RootDir = []"
| "comp_bytes CurDir = blit ''.''"
| "comp_bytes ParentDir = blit ''..''"
| "comp_bytes (Normal n) = n"

definition path_bytes :: "path \<Rightarrow> bytes" where
  "path_bytes p = (if p = [RootDir] then blit ''/'' else join (blit ''/'') (map comp_bytes p))"

definition to_string_lossy :: "path \<Rightarrow> ustr" where
  "to_string_lossy p = utf8_lossy (path_bytes p)"

datatype orchestrator_error =
    OrchIo io_error
  | OrchNix io_error
  | OrchFd fd_error
  | ReaderFailed
  | SandboxSetup ustr

definition framing_bytes :: "file_entry \<Rightarrow> bytes" where
  "framing_bytes e =
     (let rel = utf8_encode (to_string_lossy (untainted_into_inner (fe_relative e)))
      in u32_le (of_nat (length rel)) @ rel @ u64_le (fe_size e))"

definition header_bytes :: "nat \<Rightarrow> bytes" where
  "header_bytes n = MAGIC_HEADER @ u16_le VERSION @ [0, 0] @ u32_le (of_nat n)"

fun fd_try :: "kernel \<times> (fd_error + unit) \<Rightarrow> (kernel \<Rightarrow> kernel \<times> (orchestrator_error + unit))
                 \<Rightarrow> kernel \<times> (orchestrator_error + unit)" where
  "fd_try (k, Inl e) cont = (k, Inl (OrchFd e))"
| "fd_try (k, Inr u) cont = cont k"

fun write_entries :: "stdin_tag sandbox_fd \<Rightarrow> file_entry list
      \<Rightarrow> (kernel \<Rightarrow> kernel \<times> (orchestrator_error + unit)) \<Rightarrow> kernel
      \<Rightarrow> kernel \<times> (orchestrator_error + unit)" where
  "write_entries fd [] cont k = cont k"
| "write_entries fd (e # es) cont k =
     fd_try (write_to_sandbox_pipe (new_internal (framing_bytes e)) fd k) (\<lambda>k.
     fd_try (write_to_sandbox_pipe (fe_bytes e) fd k) (\<lambda>k.
     write_entries fd es cont k))"

definition write_fileset_protocol ::
    "stdin_tag sandbox_fd \<Rightarrow> file_entry list \<Rightarrow> kernel \<Rightarrow> kernel \<times> (orchestrator_error + unit)" where
  "write_fileset_protocol fd entries k =
     fd_try (write_to_sandbox_pipe (new_internal (header_bytes (length entries))) fd k) (\<lambda>k.
     write_entries fd entries (\<lambda>k.
       fd_try (write_to_sandbox_pipe (new_internal MAGIC_TRAILER) fd k) (\<lambda>k. (k, Inr ()))) k)"

text \<open>The same writes as one list of pieces, so that the sink's laws apply.\<close>

definition wire_chunks :: "file_entry list \<Rightarrow> bytes list" where
  "wire_chunks es = header_bytes (length es)
     # concat (map (\<lambda>e. [framing_bytes e, tainted_inner (fe_bytes e)]) es) @ [MAGIC_TRAILER]"

abbreviation pipe_put :: "stdin_tag sandbox_fd \<Rightarrow> kernel \<Rightarrow> bytes \<Rightarrow> kernel \<times> (fd_error + unit)" where
  "pipe_put fd \<equiv> \<lambda>k bs. write_to_sandbox_pipe (new_internal bs) fd k"

lemma fd_try_put:
  "fd_try (pipe_put fd k c) (\<lambda>k'. fd_try (put_all (pipe_put fd) k' cs) cont)
     = fd_try (put_all (pipe_put fd) k (c # cs)) cont"
  by (cases "pipe_put fd k c"; cases "snd (pipe_put fd k c)") auto

lemma write_entries_chunks:
  "write_entries fd es (\<lambda>k. fd_try (put_all (pipe_put fd) k rest) cont) k
     = fd_try (put_all (pipe_put fd) k
         (concat (map (\<lambda>e. [framing_bytes e, tainted_inner (fe_bytes e)]) es) @ rest)) cont"
proof (induction es arbitrary: k)
  case (Cons e es)
  have t: "write_to_sandbox_pipe (fe_bytes e) fd = (\<lambda>k. pipe_put fd k (tainted_inner (fe_bytes e)))"
    by (simp add: new_internal_def)
  have IH: "write_entries fd es (\<lambda>k. fd_try (put_all (pipe_put fd) k rest) cont)
      = (\<lambda>k. fd_try (put_all (pipe_put fd) k
         (concat (map (\<lambda>e. [framing_bytes e, tainted_inner (fe_bytes e)]) es) @ rest)) cont)"
    by (rule ext) (rule Cons.IH)
  show ?case
    by (simp only: write_entries.simps t IH fd_try_put list.map concat.simps append.simps append_assoc)
qed simp

lemma write_fileset_chunks:
  "write_fileset_protocol fd es k
     = fd_try (put_all (pipe_put fd) k (wire_chunks es)) (\<lambda>k. (k, Inr ()))"
proof -
  have trailer: "fd_try (pipe_put fd k MAGIC_TRAILER) (\<lambda>k. (k, Inr ()))
      = fd_try (put_all (pipe_put fd) k [MAGIC_TRAILER]) (\<lambda>k. (k, Inr ()))" for k
    by (cases "pipe_put fd k MAGIC_TRAILER"; cases "snd (pipe_put fd k MAGIC_TRAILER)") auto
  have entries: "write_entries fd es (\<lambda>k. fd_try (put_all (pipe_put fd) k [MAGIC_TRAILER]) (\<lambda>k. (k, Inr ())))
      = (\<lambda>k. fd_try (put_all (pipe_put fd) k
         (concat (map (\<lambda>e. [framing_bytes e, tainted_inner (fe_bytes e)]) es) @ [MAGIC_TRAILER]))
           (\<lambda>k. (k, Inr ())))"
    by (rule ext) (rule write_entries_chunks)
  show ?thesis
    by (simp only: write_fileset_protocol_def trailer entries fd_try_put wire_chunks_def)
qed

lemma fd_try_done_Inr: "fd_try p (\<lambda>k. (k, Inr ())) = (k', Inr ()) \<longleftrightarrow> p = (k', Inr ())"
  by (cases p; cases "snd p") auto

lemma fd_try_done_Inl: "fd_try p (\<lambda>k. (k, Inr ())) = (k', Inl e) \<longleftrightarrow> (\<exists>e'. p = (k', Inl e') \<and> e = OrchFd e')"
  by (cases p; cases "snd p") auto

lemma write_fileset_sent:
  assumes "write_fileset_protocol fd es k = (k', Inr ())"
  shows "k_out k' (sandbox_raw fd) = k_out k (sandbox_raw fd) @ concat (wire_chunks es)"
  using assms pipe_sink.put_all_ok by (simp add: write_fileset_chunks fd_try_done_Inr)

lemma put_all_frame:
  "put_all (pipe_put fd) k cs = (k', r) \<Longrightarrow> n \<noteq> sandbox_raw fd \<Longrightarrow> k_out k' n = k_out k n"
proof (induction cs arbitrary: k)
  case (Cons c cs)
  then show ?case by (auto split: prod.splits sum.splits dest: write_pipe_frame)
qed simp

lemma is_ok_fd_try_done [simp]: "is_ok (snd (fd_try p (\<lambda>k. (k, Inr ())))) = is_ok (snd p)"
  "fst (fd_try p (\<lambda>k. (k, Inr ()))) = fst p"
  by (cases p; cases "snd p"; simp)+

text \<open>C13: whatever the kernel answers to the host's writes, what reaches the reader's pipe is a prefix
  of the frame stream of the file set, it is the whole stream exactly when
  \<open>write_fileset_protocol\<close> reports success, and no other descriptor receives a byte.\<close>

theorem host_writes_prefix:
  "\<exists>p. prefix p (concat (wire_chunks es))
     \<and> k_out (fst (write_fileset_protocol fd es k))
         = (k_out k)(sandbox_raw fd := k_out k (sandbox_raw fd) @ p)
     \<and> (is_ok (snd (write_fileset_protocol fd es k)) \<longleftrightarrow> p = concat (wire_chunks es))"
proof -
  obtain k' r where w: "put_all (pipe_put fd) k (wire_chunks es) = (k', r)" by fastforce
  from pipe_sink.put_all_result [OF w] obtain p where
    p: "prefix p (concat (wire_chunks es))" "k_out k' (sandbox_raw fd) = k_out k (sandbox_raw fd) @ p"
      "is_ok r \<longleftrightarrow> p = concat (wire_chunks es)" by blast
  moreover have "k_out k' = (k_out k)(sandbox_raw fd := k_out k (sandbox_raw fd) @ p)"
    using p(2) put_all_frame [OF w] by (auto simp: fun_eq_iff)
  ultimately show ?thesis using w by (auto simp: write_fileset_chunks intro!: exI [of _ p])
qed

lemma put_all_total:
  assumes "\<And>i. \<exists>n. k_policy k i = Inr (Suc n)"
  shows "\<exists>k'. put_all (pipe_put fd) k cs = (k', Inr ())"
  using assms
proof (induction cs arbitrary: k)
  case (Cons c cs)
  from write_pipe_total [OF Cons.prems] obtain k1 where
    w: "pipe_put fd k c = (k1, Inr ())" and "k_policy k1 = k_policy k" by blast
  with Cons.IH [of k1] Cons.prems show ?case by simp
qed simp

lemma write_fileset_total:
  assumes "\<And>i. \<exists>n. k_policy k i = Inr (Suc n)"
  shows "\<exists>k'. write_fileset_protocol fd es k = (k', Inr ())"
  using put_all_total [OF assms, of fd "wire_chunks es"] by (simp add: write_fileset_chunks fd_try_done_Inr)

section \<open>What the stream says\<close>

definition frames_of :: "file_entry list \<Rightarrow> frame list" where
  "frames_of es = map (\<lambda>e. \<lparr>relative_path = to_string_lossy (untainted_inner (fe_relative e)),
                            frame_bytes = tainted_inner (fe_bytes e)\<rparr>) es"

definition complete :: "file_entry \<Rightarrow> bool" where
  "complete e \<longleftrightarrow> length (tainted_inner (fe_bytes e)) = unat (fe_size e)"

definition path_fits :: "path \<Rightarrow> bool" where
  "path_fits p \<longleftrightarrow> length (utf8_encode (to_string_lossy p)) \<le> 4096"

lemma wire_chunks_stream:
  assumes "list_all complete es"
  shows "concat (wire_chunks es) = stream_wire [0, 0] (frames_of es)"
proof -
  have "concat (concat (map (\<lambda>e. [framing_bytes e, tainted_inner (fe_bytes e)]) es))
      = concat (map frame_wire (frames_of es))"
    using assms
    by (induction es)
      (simp_all add: frames_of_def framing_bytes_def frame_wire_def Let_def complete_def
        untainted_into_inner_def)
  then show ?thesis
    by (simp add: wire_chunks_def header_bytes_def stream_wire_def frames_of_def)
qed

lemma wf_frames_of:
  assumes "list_all complete es" and "\<forall>e \<in> set es. path_fits (untainted_inner (fe_relative e))"
    and "\<forall>e \<in> set es. fe_size e \<le> MAX_ENTRY_BYTES"
  shows "list_all wf_frame (frames_of es)"
  using assms
  by (auto simp: list_all_iff frames_of_def wf_frame_def complete_def path_fits_def
      to_string_lossy_def valid_utf8_lossy word_le_nat_alt)

lemma delivered:
  assumes "write_fileset_protocol fd es k = (k', Inr ())" and "k_out k (sandbox_raw fd) = []"
    and "list_all complete es" and "\<forall>e \<in> set es. path_fits (untainted_inner (fe_relative e))"
    and "\<forall>e \<in> set es. fe_size e \<le> MAX_ENTRY_BYTES" and "length es \<le> 10000"
  shows "read_frames eof (k_out k' (sandbox_raw fd)) = Inr (frames_of es, [])"
proof -
  have "k_out k' (sandbox_raw fd) = stream_wire [0, 0] (frames_of es) @ []"
    using write_fileset_sent [OF assms(1)] assms(2) wire_chunks_stream [OF assms(3)] by simp
  moreover have "length (frames_of es) \<le> 10000" using assms(6) by (simp add: frames_of_def)
  ultimately show ?thesis using read_frames_wire [OF wf_frames_of [OF assms(3-5)], of "[0, 0]" eof "[]"] by simp
qed

text \<open>From the walk to the frames the reader accepts.\<close>

lemma delivery:
  assumes "walk root node default_limits = Inr es" and "build_fileset es = Inr fs"
    and "\<forall>e \<in> set es. unat (entry_size e) \<le> length (content (entry_fd e))"
    and "\<forall>e \<in> set es. path_fits (entry_relative e)"
    and "write_fileset_protocol fd fs k = (k', Inr ())" and "k_out k (sandbox_raw fd) = []"
  shows "map entry_view es = files_of root root node
    \<and> read_frames eof (k_out k' (sandbox_raw fd))
        = Inr (map (\<lambda>e. \<lparr>relative_path = to_string_lossy (entry_relative e),
                          frame_bytes = take (unat (entry_size e)) (content (entry_fd e))\<rparr>) es, [])"
proof
  note w = walk_Inr [OF assms(1)]
  show "map entry_view es = files_of root root node" by (rule w(1))
  have len: "length es \<le> 10000" and sz: "\<forall>e \<in> set es. entry_size e \<le> MAX_ENTRY_BYTES"
    using w(3,4) [OF no_wrap_default] by (simp_all add: default_limits_def MAX_ENTRY_BYTES_def)
  note b = build_fileset_Inr [OF assms(2)]
  have c: "list_all complete fs"
    and p: "\<forall>e \<in> set fs. path_fits (untainted_inner (fe_relative e))"
    and s: "\<forall>e \<in> set fs. fe_size e \<le> MAX_ENTRY_BYTES"
    and f: "frames_of fs = map (\<lambda>e. \<lparr>relative_path = to_string_lossy (entry_relative e),
      frame_bytes = take (unat (entry_size e)) (content (entry_fd e))\<rparr>) es"
    using b assms(3,4) sz
    by (induction rule: list_all2_induct) (simp_all add: complete_def frames_of_def)
  have "length fs \<le> 10000" using len list_all2_lengthD [OF b] by simp
  from delivered [OF assms(5,6) c p s this] f
  show "read_frames eof (k_out k' (sandbox_raw fd))
        = Inr (map (\<lambda>e. \<lparr>relative_path = to_string_lossy (entry_relative e),
                          frame_bytes = take (unat (entry_size e)) (content (entry_fd e))\<rparr>) es, [])"
    by simp
qed

text \<open>A file that lost bytes between the walk and the read.\<close>

lemma wire_single:
  "concat (wire_chunks [e]) = MAGIC_HEADER @ u16_le VERSION @ [0, 0] @ u32_le 1
     @ u32_le (of_nat (length (utf8_encode (to_string_lossy (untainted_inner (fe_relative e))))))
     @ utf8_encode (to_string_lossy (untainted_inner (fe_relative e))) @ u64_le (fe_size e)
     @ tainted_inner (fe_bytes e) @ MAGIC_TRAILER"
  by (simp add: wire_chunks_def header_bytes_def framing_bytes_def Let_def untainted_into_inner_def)

lemma read_reserved: "read_exact eof 2 (0 # 0 # s) = Inr ([0, 0], s)"
  by (simp add: read_exact_def)

lemma read_frame_short:
  assumes "length b < unat (fe_size e)" and "path_fits (untainted_inner (fe_relative e))" and "fe_size e \<le> MAX_ENTRY_BYTES"
  shows "read_frame eof (framing_bytes e @ b @ MAGIC_TRAILER) = Inl (ProtoIo eof)
    \<or> (\<exists>f r. read_frame eof (framing_bytes e @ b @ MAGIC_TRAILER) = Inr (f, r) \<and> length r < 4)"
proof -
  define p where "p = to_string_lossy (untainted_inner (fe_relative e))"
  have pl: "length (utf8_encode p) \<le> 4096" using assms(2) by (simp add: path_fits_def p_def)
  have v: "utf8_decode (utf8_encode p) = Some p"
    by (simp add: p_def to_string_lossy_def utf8_decode_encode valid_utf8_lossy)
  have g: "\<not> (of_nat (length (utf8_encode p)) :: u32) > MAX_PATH_LEN" "\<not> fe_size e > MAX_ENTRY_BYTES"
    using pl assms(3) by (simp add: word_gt_nat) (use assms(3) in simp)
  have w: "framing_bytes e = u32_le (of_nat (length (utf8_encode p))) @ utf8_encode p @ u64_le (fe_size e)"
    by (simp add: framing_bytes_def p_def untainted_into_inner_def Let_def)
  show ?thesis
  proof (cases "length b + 4 < unat (fe_size e)")
    case True
    then show ?thesis unfolding w using g pl v by (simp add: read_frame_def Let_def read_exact_short)
  next
    case False
    then have "read_exact eof (unat (fe_size e)) (b @ MAGIC_TRAILER)
        = Inr (take (unat (fe_size e)) (b @ MAGIC_TRAILER), drop (unat (fe_size e)) (b @ MAGIC_TRAILER))"
      by (simp add: read_exact_def)
    moreover have "length (drop (unat (fe_size e)) (b @ MAGIC_TRAILER)) < 4" using assms(1) False by simp
    ultimately show ?thesis unfolding w using g pl v by (simp add: read_frame_def Let_def)
  qed
qed

lemma wire_snoc:
  assumes "list_all complete fs"
  shows "concat (wire_chunks (fs @ [e])) = MAGIC_HEADER @ u16_le VERSION @ [0, 0] @ u32_le (of_nat (Suc (length fs)))
     @ concat (map frame_wire (frames_of fs)) @ framing_bytes e @ tainted_inner (fe_bytes e) @ MAGIC_TRAILER"
proof -
  have "concat (concat (map (\<lambda>e. [framing_bytes e, tainted_inner (fe_bytes e)]) fs))
      = concat (map frame_wire (frames_of fs))"
    using assms
    by (induction fs)
      (simp_all add: frames_of_def framing_bytes_def frame_wire_def Let_def complete_def untainted_into_inner_def)
  then show ?thesis by (simp add: wire_chunks_def header_bytes_def)
qed

lemma short_file_unreadable:
  assumes fs: "list_all complete fs" "\<forall>e \<in> set fs. path_fits (untainted_inner (fe_relative e))"
      "\<forall>e \<in> set fs. fe_size e \<le> MAX_ENTRY_BYTES" and len: "length fs < 10000"
    and e: "length (tainted_inner (fe_bytes e)) < unat (fe_size e)" "path_fits (untainted_inner (fe_relative e))"
      "fe_size e \<le> MAX_ENTRY_BYTES"
  shows "read_frames eof (concat (wire_chunks (fs @ [e]))) = Inl (ProtoIo eof)"
proof -
  let ?s = "framing_bytes e @ tainted_inner (fe_bytes e) @ MAGIC_TRAILER"
  have n: "unat (of_nat (Suc (length fs)) :: u32) = length (frames_of fs) + 1"
    using len of_nat_u32 [of "Suc (length fs)"] by (simp add: frames_of_def)
  have g: "\<not> (of_nat (Suc (length fs)) :: u32) > MAX_ENTRIES"
    using len of_nat_u32 [of "Suc (length fs)"] by (simp add: word_gt_nat)
  have m: "read_many (read_frame eof) (length (frames_of fs) + 1) (concat (map frame_wire (frames_of fs)) @ ?s)
      = try_bind (read_frame eof ?s) (\<lambda>(f, r). Inr (frames_of fs @ [f], r))"
    using frame_codec.many_prefix [OF wf_frames_of [OF fs], of eof 1 ?s]
    by (cases "read_frame eof ?s") auto
  have "read_frames eof (concat (wire_chunks (fs @ [e])))
      = try_bind (read_many (read_frame eof) (length (frames_of fs) + 1) (concat (map frame_wire (frames_of fs)) @ ?s)) (\<lambda>(out, s).
        try_bind (map_err ProtoIo (read_exact eof 4 s)) (\<lambda>(buf4, s). if buf4 \<noteq> MAGIC_TRAILER then Inl BadMagic else Inr (out, s)))"
    unfolding wire_snoc [OF fs(1)] using g
    by (simp add: read_reserved read_frames_def Let_def n del: of_nat_Suc read_many.simps)
  with m read_frame_short [OF e, of eof] show ?thesis by (auto simp: read_exact_short)
qed

lemma long_path_unreadable:
  assumes "\<not> path_fits (untainted_inner (fe_relative e))"
    and "length (utf8_encode (to_string_lossy (untainted_inner (fe_relative e)))) < 4294967296"
  shows "\<exists>n. read_frames eof (concat (wire_chunks [e])) = Inl (TooLarge n)"
proof -
  define p where "p = to_string_lossy (untainted_inner (fe_relative e))"
  have g1: "\<not> (1 :: u32) > MAX_ENTRIES" by (simp add: word_gt_nat)
  have g2: "(of_nat (length (utf8_encode p)) :: u32) > MAX_PATH_LEN"
    using assms by (simp add: word_gt_nat path_fits_def p_def)
  show ?thesis unfolding wire_single p_def [symmetric] using g1 g2
    by (simp add: read_reserved read_frames_def read_frame_def Let_def try_bind_assoc)
qed

lemma big_file_unreadable:
  assumes "path_fits (untainted_inner (fe_relative e))" and "MAX_ENTRY_BYTES < fe_size e"
  shows "read_frames eof (concat (wire_chunks [e])) = Inl (TooLarge (fe_size e))"
proof -
  define p where "p = to_string_lossy (untainted_inner (fe_relative e))"
  have pl: "length (utf8_encode p) \<le> 4096" using assms(1) by (simp add: path_fits_def p_def)
  have v: "utf8_decode (utf8_encode p) = Some p"
    by (simp add: p_def to_string_lossy_def utf8_decode_encode valid_utf8_lossy)
  have g1: "\<not> (1 :: u32) > MAX_ENTRIES" by (simp add: word_gt_nat)
  have g2: "\<not> (of_nat (length (utf8_encode p)) :: u32) > MAX_PATH_LEN" using pl by (simp add: word_gt_nat)
  show ?thesis unfolding wire_single p_def [symmetric] using g1 g2 pl v assms(2)
    by (simp add: read_reserved read_frames_def read_frame_def Let_def try_bind_assoc)
qed

text \<open>
  With two files the reader can be made to accept what the host never sent as a file: the first file is emptied
  after the walk, its announced size covers the second file's header, and the second file's bytes are read as a
  frame of its own choosing, after which the stream may go on.
\<close>

lemma shrunk_file_forges:
  assumes "tainted_inner (fe_bytes e) = []" and "fe_size e = of_nat (length (framing_bytes e'))"
    and "path_fits (untainted_inner (fe_relative e))" and "path_fits (untainted_inner (fe_relative e'))"
    and "tainted_inner (fe_bytes e') @ MAGIC_TRAILER = frame_wire g @ MAGIC_TRAILER @ rest" and "wf_frame g"
  shows "read_frames eof (concat (wire_chunks [e, e']))
    = Inr ([\<lparr>relative_path = to_string_lossy (untainted_inner (fe_relative e)), frame_bytes = framing_bytes e'\<rparr>, g], rest)"
proof -
  let ?h = "\<lparr>relative_path = to_string_lossy (untainted_inner (fe_relative e)), frame_bytes = framing_bytes e'\<rparr>"
  have len: "length (framing_bytes e') \<le> 4108"
    using assms(4) by (simp add: framing_bytes_def path_fits_def Let_def untainted_into_inner_def)
  have "framing_bytes e = u32_le (of_nat (length (utf8_encode (relative_path ?h)))) @ utf8_encode (relative_path ?h)
      @ u64_le (of_nat (length (framing_bytes e')))"
    by (simp add: framing_bytes_def [of e] assms(2) untainted_into_inner_def Let_def)
  then have "concat (wire_chunks [e, e']) = stream_wire [0, 0] [?h, g] @ rest"
    by (simp add: wire_chunks_def header_bytes_def stream_wire_def frame_wire_def [of ?h] assms(1,5) Let_def)
  moreover have "wf_frame ?h"
    using len assms(3) by (simp add: wf_frame_def path_fits_def to_string_lossy_def valid_utf8_lossy)
  ultimately show ?thesis using read_frames_wire [of "[?h, g]" "[0, 0]" eof rest] assms(6) by simp
qed

section \<open>From the directory to the reader\<close>

definition sample_tree :: "read_answers fnode" where
  "sample_tree = Dir [DEntry [97] (Regular 2 (Inr [Inr [1], Inr [2], Inr []])), DEntry [98] Symlink,
                      DEntry [99] (Dir [DEntry [100] (Regular 1 (Inr [Inr [7]]))])]"

definition sample_kernel :: kernel where
  "sample_kernel = \<lparr>k_calls = 0, k_policy = (\<lambda>i. Inr 5), k_out = (\<lambda>fd. [])\<rparr>"

definition sample_entries :: "read_answers entry list" where
  "sample_entries =
     [\<lparr>entry_relative = [Normal [97]], entry_fd = [Inr [1], Inr [2], Inr []], entry_size = 2\<rparr>,
      \<lparr>entry_relative = [Normal [99], Normal [100]], entry_fd = [Inr [7]], entry_size = 1\<rparr>]"

lemma sample_walk: "walk [Normal [114]] sample_tree default_limits = Inr sample_entries"
  by (simp add: walk_def sample_tree_def sample_entries_def default_limits_def Let_def relative_to_def)

lemma sample_names: "to_string_lossy [Normal [97]] = [97]" "to_string_lossy [Normal [99], Normal [100]] = [99, 47, 100]"
  by (simp_all add: to_string_lossy_def path_bytes_def utf8_lossy.simps decode_step_def)

lemma sample_ready: "\<forall>e \<in> set sample_entries. unat (entry_size e) \<le> length (content (entry_fd e)) \<and> path_fits (entry_relative e)"
  by (simp add: sample_entries_def path_fits_def sample_names encode_char_def)

lemma sample_built: "\<exists>fs. build_fileset sample_entries = Inr fs"
  by (simp add: sample_entries_def Let_def)

text \<open>C2: a directory that the walker accepts under the default limits, whose files still have the
  walked length when they are read and whose paths fit, and whose frame stream the kernel takes
  in full, is parsed back by the reader as exactly its regular files, in order, with the lossy form
  of each path and the walked number of bytes of each file; nothing is left in the pipe.\<close>

theorem host_to_reader_delivery:
  assumes "walk root node default_limits = Inr es" and "build_fileset es = Inr fs"
    and "\<forall>e \<in> set es. unat (entry_size e) \<le> length (content (entry_fd e))"
    and "\<forall>e \<in> set es. path_fits (entry_relative e)"
    and "write_fileset_protocol fd fs k = (k', Inr ())" and "k_out k (sandbox_raw fd) = []"
  shows "map entry_view es = files_of root root node
    \<and> read_frames eof (k_out k' (sandbox_raw fd))
        = Inr (map (\<lambda>e. \<lparr>relative_path = to_string_lossy (entry_relative e),
                          frame_bytes = take (unat (entry_size e)) (content (entry_fd e))\<rparr>) es, [])"
  using assms by (rule delivery)

theorem host_to_reader_delivery_witness:
  "\<exists>fs k'. build_fileset sample_entries = Inr fs
     \<and> write_fileset_protocol (SandboxFd 4) fs sample_kernel = (k', Inr ())
     \<and> read_frames UnexpectedEof (k_out k' 4)
         = Inr ([\<lparr>relative_path = [97], frame_bytes = [1, 2]\<rparr>,
                 \<lparr>relative_path = [99, 47, 100], frame_bytes = [7]\<rparr>], [])"
proof -
  obtain fs where b: "build_fileset sample_entries = Inr fs" using sample_built by blast
  obtain k' where s: "write_fileset_protocol (SandboxFd 4) fs sample_kernel = (k', Inr ())"
    using write_fileset_total [of sample_kernel "SandboxFd 4" fs] by (auto simp: sample_kernel_def)
  have "read_frames UnexpectedEof (k_out k' (sandbox_raw (SandboxFd 4)))
      = Inr (map (\<lambda>e. \<lparr>relative_path = to_string_lossy (entry_relative e),
          frame_bytes = take (unat (entry_size e)) (content (entry_fd e))\<rparr>) sample_entries, [])"
    using host_to_reader_delivery [OF sample_walk b _ _ s] sample_ready by (simp add: sample_kernel_def)
  with b s show ?thesis by (intro exI conjI) (simp_all add: sample_entries_def sample_names)
qed

text \<open>When the last file has lost bytes between the walk and the read, so that fewer bytes follow its header than
  the size announces, and the files before it are whole, the reader runs into the end of the stream.\<close>

theorem shrunk_file_fails:
  assumes "build_fileset (es @ [e]) = Inr fs" and "length es < 10000"
    and "\<forall>x \<in> set es. unat (entry_size x) \<le> length (content (entry_fd x))"
    and "length (content (entry_fd e)) < unat (entry_size e)"
    and "\<forall>x \<in> set (es @ [e]). path_fits (entry_relative x) \<and> entry_size x \<le> max_bytes_per_file default_limits"
  shows "read_frames eof (concat (wire_chunks fs)) = Inl (ProtoIo eof)"
proof -
  from build_fileset_Inr [OF assms(1)] obtain gs f where fs: "fs = gs @ [f]"
    and gs: "list_all2 (\<lambda>e f. untainted_inner (fe_relative f) = entry_relative e \<and> fe_size f = entry_size e
      \<and> tainted_inner (fe_bytes f) = take (unat (entry_size e)) (content (entry_fd e))) es gs"
    and f: "untainted_inner (fe_relative f) = entry_relative e" "fe_size f = entry_size e"
      "tainted_inner (fe_bytes f) = take (unat (entry_size e)) (content (entry_fd e))"
    by (auto simp: list_all2_append1 list_all2_Cons1)
  have "list_all complete gs \<and> (\<forall>e \<in> set gs. path_fits (untainted_inner (fe_relative e)))
      \<and> (\<forall>e \<in> set gs. fe_size e \<le> MAX_ENTRY_BYTES)"
    using gs assms(3,5)
    by (induction rule: list_all2_induct) (simp_all add: complete_def default_limits_def MAX_ENTRY_BYTES_def)
  then show ?thesis unfolding fs
    using f assms(2,4,5) list_all2_lengthD [OF gs]
    by (intro short_file_unreadable) (simp_all add: default_limits_def MAX_ENTRY_BYTES_def)
qed

text \<open>A whole file of one byte, then one that had two bytes and has one left.\<close>

definition shrunk_entries :: "read_answers entry list" where
  "shrunk_entries =
     [\<lparr>entry_relative = [Normal [98]], entry_fd = [Inr [7]], entry_size = 1\<rparr>] @
     [\<lparr>entry_relative = [Normal [97]], entry_fd = [Inr [1]], entry_size = 2\<rparr>]"

lemma short_paths_fit: "path_fits [Normal [97]]" "path_fits [Normal [98]]"
  by (simp_all add: path_fits_def to_string_lossy_def path_bytes_def utf8_lossy.simps decode_step_def encode_char_def)

theorem shrunk_file_fails_witness:
  "\<exists>fs. build_fileset shrunk_entries = Inr fs
     \<and> read_frames UnexpectedEof (concat (wire_chunks fs)) = Inl (ProtoIo UnexpectedEof)"
proof -
  obtain fs where b: "build_fileset shrunk_entries = Inr fs" by (simp add: shrunk_entries_def Let_def)
  with shrunk_file_fails [OF b [unfolded shrunk_entries_def]] show ?thesis
    by (simp add: short_paths_fit default_limits_def)
qed

end
