(* ===== verification/Json.thy ===== *)
theory Json
  imports Prelude "HOL-Library.List_Lexorder"
begin

section \<open>JSON values\<close>

text \<open>
  \<open>serde_json::Value\<close> as the crates use it: numbers are unsigned, signed or floating (kept as the
  64-bit pattern), and an object is the key-sorted list of a \<open>BTreeMap\<close> without duplicate keys,
  which is what the \<open>json!\<close> macro builds (a later key replaces an earlier one).  Turning text into
  values and back is the third-party crate's work and a parameter wherever it is used.
\<close>

datatype jnum = PosInt u64 | NegInt u64 | JFloat u64

datatype json =
    JNull
  | JBool bool
  | JNum jnum
  | JStr ustr
  | JArr "json list"
  | JObj "(ustr \<times> json) list"

text \<open>
  \<open>Ord for String\<close> is lexicographic on the bytes, which for UTF-8 is lexicographic on the scalars: the
  linear order on lists of the library.
\<close>

fun obj_insert :: "ustr \<Rightarrow> 'v \<Rightarrow> (ustr \<times> 'v) list \<Rightarrow> (ustr \<times> 'v) list" where
  "obj_insert k v [] = [(k, v)]"
| "obj_insert k v ((k', v') # m) =
     (if k = k' then (k, v) # m
      else if k < k' then (k, v) # (k', v') # m
      else (k', v') # obj_insert k v m)"

definition obj_of :: "(ustr \<times> 'v) list \<Rightarrow> (ustr \<times> 'v) list" where
  "obj_of kvs = fold (\<lambda>(k, v). obj_insert k v) kvs []"

definition jobj :: "(ustr \<times> json) list \<Rightarrow> json" where
  "jobj kvs = JObj (obj_of kvs)"

text \<open>\<open>Value::get\<close> with a string index, \<open>as_str\<close>, \<open>as_array\<close>; and the \<open>v["key"]\<close> index, which is null
  for anything missing.\<close>

fun jget :: "ustr \<Rightarrow> json \<Rightarrow> json option" where
  "jget k (JObj m) = map_of m k"
| "jget k _ = None"

fun jas_str :: "json \<Rightarrow> ustr option" where
  "jas_str (JStr s) = Some s"
| "jas_str _ = None"

fun jas_array :: "json \<Rightarrow> json list option" where
  "jas_array (JArr vs) = Some vs"
| "jas_array _ = None"

definition jindex :: "ustr \<Rightarrow> json \<Rightarrow> json" where
  "jindex k v = (case jget k v of None \<Rightarrow> JNull | Some w \<Rightarrow> w)"

definition jnat :: "u64 \<Rightarrow> json" where
  "jnat n = JNum (PosInt n)"

lemma map_of_obj_insert [simp]: "map_of (obj_insert k v m) = (map_of m)(k \<mapsto> v)"
  by (induction k v m rule: obj_insert.induct) (auto simp: fun_eq_iff)

lemma map_of_obj_fold: "map_of (fold (\<lambda>(k, v). obj_insert k v) kvs m) = map_of m ++ map_of (rev kvs)"
  by (induction kvs arbitrary: m) (auto simp: map_add_def fun_eq_iff split: option.splits)

lemma map_of_obj_of [simp]: "map_of (obj_of kvs) = map_of (rev kvs)"
  by (simp add: obj_of_def map_of_obj_fold)

lemma jget_jobj [simp]: "jget k (jobj kvs) = map_of (rev kvs) k"
  by (simp add: jobj_def)

lemma jindex_jobj: "jindex k (jobj kvs) = (case map_of (rev kvs) k of None \<Rightarrow> JNull | Some w \<Rightarrow> w)"
  by (simp add: jindex_def)

text \<open>Objects stay sorted, so equal field sets give equal values.\<close>

definition obj_sorted :: "(ustr \<times> 'v) list \<Rightarrow> bool" where
  "obj_sorted m = sorted_wrt (<) (map fst m)"

lemma obj_insert_keys: "fst ` set (obj_insert k v m) = insert k (fst ` set m)"
  by (induction k v m rule: obj_insert.induct) auto

lemma obj_sorted_Cons:
  "obj_sorted ((k, v) # m) \<longleftrightarrow> (\<forall>x \<in> fst ` set m. k < x) \<and> obj_sorted m"
  by (simp add: obj_sorted_def)

lemma obj_insert_sorted: "obj_sorted m \<Longrightarrow> obj_sorted (obj_insert k v m)"
proof (induction k v m rule: obj_insert.induct)
  case (2 k v k' v' m)
  have m: "\<forall>x \<in> fst ` set m. k' < x" "obj_sorted m" using 2(2) by (simp_all add: obj_sorted_Cons)
  consider "k = k'" | "k \<noteq> k'" "k < k'" | "k \<noteq> k'" "\<not> k < k'" "k' < k"
    by force
  then show ?case
  proof cases
    case 2
    then have "\<forall>x \<in> fst ` set m. k < x" using m(1) by force
    then show ?thesis using 2 m by (simp add: obj_sorted_Cons)
  next
    case 3
    then have "obj_sorted (obj_insert k v m)" using "2.IH" m(2) by blast
    moreover have "\<forall>x \<in> fst ` set (obj_insert k v m). k' < x"
      using m(1) 3(3) by (simp add: obj_insert_keys)
    ultimately show ?thesis using 3 by (simp add: obj_sorted_Cons)
  qed (use m in \<open>simp add: obj_sorted_Cons\<close>)
qed (simp add: obj_sorted_def)

lemma obj_fold_sorted: "obj_sorted m \<Longrightarrow> obj_sorted (fold (\<lambda>(k, v). obj_insert k v) kvs m)"
  by (induction kvs arbitrary: m) (simp_all add: obj_insert_sorted split_beta)

lemma obj_of_sorted: "obj_sorted (obj_of kvs)"
  unfolding obj_of_def by (rule obj_fold_sorted) (simp add: obj_sorted_def)

lemma obj_sorted_distinct: "obj_sorted m \<Longrightarrow> sorted (map fst m) \<and> distinct (map fst m)"
  by (simp add: obj_sorted_def strict_sorted_iff)

lemma obj_sorted_ext:
  assumes "obj_sorted m" and "obj_sorted m'" and "map_of m = map_of m'"
  shows "m = m'"
proof (rule map_sorted_distinct_set_unique [where f = fst])
  have set: "set n = {(k, v). map_of n k = Some v}" if "obj_sorted n" for n :: "(ustr \<times> 'a) list"
    using obj_sorted_distinct [OF that] by auto
  show "set m = set m'" using assms by (simp add: set)
  then show "inj_on fst (set m \<union> set m')"
    using obj_sorted_distinct [OF assms(1)] by (simp add: distinct_map)
qed (use assms in \<open>simp_all add: obj_sorted_distinct\<close>)

text \<open>Two \<open>json!\<close> objects with the same lookups are the same value.\<close>

lemma jobj_cong: "map_of (rev a) = map_of (rev b) \<Longrightarrow> jobj a = jobj b"
  by (simp add: jobj_def obj_sorted_ext obj_of_sorted)

section \<open>Typed reading\<close>

text \<open>
  What \<open>#[derive(Deserialize)]\<close> accepts for a struct: an object, with unknown keys ignored, or an array
  with exactly one element per field, in order.
\<close>

definition struct_fields :: "ustr list \<Rightarrow> json \<Rightarrow> (ustr \<Rightarrow> json option) option" where
  "struct_fields names v =
     (case v of
        JObj m \<Rightarrow> Some (map_of m)
      | JArr vs \<Rightarrow> if length vs = length names then Some (map_of (zip names vs)) else None
      | _ \<Rightarrow> None)"

definition get_str :: "(ustr \<Rightarrow> json option) \<Rightarrow> ustr \<Rightarrow> ustr option" where
  "get_str m k = Option.bind (m k) jas_str"

definition get_u64 :: "(ustr \<Rightarrow> json option) \<Rightarrow> ustr \<Rightarrow> u64 option" where
  "get_u64 m k = (case m k of Some (JNum (PosInt n)) \<Rightarrow> Some n | _ \<Rightarrow> None)"

definition get_bool :: "(ustr \<Rightarrow> json option) \<Rightarrow> ustr \<Rightarrow> bool option" where
  "get_bool m k = (case m k of Some (JBool b) \<Rightarrow> Some b | _ \<Rightarrow> None)"

fun traverse :: "('a \<Rightarrow> 'b option) \<Rightarrow> 'a list \<Rightarrow> 'b list option" where
  "traverse f [] = Some []"
| "traverse f (x # xs) = (case f x of None \<Rightarrow> None | Some y \<Rightarrow> map_option ((#) y) (traverse f xs))"

definition get_list :: "(json \<Rightarrow> 'a option) \<Rightarrow> (ustr \<Rightarrow> json option) \<Rightarrow> ustr \<Rightarrow> 'a list option" where
  "get_list f m k = Option.bind (Option.bind (m k) jas_array) (traverse f)"

lemma traverse_map: "(\<And>x. f (g x) = Some x) \<Longrightarrow> traverse f (map g xs) = Some xs"
  by (induction xs) auto

lemma traverse_None: "x \<in> set xs \<Longrightarrow> f x = None \<Longrightarrow> traverse f xs = None"
  by (induction xs) (auto split: option.splits)

lemma traverse_length: "traverse f xs = Some ys \<Longrightarrow> length ys = length xs"
  by (induction xs arbitrary: ys) (auto split: option.splits)

end
