(* ===== verification/Floats.thy ===== *)
theory Floats
  imports Json
begin

section \<open>Floating-point numbers\<close>

text \<open>
  The IEEE 754 formats the code uses, as bit patterns: \<open>f32\<close> has a sign, 8 bits of exponent and 23 of fraction, \<open>f64\<close>
  has 11 and 52.  \<open>f32_to_f64\<close> widens a finite number, exactly; \<open>f64_to_f32\<close> and \<open>u64_to_f32\<close> are Rust's
  \<open>as f32\<close>, which rounds to nearest, ties to even.  \<open>f32_json\<close> and \<open>num_to_f32\<close> are what \<open>serde_json\<close> makes
  of an \<open>f32\<close> field: a number that is not finite is written as null, and null is no number.
\<close>

type_synonym f32 = "32 word"
type_synonym f64 = "64 word"

definition f32_negative :: "f32 \<Rightarrow> bool" where
  "f32_negative w \<longleftrightarrow> 2 ^ 31 \<le> unat w"

definition f32_exponent :: "f32 \<Rightarrow> nat" where
  "f32_exponent w = unat w div 2 ^ 23 mod 2 ^ 8"

definition f32_fraction :: "f32 \<Rightarrow> nat" where
  "f32_fraction w = unat w mod 2 ^ 23"

definition f32_is_finite :: "f32 \<Rightarrow> bool" where
  "f32_is_finite w \<longleftrightarrow> f32_exponent w \<noteq> 255"

text \<open>The position of the highest bit.\<close>

fun ilog2 :: "nat \<Rightarrow> nat" where
  "ilog2 n = (if n < 2 then 0 else Suc (ilog2 (n div 2)))"

declare ilog2.simps [simp del]

definition f64_bits :: "bool \<Rightarrow> nat \<Rightarrow> nat \<Rightarrow> f64" where
  "f64_bits negative e f = of_nat ((if negative then 2 ^ 63 else 0) + e * 2 ^ 52 + f)"

definition f32_to_f64 :: "f32 \<Rightarrow> f64" where
  "f32_to_f64 w =
     (let e = f32_exponent w; f = f32_fraction w; neg = f32_negative w in
      if e \<noteq> 0 then f64_bits neg (e + 896) (f * 2 ^ 29)
      else if f = 0 then f64_bits neg 0 0
      else let k = ilog2 f in f64_bits neg (874 + k) ((f - 2 ^ k) * 2 ^ (52 - k)))"

text \<open>\<open>n\<close> shifted right by \<open>sh\<close>, to the nearest integer and to the even one in the middle.\<close>

definition round_shift :: "nat \<Rightarrow> nat \<Rightarrow> nat" where
  "round_shift n sh =
     (let d = n div 2 ^ sh; r = n mod 2 ^ sh in
      if 2 ^ sh < 2 * r \<or> 2 ^ sh = 2 * r \<and> odd d then Suc d else d)"

text \<open>The magnitude of a finite result: too large ones are infinite.\<close>

definition f32_bits :: "bool \<Rightarrow> nat \<Rightarrow> f32" where
  "f32_bits negative magnitude = of_nat ((if negative then 2 ^ 31 else 0) + min magnitude 0x7F800000)"

definition f64_to_f32 :: "f64 \<Rightarrow> f32" where
  "f64_to_f32 w =
     (let neg = 2 ^ 63 \<le> unat w; e = unat w div 2 ^ 52 mod 2 ^ 11; f = unat w mod 2 ^ 52 in
      if e = 2047 then (if f = 0 then f32_bits neg 0x7F800000 else 0x7FC00000)
      else let m = (if e = 0 then f else 2 ^ 52 + f); q = max e 1 in
           f32_bits neg ((q - 897) * 2 ^ 23 + round_shift m (max 29 (926 - q))))"

definition u64_to_f32 :: "bool \<Rightarrow> nat \<Rightarrow> f32" where
  "u64_to_f32 neg n =
     (if n = 0 then 0
      else let k = ilog2 n in
           f32_bits neg ((k + 126) * 2 ^ 23 + (if k \<le> 23 then n * 2 ^ (23 - k) else round_shift n (k - 23))))"

definition num_to_f32 :: "jnum \<Rightarrow> f32" where
  "num_to_f32 n =
     (case n of
        PosInt u \<Rightarrow> u64_to_f32 False (unat u)
      | NegInt i \<Rightarrow> u64_to_f32 True (2 ^ 64 - unat i)
      | JFloat d \<Rightarrow> f64_to_f32 d)"

definition f32_json :: "f32 \<Rightarrow> json" where
  "f32_json w = (if f32_is_finite w then JNum (JFloat (f32_to_f64 w)) else JNull)"

definition get_f32 :: "(ustr \<Rightarrow> json option) \<Rightarrow> ustr \<Rightarrow> f32 option" where
  "get_f32 m k = (case m k of Some (JNum n) \<Rightarrow> Some (num_to_f32 n) | _ \<Rightarrow> None)"

section \<open>Lemmas\<close>

lemma ilog2_bounds: "0 < n \<Longrightarrow> 2 ^ ilog2 n \<le> n \<and> n < 2 ^ Suc (ilog2 n)"
proof (induction n rule: ilog2.induct)
  case (1 n)
  show ?case
  proof (cases "n < 2")
    case True
    then show ?thesis using 1(2) by (simp add: ilog2.simps)
  next
    case False
    then have "2 ^ ilog2 (n div 2) \<le> n div 2 \<and> n div 2 < 2 ^ Suc (ilog2 (n div 2))" using 1 by simp
    then show ?thesis using False by (subst (1 2) ilog2.simps) auto
  qed
qed

lemma round_shift_exact: "round_shift (n * 2 ^ sh) sh = n"
  by (simp add: round_shift_def)

text \<open>The fields of a pattern, and the pattern of its fields.\<close>

lemma nat_fields:
  fixes n a b :: nat
  assumes "n < 2 * (b * a)" and "0 < a"
  shows "n = (if b * a \<le> n then b * a else 0) + n div a mod b * a + n mod a"
proof (cases "b * a \<le> n")
  case True
  have "n div a < 2 * b" using assms by (simp add: div_less_iff_less_mult mult.assoc)
  moreover have "b \<le> n div a" using True assms(2) by (simp add: less_eq_div_iff_mult_less_eq)
  ultimately have "n div a mod b = n div a - b" by (simp add: le_mod_geq)
  then have "b * a + n div a mod b * a = n div a * a"
    using \<open>b \<le> n div a\<close> by (simp flip: add_mult_distrib)
  then show ?thesis using True by simp
next
  case False
  then have "n div a < b" using assms(2) by (simp add: div_less_iff_less_mult)
  then show ?thesis using False by simp
qed

lemma nat_fields_of:
  fixes a b e f :: nat
  assumes "e < b" and "f < a" and n: "n = (if neg then b * a else 0) + e * a + f"
  shows "(b * a \<le> n) = neg" "n div a mod b = e" "n mod a = f"
proof -
  have "e * a + f < Suc e * a" using assms(2) by simp
  also have "\<dots> \<le> b * a" using assms(1) by (intro mult_right_mono) simp_all
  finally have "e * a + f < b * a" .
  then show "(b * a \<le> n) = neg" using n by auto
  have m: "n = f + ((if neg then b else 0) + e) * a" using n by (simp add: add_mult_distrib)
  show "n mod a = f" unfolding m using assms(2) by simp
  have "n div a = (if neg then b else 0) + e" unfolding m using assms(2) by simp
  then show "n div a mod b = e" using assms(1) by simp
qed

lemma f32_fields:
  "unat w = (if f32_negative w then 2 ^ 31 else 0) + f32_exponent w * 2 ^ 23 + f32_fraction w"
  "f32_exponent w < 2 ^ 8" "f32_fraction w < 2 ^ 23"
proof -
  have "unat w < 2 ^ 32" using unsigned_less [where ?'a = nat and w = w] by simp
  moreover have m: "(2 :: nat) ^ 8 * 2 ^ 23 = 2 ^ 31" by simp
  ultimately show "unat w = (if f32_negative w then 2 ^ 31 else 0) + f32_exponent w * 2 ^ 23 + f32_fraction w"
    unfolding f32_negative_def f32_exponent_def f32_fraction_def
    by (intro nat_fields [of "unat w" "2 ^ 8" "2 ^ 23", unfolded m]) simp_all
qed (simp_all add: f32_exponent_def f32_fraction_def)

lemma f64_fields:
  assumes "e < 2 ^ 11" and "f < 2 ^ 52"
  shows "(2 ^ 63 \<le> unat (f64_bits neg e f)) = neg" "unat (f64_bits neg e f) div 2 ^ 52 mod 2 ^ 11 = e"
    "unat (f64_bits neg e f) mod 2 ^ 52 = f"
proof -
  define n where "n = (if neg then 2 ^ 63 else 0) + e * 2 ^ 52 + f"
  have "n < 2 ^ 64" using assms by (simp add: n_def)
  then have "unat (of_nat n :: f64) = n" by (simp add: unat_of_nat)
  then have u: "unat (f64_bits neg e f) = n" unfolding f64_bits_def n_def .
  have "n = (if neg then 2 ^ 11 * 2 ^ 52 else 0) + e * 2 ^ 52 + f" by (simp add: n_def)
  from nat_fields_of [OF assms this]
  show "(2 ^ 63 \<le> unat (f64_bits neg e f)) = neg" "unat (f64_bits neg e f) div 2 ^ 52 mod 2 ^ 11 = e"
    "unat (f64_bits neg e f) mod 2 ^ 52 = f" unfolding u by simp_all
qed

lemma f32_bits_fields:
  assumes "f32_is_finite w"
  shows "f32_bits (f32_negative w) (f32_exponent w * 2 ^ 23 + f32_fraction w) = w"
proof -
  have "f32_exponent w \<le> 254" using assms f32_fields(2) [of w] by (simp add: f32_is_finite_def)
  then have "f32_exponent w * 2 ^ 23 + f32_fraction w < 0x7F800000" using f32_fields(3) [of w] by simp
  then have "f32_bits (f32_negative w) (f32_exponent w * 2 ^ 23 + f32_fraction w) = of_nat (unat w)"
    unfolding f32_fields(1) [of w] by (simp add: f32_bits_def)
  then show ?thesis by simp
qed

text \<open>Widening loses nothing: narrowing gives every finite number back.\<close>

lemma f64_to_f32_bits:
  assumes "e < 2047" and "f < 2 ^ 52"
  shows "f64_to_f32 (f64_bits neg e f)
    = f32_bits neg ((max e 1 - 897) * 2 ^ 23 + round_shift (if e = 0 then f else 2 ^ 52 + f) (max 29 (926 - max e 1)))"
proof -
  have e: "e < 2 ^ 11" "e \<noteq> 2047" using assms(1) by simp_all
  show ?thesis unfolding f64_to_f32_def f64_fields [OF e(1) assms(2)] using e(2) by (simp only: Let_def if_False)
qed

theorem f32_widen_narrow:
  assumes "f32_is_finite w"
  shows "f64_to_f32 (f32_to_f64 w) = w"
proof -
  let ?e = "f32_exponent w" and ?f = "f32_fraction w" and ?n = "f32_negative w"
  have e: "?e \<le> 254" using assms f32_fields(2) [of w] by (simp add: f32_is_finite_def)
  have f: "?f < 2 ^ 23" by (rule f32_fields(3))
  consider (normal) "?e \<noteq> 0" | (zero) "?e = 0" "?f = 0" | (subnormal) "?e = 0" "?f \<noteq> 0" by blast
  then have "f64_to_f32 (f32_to_f64 w) = f32_bits ?n (?e * 2 ^ 23 + ?f)"
  proof cases
    case normal
    have "f64_to_f32 (f64_bits ?n (?e + 896) (?f * 2 ^ 29))
      = f32_bits ?n ((?e + 896 - 897) * 2 ^ 23 + round_shift (2 ^ 52 + ?f * 2 ^ 29) 29)"
    proof -
      have "max 29 (926 - max (?e + 896) 1) = 29" "max (?e + 896) 1 = ?e + 896" using normal by simp_all
      then show ?thesis using f64_to_f32_bits [of "?e + 896" "?f * 2 ^ 29" ?n] e f by simp
    qed
    also have "round_shift (2 ^ 52 + ?f * 2 ^ 29) 29 = 2 ^ 23 + ?f"
      using round_shift_exact [of "2 ^ 23 + ?f" 29] by (simp add: algebra_simps)
    also have "(?e + 896 - 897) * 2 ^ 23 + (2 ^ 23 + ?f) = ?e * 2 ^ 23 + ?f"
      using normal by (cases ?e) simp_all
    finally show ?thesis using normal by (simp add: f32_to_f64_def Let_def)
  next
    case zero
    then show ?thesis using f64_to_f32_bits [of 0 0 ?n] by (simp add: f32_to_f64_def Let_def round_shift_def)
  next
    case subnormal
    define k where "k = ilog2 ?f"
    have b: "2 ^ k \<le> ?f" "?f < 2 ^ Suc k" using ilog2_bounds [of ?f] subnormal by (simp_all add: k_def)
    have "(2::nat) ^ k < 2 ^ 23" using b(1) f by linarith
    then have k: "k < 23" using power_strict_increasing_iff [of "2::nat" k 23] by simp
    have lt: "(?f - 2 ^ k) * 2 ^ (52 - k) < 2 ^ 52"
    proof -
      have "(?f - 2 ^ k) * 2 ^ (52 - k) < 2 ^ k * 2 ^ (52 - k)" using b by (intro mult_strict_right_mono) simp_all
      also have "\<dots> = 2 ^ 52" using k by (simp flip: power_add)
      finally show ?thesis .
    qed
    have m: "2 ^ 52 + (?f - 2 ^ k) * 2 ^ (52 - k) = ?f * 2 ^ (52 - k)"
    proof -
      have p: "(2::nat) ^ 52 = 2 ^ k * 2 ^ (52 - k)" using k by (simp flip: power_add)
      have "?f = 2 ^ k + (?f - 2 ^ k)" using b(1) by simp
      then show ?thesis unfolding p by (metis add_mult_distrib)
    qed
    have "f64_to_f32 (f64_bits ?n (874 + k) ((?f - 2 ^ k) * 2 ^ (52 - k)))
      = f32_bits ?n (round_shift (2 ^ 52 + (?f - 2 ^ k) * 2 ^ (52 - k)) (52 - k))"
    proof -
      have "max 29 (926 - max (874 + k) 1) = 52 - k" "max (874 + k) 1 = 874 + k" using k by simp_all
      then show ?thesis using f64_to_f32_bits [OF _ lt, of "874 + k" ?n] k by simp
    qed
    then show ?thesis unfolding m using subnormal
      by (simp add: f32_to_f64_def Let_def round_shift_exact flip: k_def)
  qed
  then show ?thesis using f32_bits_fields [OF assms] by simp
qed

end
