(* ===== verification/Infer.thy ===== *)
theory Infer
  imports Fileset Floats
begin

section \<open>\<open>seck-plugin\<close> and \<open>seck-infer\<close>: the model backends\<close>

text \<open>
  \<open>crates/seck-plugin/src/lib.rs\<close> and \<open>crates/seck-infer/src\<close>.  A backend is its state and its three
  methods; \<open>llm_backend\<close> is the contract of the trait that every implementation keeps (generating
  needs a load that succeeded), proved below for the stub, the llama.cpp placeholder, Ollama and MLX.
  The Ollama socket and the MLX runner process are parameters.  A floating-point number is the
  64-bit pattern of its value.
\<close>

record inference_config =
  cfg_model_path :: path
  cfg_temperature :: f32
  cfg_seed :: u64
  cfg_max_tokens :: u32
  cfg_context_window :: u32

datatype backend_error = ModelLoad ustr | Generation ustr | BackendIo io_error

record 's llm =
  llm_name :: ustr
  llm_load :: "inference_config \<Rightarrow> 's \<Rightarrow> 's \<times> (backend_error + unit)"
  llm_generate :: "ustr \<Rightarrow> 's \<Rightarrow> 's \<times> (backend_error + ustr)"

record 'a trusted_plugin =
  plugin :: 'a
  manifest_attestation :: "bytes untainted"

locale llm_backend =
  fixes load :: "inference_config \<Rightarrow> 's \<Rightarrow> 's \<times> (backend_error + unit)"
    and generate :: "ustr \<Rightarrow> 's \<Rightarrow> 's \<times> (backend_error + ustr)"
    and loaded :: "'s \<Rightarrow> bool"
  assumes load_ok: "load c s = (s', Inr u) \<Longrightarrow> loaded s'"
    and load_err: "load c s = (s', Inl e) \<Longrightarrow> s' = s"
    and generate_unloaded: "\<not> loaded s \<Longrightarrow> \<exists>e. generate p s = (s, Inl e)"
    and generate_loaded: "loaded s \<Longrightarrow> loaded (fst (generate p s))"
begin

lemma generate_needs_load: "generate p s = (s', Inr t) \<Longrightarrow> loaded s"
  using generate_unloaded [of s p] by force

lemma load_keeps: "loaded s \<Longrightarrow> loaded (fst (load c s))"
  by (cases "load c s"; cases "snd (load c s)") (auto dest: load_ok load_err)

text \<open>A pass loads and generates; a session of passes keeps the backend loaded after the first success.\<close>

lemma pass_loaded: "load c s = (s1, Inr u) \<Longrightarrow> generate p s1 = (s2, r) \<Longrightarrow> loaded s2"
  using load_ok [of c s s1 u] generate_loaded [of s1 p] by force

end

subsection \<open>The stub\<close>

definition stub_text :: ustr where
  "stub_text =
     lit ''{\"findings\":[{\"summary\":\"stub backend: no actual analysis was performed. The pipeline ran end-to-end and would emit real findings if a real LLM backend were configured.\",''
     @ lit ''\"files\":[\"(all)\"],\"category\":\"note\",\"confidence\":\"low\",\"evidence_quote\":\"\"}]}''"

type_synonym stub_state = "inference_config option"

definition stub_new :: stub_state where
  "stub_new = None"

definition stub_load :: "inference_config \<Rightarrow> stub_state \<Rightarrow> stub_state \<times> (backend_error + unit)" where
  "stub_load cfg s = (Some cfg, Inr ())"

definition stub_generate :: "ustr \<Rightarrow> stub_state \<Rightarrow> stub_state \<times> (backend_error + ustr)" where
  "stub_generate prompt s = (case s of None \<Rightarrow> (s, Inl (Generation (lit ''not loaded''))) | Some _ \<Rightarrow> (s, Inr stub_text))"

definition stub_backend :: "stub_state llm" where
  "stub_backend = \<lparr>llm_name = lit ''stub'', llm_load = stub_load, llm_generate = stub_generate\<rparr>"

interpretation stub: llm_backend stub_load stub_generate "\<lambda>s. s \<noteq> None"
  by unfold_locales (auto simp: stub_load_def stub_generate_def split: option.splits)

subsection \<open>llama.cpp\<close>

datatype llama_state = LlamaCpp stub_state

definition llama_new :: llama_state where
  "llama_new = LlamaCpp stub_new"

fun llama_load :: "inference_config \<Rightarrow> llama_state \<Rightarrow> llama_state \<times> (backend_error + unit)" where
  "llama_load cfg (LlamaCpp s) = apfst LlamaCpp (stub_load cfg s)"

fun llama_generate :: "ustr \<Rightarrow> llama_state \<Rightarrow> llama_state \<times> (backend_error + ustr)" where
  "llama_generate prompt (LlamaCpp s) = apfst LlamaCpp (stub_generate prompt s)"

definition llama_backend :: "llama_state llm" where
  "llama_backend = \<lparr>llm_name = lit ''llama-cpp-placeholder'', llm_load = llama_load, llm_generate = llama_generate\<rparr>"

interpretation llama: llm_backend llama_load llama_generate "\<lambda>s. s \<noteq> LlamaCpp None"
proof
  fix c s s' u
  show "llama_load c s = (s', Inr u) \<Longrightarrow> s' \<noteq> LlamaCpp None" by (cases s) (auto simp: stub_load_def)
next
  fix c s s' e
  show "llama_load c s = (s', Inl e) \<Longrightarrow> s' = s" by (cases s) (auto simp: stub_load_def)
next
  fix p s
  show "\<not> s \<noteq> LlamaCpp None \<Longrightarrow> \<exists>e. llama_generate p s = (s, Inl e)"
    by (cases s) (auto simp: stub_generate_def)
  show "s \<noteq> LlamaCpp None \<Longrightarrow> fst (llama_generate p s) \<noteq> LlamaCpp None"
    by (cases s) (auto simp: stub_generate_def split: option.splits)
qed

subsection \<open>Ollama\<close>

record ollama_state =
  uds :: ustr
  ollama_cfg :: "inference_config option"

definition ollama_new :: "ustr \<Rightarrow> backend_error + ollama_state" where
  "ollama_new host =
     (case strip_prefix (lit ''unix://'') host of
        None \<Rightarrow> Inl (ModelLoad (lit ''Ollama backend accepts only unix://<path>; got '' @ host))
      | Some p \<Rightarrow> Inr \<lparr>uds = p, ollama_cfg = None\<rparr>)"

definition ollama_load :: "inference_config \<Rightarrow> ollama_state \<Rightarrow> ollama_state \<times> (backend_error + unit)" where
  "ollama_load cfg s = (s\<lparr>ollama_cfg := Some cfg\<rparr>, Inr ())"

text \<open>\<open>Path::file_stem\<close> of a file name: what precedes its last dot, unless the dot comes first.\<close>

definition stem_of :: "bytes \<Rightarrow> bytes" where
  "stem_of name =
     (let before = rev (tl (dropWhile (\<lambda>b. b \<noteq> 46) (rev name))) in
      if 46 \<notin> set name \<or> before = [] then name else before)"

definition file_stem :: "path \<Rightarrow> bytes option" where
  "file_stem p = (case file_name p of Some (Normal n) \<Rightarrow> Some (stem_of n) | _ \<Rightarrow> None)"

definition i64_json :: "u64 \<Rightarrow> json" where
  "i64_json w = JNum (if w < 2 ^ 63 then PosInt w else NegInt w)"

definition ollama_body :: "inference_config \<Rightarrow> ustr \<Rightarrow> json" where
  "ollama_body cfg prompt = jobj
     [(lit ''model'', JStr (case file_stem (cfg_model_path cfg) of Some s \<Rightarrow> utf8_lossy s | None \<Rightarrow> lit ''default'')),
      (lit ''prompt'', JStr prompt),
      (lit ''stream'', JBool False),
      (lit ''options'', jobj [(lit ''temperature'', JNum (JFloat 0)), (lit ''seed'', i64_json (cfg_seed cfg)),
         (lit ''num_ctx'', jnat (ucast (cfg_context_window cfg)))])]"

definition crlf :: ustr where
  "crlf = [13, 10]"

definition ollama_request :: "nat \<Rightarrow> ustr" where
  "ollama_request n =
     lit ''POST /api/generate HTTP/1.1'' @ crlf @ lit ''Host: ollama'' @ crlf
     @ lit ''Content-Type: application/json'' @ crlf @ lit ''Content-Length: '' @ show_nat n @ crlf
     @ lit ''Connection: close'' @ crlf @ crlf"

text \<open>The socket: connecting may fail, and a connection answers the bytes written to it or fails.\<close>

definition ollama_generate :: "(ustr \<Rightarrow> ustr + (bytes \<Rightarrow> ustr + bytes)) \<Rightarrow> (json \<Rightarrow> bytes) \<Rightarrow> (ustr \<Rightarrow> json option)
    \<Rightarrow> ustr \<Rightarrow> ollama_state \<Rightarrow> ollama_state \<times> (backend_error + ustr)" where
  "ollama_generate connect to_vec from_text prompt s =
     (s, try_bind (ok_or (Generation (lit ''not loaded '' @ [0x2014] @ lit '' call load() first'')) (ollama_cfg s)) (\<lambda>cfg.
         let body_bytes = to_vec (ollama_body cfg prompt) in
         try_bind (map_err Generation (connect (uds s))) (\<lambda>conn.
         let req = ollama_request (length body_bytes) in
         try_bind (map_err Generation (conn (utf8_encode req @ body_bytes))) (\<lambda>buf.
         let raw = utf8_lossy buf; pieces = split_str (crlf @ crlf) raw in
         try_bind (ok_or (Generation (lit ''no HTTP body separator''))
                    (if length pieces > 1 then Some (pieces ! 1) else None)) (\<lambda>body.
         try_bind (ok_or (Generation (lit ''parse'')) (from_text body)) (\<lambda>v.
         Inr (case jas_str (jindex (lit ''response'') v) of Some t \<Rightarrow> t | None \<Rightarrow> [])))))))"

interpretation ollama: llm_backend ollama_load "ollama_generate connect to_vec from_text" "\<lambda>s. ollama_cfg s \<noteq> None"
  for connect to_vec from_text
  by unfold_locales (auto simp: ollama_load_def ollama_generate_def)

subsection \<open>MLX\<close>

text \<open>The runner process: from what is written to it, the lines it prints, each read of which may fail.\<close>

type_synonym mlx_child = "ustr \<Rightarrow> (io_error + ustr) list"

record mlx_state =
  mlx_child_proc :: "mlx_child option"
  mlx_cfg :: "inference_config option"

definition mlx_new :: mlx_state where
  "mlx_new = \<lparr>mlx_child_proc = None, mlx_cfg = None\<rparr>"

definition mlx_load :: "(inference_config \<Rightarrow> backend_error + mlx_child) \<Rightarrow> inference_config \<Rightarrow> mlx_state
    \<Rightarrow> mlx_state \<times> (backend_error + unit)" where
  "mlx_load spawn cfg s =
     (case spawn cfg of
        Inl e \<Rightarrow> (s, Inl e)
      | Inr child \<Rightarrow> (s\<lparr>mlx_child_proc := Some child, mlx_cfg := Some cfg\<rparr>, Inr ()))"

fun mlx_read :: "bool \<Rightarrow> ustr \<Rightarrow> (io_error + ustr) list \<Rightarrow> backend_error + ustr" where
  "mlx_read in_response acc [] = Inr acc"
| "mlx_read in_response acc (Inl e # ls) = Inl (BackendIo e)"
| "mlx_read in_response acc (Inr l # ls) =
     (if \<not> in_response then mlx_read (l = lit ''RESPONSE'') acc ls
      else if l = lit ''END'' then Inr acc
      else mlx_read True (acc @ l @ [10]) ls)"

definition mlx_generate :: "ustr \<Rightarrow> mlx_state \<Rightarrow> mlx_state \<times> (backend_error + ustr)" where
  "mlx_generate prompt s =
     (s, try_bind (ok_or (Generation (lit ''not loaded'')) (mlx_child_proc s)) (\<lambda>child.
         let written = lit ''PROMPT'' @ [10] @ prompt @ [10] @ lit ''END'' @ [10] in
         try_bind (mlx_read False [] (child written)) (\<lambda>acc.
         Inr (rev (dropWhile (\<lambda>c. c = 10) (rev acc))))))"

interpretation mlx: llm_backend "mlx_load spawn" mlx_generate "\<lambda>s. mlx_child_proc s \<noteq> None" for spawn
  by unfold_locales (auto simp: mlx_load_def mlx_generate_def split: sum.splits)

text \<open>A response of plain lines between the markers comes back as those lines.\<close>

lemma mlx_read_response:
  "lit ''END'' \<notin> set ls \<Longrightarrow> mlx_read True acc (map Inr ls @ Inr (lit ''END'') # rest) = Inr (acc @ unlines ls)"
  by (induction ls arbitrary: acc) auto

end
