(* ===== verification/JsonText.thy ===== *)
theory JsonText
  imports Json Utf8
begin

section \<open>A concrete text form of JSON values\<close>

text \<open>
  The crates rely on one property of \<open>serde_json\<close>'s text: what is written reads back, on one line of
  printable characters.  This theory has a small prefix format with that property, as the concrete
  function the hypotheses about the real format are instantiated with; nothing else depends on it.
\<close>

definition num_text :: "nat \<Rightarrow> ustr" where
  "num_text n = show_nat n @ [59]"

fun read_digits :: "nat \<Rightarrow> ustr \<Rightarrow> (nat \<times> ustr) option" where
  "read_digits acc [] = None"
| "read_digits acc (c # s) =
     (if c = 59 then Some (acc, s)
      else if 48 \<le> c \<and> c \<le> 57 then read_digits (acc * 10 + (c - 48)) s else None)"

fun read_n :: "('s \<Rightarrow> ('a \<times> 's) option) \<Rightarrow> nat \<Rightarrow> 's \<Rightarrow> ('a list \<times> 's) option" where
  "read_n f 0 s = Some ([], s)"
| "read_n f (Suc n) s =
     (case f s of
        None \<Rightarrow> None
      | Some (x, s') \<Rightarrow> (case read_n f n s' of None \<Rightarrow> None | Some (xs, s'') \<Rightarrow> Some (x # xs, s'')))"

definition str_text :: "ustr \<Rightarrow> ustr" where
  "str_text s = num_text (length s) @ concat (map num_text s)"

definition read_str :: "ustr \<Rightarrow> (ustr \<times> ustr) option" where
  "read_str t = (case read_digits 0 t of None \<Rightarrow> None | Some (n, t') \<Rightarrow> read_n (read_digits 0) n t')"

fun json_text :: "json \<Rightarrow> ustr" where
  "json_text JNull = [78]"
| "json_text (JBool b) = [if b then 84 else 70]"
| "json_text (JNum (PosInt n)) = 80 # num_text (unat n)"
| "json_text (JNum (NegInt n)) = 77 # num_text (unat n)"
| "json_text (JNum (JFloat n)) = 68 # num_text (unat n)"
| "json_text (JStr s) = 83 # str_text s"
| "json_text (JArr vs) = 65 # num_text (length vs) @ concat (map json_text vs)"
| "json_text (JObj m) = 79 # num_text (length m) @ concat (map (\<lambda>(k, v). str_text k @ json_text v) m)"

definition read_member :: "(ustr \<Rightarrow> (json \<times> ustr) option) \<Rightarrow> ustr \<Rightarrow> ((ustr \<times> json) \<times> ustr) option" where
  "read_member f t = (case read_str t of
      None \<Rightarrow> None
    | Some (k, t') \<Rightarrow> (case f t' of None \<Rightarrow> None | Some (v, t'') \<Rightarrow> Some ((k, v), t'')))"

fun read_json :: "nat \<Rightarrow> ustr \<Rightarrow> (json \<times> ustr) option" where
  "read_json 0 t = None"
| "read_json (Suc n) [] = None"
| "read_json (Suc n) (c # t) =
     (if c = 78 then Some (JNull, t)
      else if c = 84 then Some (JBool True, t)
      else if c = 70 then Some (JBool False, t)
      else if c = 80 then map_option (apfst (\<lambda>k. JNum (PosInt (of_nat k)))) (read_digits 0 t)
      else if c = 77 then map_option (apfst (\<lambda>k. JNum (NegInt (of_nat k)))) (read_digits 0 t)
      else if c = 68 then map_option (apfst (\<lambda>k. JNum (JFloat (of_nat k)))) (read_digits 0 t)
      else if c = 83 then map_option (apfst JStr) (read_str t)
      else if c = 65 then
        (case read_digits 0 t of None \<Rightarrow> None
         | Some (k, t') \<Rightarrow> map_option (apfst JArr) (read_n (read_json n) k t'))
      else if c = 79 then
        (case read_digits 0 t of None \<Rightarrow> None
         | Some (k, t') \<Rightarrow> map_option (apfst JObj) (read_n (read_member (read_json n)) k t'))
      else None)"

definition json_of_text :: "ustr \<Rightarrow> json option" where
  "json_of_text t = (case read_json (length t) t of Some (v, []) \<Rightarrow> Some v | _ \<Rightarrow> None)"

lemma read_digits_append:
  "set s \<subseteq> {48..57} \<Longrightarrow> d < 10 \<Longrightarrow>
     read_digits a (s @ [48 + d] @ r) = read_digits (fold (\<lambda>c v. v * 10 + (c - 48)) s a * 10 + d) r"
  by (induction s arbitrary: a) auto

lemma fold_show_nat: "fold (\<lambda>c v. v * 10 + (c - 48)) (show_nat n) 0 = n"
proof (induction n rule: show_nat.induct)
  case (1 n)
  show ?case
  proof (cases "n < 10")
    case True
    then show ?thesis by (simp add: show_nat.simps [of n])
  next
    case False
    then have "show_nat n = show_nat (n div 10) @ [48 + n mod 10]" by (subst show_nat.simps) simp
    then show ?thesis using 1 [OF False] by simp
  qed
qed

lemma read_digits_fold:
  "set s \<subseteq> {48..57} \<Longrightarrow> read_digits a (s @ 59 # r) = Some (fold (\<lambda>c v. v * 10 + (c - 48)) s a, r)"
  by (induction s arbitrary: a) auto

lemma read_num [simp]: "read_digits 0 (num_text n @ r) = Some (n, r)"
proof -
  have "set (show_nat n) \<subseteq> {48..57}" using show_nat_digits [of n] by auto
  then show ?thesis by (simp add: num_text_def read_digits_fold fold_show_nat)
qed

lemma read_n_map:
  "(\<And>x r. x \<in> set xs \<Longrightarrow> f (g x @ r) = Some (x, r)) \<Longrightarrow> read_n f (length xs) (concat (map g xs) @ r) = Some (xs, r)"
  by (induction xs) auto

lemma read_str_text [simp]: "read_str (str_text s @ r) = Some (s, r)"
  by (simp add: read_str_def str_text_def read_n_map)

fun jsize :: "json \<Rightarrow> nat" where
  "jsize (JArr vs) = Suc (sum_list (map jsize vs))"
| "jsize (JObj m) = Suc (sum_list (map (\<lambda>(k, v). jsize v) m))"
| "jsize _ = 1"

lemma sum_list_le_concat: "(\<And>x. x \<in> set xs \<Longrightarrow> f x \<le> length (g x)) \<Longrightarrow>
    sum_list (map f xs) \<le> length (concat (map g xs))"
  by (induction xs) (auto intro: add_mono)

lemma jsize_le: "jsize v \<le> length (json_text v)"
proof (induction v rule: json_text.induct)
  case (7 vs)
  have "sum_list (map jsize vs) \<le> length (concat (map json_text vs))"
    by (rule sum_list_le_concat) (rule 7)
  then show ?case by simp
next
  case (8 m)
  have "sum_list (map (\<lambda>(k, v). jsize v) m) \<le> length (concat (map (\<lambda>(k, v). str_text k @ json_text v) m))"
  proof (rule sum_list_le_concat)
    fix x assume x: "x \<in> set m"
    obtain k v where kv: "x = (k, v)" by force
    have "jsize v \<le> length (json_text v)" using 8 x kv by blast
    then show "(\<lambda>(k, v). jsize v) x \<le> length ((\<lambda>(k, v). str_text k @ json_text v) x)"
      by (simp add: kv)
  qed
  then show ?case by simp
qed simp_all

lemma read_json_text: "jsize v \<le> n \<Longrightarrow> read_json n (json_text v @ r) = Some (v, r)"
proof (induction n arbitrary: v r)
  case 0
  then show ?case by (cases v) auto
next
  case (Suc n)
  show ?case
  proof (cases v)
    case (JArr vs)
    have "read_json n (json_text x @ r) = Some (x, r)" if "x \<in> set vs" for x r
      using Suc that JArr member_le_sum_list [of "jsize x" "map jsize vs"] by simp
    then show ?thesis using JArr by (simp add: read_n_map)
  next
    case (JObj m)
    have "read_member (read_json n) ((\<lambda>(k, v). str_text k @ json_text v) x @ r) = Some (x, r)" if "x \<in> set m" for x r
    proof -
      have "(\<lambda>(k, v). jsize v) x \<le> sum_list (map (\<lambda>(k, v). jsize v) m)"
        by (rule member_le_sum_list) (use that in simp_all)
      then show ?thesis using Suc JObj by (cases x) (simp add: read_member_def)
    qed
    then show ?thesis using JObj by (simp add: read_n_map)
  next
    case (JNum k)
    then show ?thesis by (cases k) simp_all
  qed simp_all
qed

lemma json_of_text: "json_of_text (json_text v) = Some v"
  using read_json_text [OF jsize_le, of v "[]"] by (simp add: json_of_text_def)

definition text_char :: "uchar \<Rightarrow> bool" where
  "text_char c \<longleftrightarrow> is_scalar c \<and> 32 \<le> c"

definition graph_char :: "uchar \<Rightarrow> bool" where
  "graph_char c \<longleftrightarrow> 48 \<le> c \<and> c \<le> 90"

lemma num_text_chars: "list_all graph_char (num_text n)"
  using show_nat_digits [of n] by (fastforce simp: num_text_def list_all_iff graph_char_def)

lemma concat_chars: "(\<And>x. x \<in> set xs \<Longrightarrow> list_all graph_char (g x)) \<Longrightarrow> list_all graph_char (concat (map g xs))"
  by (induction xs) auto

lemma str_text_chars: "list_all graph_char (str_text s)"
  by (simp add: str_text_def num_text_chars concat_chars)

lemma graph_char_ascii: "48 \<le> c \<Longrightarrow> c \<le> 90 \<Longrightarrow> graph_char c"
  by (simp add: graph_char_def)

lemma json_text_graph: "list_all graph_char (json_text v)"
proof (induction v rule: json_text.induct)
  case (8 m)
  have "list_all graph_char (concat (map (\<lambda>(k, v). str_text k @ json_text v) m))"
    by (rule concat_chars) (use 8 str_text_chars in auto)
  then show ?case by (simp add: num_text_chars graph_char_ascii)
qed (simp_all add: num_text_chars str_text_chars concat_chars graph_char_ascii)

lemma json_text_chars: "list_all text_char (json_text v)"
  using json_text_graph [of v] by (auto simp: list_all_iff graph_char_def text_char_def is_scalar_def)

lemma json_text_not_Nil: "json_text v \<noteq> []"
  by (induction v rule: json_text.induct) simp_all

lemma json_text_last: "\<not> is_whitespace (last (json_text v))"
  using json_text_graph [of v] last_in_set [OF json_text_not_Nil, of v]
  by (auto simp: list_all_iff graph_char_def is_whitespace_def)

end
