(* ===== verification/WindowsHost.thy ===== *)
theory WindowsHost
  imports ByteIo "HOL-Library.Multiset"
begin

section \<open>The Windows backend and orchestrator\<close>

text \<open>
  \<open>crates/seck-sandbox/src/windows.rs\<close> and \<open>crates/seck-host/src/orchestrator_windows.rs\<close>.  Each Win32 call
  is a parameter of \<open>win_env\<close> that says whether it fails and which handle it yields; \<open>win\<close> is what the
  calls change in this process: its open handles, each with its inheritable flag, its initialised attribute
  lists, each with the handle list put in it, the security identifiers it has to free, the mitigation policies
  it has set, and the processes it started.
\<close>

datatype mitigation =
    DynamicCodePolicy
  | SignaturePolicy
  | StrictHandleCheckPolicy
  | ImageLoadPolicy
  | ExtensionPointDisablePolicy
  | SystemCallDisablePolicy

record win_child =
  wc_cmdline :: "u16 list"
  wc_environment :: "(ustr \<times> ustr) list option"
  wc_inherits :: "nat list"

record win =
  handles :: "(nat \<times> bool) list"
  attr_lists :: "nat list option list"
  sids :: nat
  policies :: "(mitigation \<times> u32) list"
  children :: "win_child list"
  job_limits :: "(nat \<times> u32) list"
  job_members :: "(nat \<times> nat) list"

datatype win_error = WinError string u32

fun remove_handle :: "nat \<Rightarrow> (nat \<times> bool) list \<Rightarrow> (nat \<times> bool) list" where
  "remove_handle h [] = []"
| "remove_handle h ((h', inh) # hs) = (if h = h' then hs else (h', inh) # remove_handle h hs)"

definition close_handle :: "nat \<Rightarrow> win \<Rightarrow> win" where
  "close_handle h w = w\<lparr>handles := remove_handle h (handles w)\<rparr>"

definition new_handle :: "nat \<Rightarrow> bool \<Rightarrow> win \<Rightarrow> win" where
  "new_handle h inheritable w = w\<lparr>handles := (h, inheritable) # handles w\<rparr>"

definition open_handles :: "win \<Rightarrow> nat multiset" where
  "open_handles w = mset (map fst (handles w))"

text \<open>\<open>str::encode_utf16\<close> with the terminating NUL that every call appends.\<close>

definition utf16_char :: "uchar \<Rightarrow> u16 list" where
  "utf16_char c = (if c < 0x10000 then [of_nat c]
     else [of_nat (0xD800 + (c - 0x10000) div 1024), of_nat (0xDC00 + (c - 0x10000) mod 1024)])"

definition encode_utf16 :: "ustr \<Rightarrow> u16 list" where
  "encode_utf16 s = concat (map utf16_char s)"

definition wide :: "ustr \<Rightarrow> u16 list" where
  "wide s = encode_utf16 s @ [0]"

definition SECK_APPCONTAINER_NAME :: ustr where
  "SECK_APPCONTAINER_NAME = lit ''Seck.Analyzer''"

record win_env =
  create_profile :: "u16 list \<Rightarrow> u16 list \<Rightarrow> u16 list \<Rightarrow> u32 \<times> bool"
  derive_sid_call :: "u16 list \<Rightarrow> u32 \<times> bytes option"
  open_token :: "u32 + nat"
  restrict_token :: "nat \<Rightarrow> u32 + nat"
  create_job :: "u32 + nat"
  set_job_info :: "u32 option"
  assign_job :: "u32 option"
  set_mitigation :: "mitigation \<Rightarrow> u32 option"
  create_file :: "u16 list \<Rightarrow> u32 + nat"
  init_attr :: "u32 option"
  update_attr :: "u32 option"
  create_process :: "u32 + nat \<times> nat \<times> u32"

subsection \<open>The sandbox backend\<close>

definition provision_profile :: "win_env \<Rightarrow> win \<Rightarrow> win \<times> (win_error + unit)" where
  "provision_profile env w =
     (let (hr, sid) = create_profile env (wide SECK_APPCONTAINER_NAME) (wide (lit ''Seck Analyzer''))
                        (wide (lit ''Sandboxed-LLM file/project analyzer''));
          w = (if sid then w\<lparr>sids := Suc (sids w)\<rparr> else w)
      in if hr \<noteq> 0 \<and> hr \<noteq> 0x800700B7 then (w, Inl (WinError ''CreateAppContainerProfile'' hr))
         else (if sid then w\<lparr>sids := sids w - 1\<rparr> else w, Inr ()))"

definition derive_sid :: "win_env \<Rightarrow> win \<Rightarrow> win \<times> (win_error + bytes)" where
  "derive_sid env w =
     (case derive_sid_call env (wide SECK_APPCONTAINER_NAME) of
        (hr, None) \<Rightarrow> (w, Inl (WinError ''DeriveAppContainerSidFromAppContainerName'' hr))
      | (hr, Some sid) \<Rightarrow>
          let w = w\<lparr>sids := Suc (sids w)\<rparr> in
          if hr \<noteq> 0 then (w, Inl (WinError ''DeriveAppContainerSidFromAppContainerName'' hr))
          else (w\<lparr>sids := sids w - 1\<rparr>, Inr sid))"

definition build_restricted_token :: "win_env \<Rightarrow> win \<Rightarrow> win \<times> (win_error + nat)" where
  "build_restricted_token env w =
     (case open_token env of
        Inl e \<Rightarrow> (w, Inl (WinError ''OpenProcessToken'' e))
      | Inr tok \<Rightarrow>
          let w = new_handle tok False w in
          (case restrict_token env tok of
             Inl e \<Rightarrow> (close_handle tok w, Inl (WinError ''CreateRestrictedToken'' e))
           | Inr restricted \<Rightarrow> (close_handle tok (new_handle restricted False w), Inr restricted)))"

definition JOB_LIMITS :: u32 where
  "JOB_LIMITS = or 0x2000 0x400"

definition build_job_object :: "win_env \<Rightarrow> win \<Rightarrow> win \<times> (win_error + nat)" where
  "build_job_object env w =
     (case create_job env of
        Inl e \<Rightarrow> (w, Inl (WinError ''CreateJobObjectW'' e))
      | Inr job \<Rightarrow>
          let w = new_handle job False w in
          (case set_job_info env of
             Some e \<Rightarrow> (close_handle job w, Inl (WinError ''SetInformationJobObject'' e))
           | None \<Rightarrow> (w\<lparr>job_limits := (job, JOB_LIMITS) # job_limits w\<rparr>, Inr job)))"

definition attach_to_job :: "win_env \<Rightarrow> nat \<Rightarrow> nat \<Rightarrow> win \<Rightarrow> win \<times> (win_error + unit)" where
  "attach_to_job env job child w =
     (case assign_job env of
        Some e \<Rightarrow> (w, Inl (WinError ''AssignProcessToJobObject'' e))
      | None \<Rightarrow> (w\<lparr>job_members := (job, child) # job_members w\<rparr>, Inr ()))"

definition set_policy :: "win_env \<Rightarrow> mitigation \<Rightarrow> u32 \<Rightarrow> win \<Rightarrow> win \<times> (win_error + unit)" where
  "set_policy env p flags w =
     (case set_mitigation env p of
        Some e \<Rightarrow> (w, Inl (WinError ''SetProcessMitigationPolicy'' e))
      | None \<Rightarrow> (w\<lparr>policies := (p, flags) # policies w\<rparr>, Inr ()))"

text \<open>Every policy structure is \<open>zeroed()\<close>: its flag word is 0.\<close>

definition apply_mitigations :: "win_env \<Rightarrow> win \<Rightarrow> win \<times> (win_error + unit)" where
  "apply_mitigations env w =
     st_bind (set_policy env DynamicCodePolicy 0 w) (\<lambda>_ w.
     st_bind (set_policy env SignaturePolicy 0 w) (\<lambda>_ w.
     st_bind (set_policy env StrictHandleCheckPolicy 0 w) (\<lambda>_ w.
     st_bind (set_policy env ImageLoadPolicy 0 w) (\<lambda>_ w.
     st_bind (set_policy env ExtensionPointDisablePolicy 0 w) (\<lambda>_ w.
     set_policy env SystemCallDisablePolicy 0 w)))))"

definition windows_lockdown :: "win_env \<Rightarrow> win \<Rightarrow> win \<times> (win_error + unit)" where
  "windows_lockdown env w = apply_mitigations env w"

subsection \<open>The orchestrator\<close>

definition build_cmdline :: "u16 list \<Rightarrow> nat \<Rightarrow> u16 list" where
  "build_cmdline exe handle =
     encode_utf16 [34] @ exe @ encode_utf16 (34 # lit '' analyze --handle='' @ show_nat handle)"

definition attr_begin :: "win \<Rightarrow> win" where
  "attr_begin w = w\<lparr>attr_lists := None # attr_lists w\<rparr>"

definition attr_handles :: "nat list \<Rightarrow> win \<Rightarrow> win" where
  "attr_handles hs w = w\<lparr>attr_lists := Some hs # tl (attr_lists w)\<rparr>"

definition attr_delete :: "win \<Rightarrow> win" where
  "attr_delete w = w\<lparr>attr_lists := tl (attr_lists w)\<rparr>"

text \<open>What a child of \<open>CreateProcessW\<close> inherits: nothing without \<open>bInheritHandles\<close>; with it every
  inheritable handle of this process, unless the attribute list holds a
  \<open>PROC_THREAD_ATTRIBUTE_HANDLE_LIST\<close>: then those of the list that are inheritable.\<close>

definition inherited :: "bool \<Rightarrow> nat list option \<Rightarrow> (nat \<times> bool) list \<Rightarrow> nat list" where
  "inherited inherit_handles handle_list hs =
     (let inheritable = map fst (filter snd hs) in
      if \<not> inherit_handles then []
      else case handle_list of None \<Rightarrow> inheritable | Some l \<Rightarrow> filter (\<lambda>h. h \<in> set inheritable) l)"

text \<open>\<open>CreateProcessW\<close> with the extended startup information: the attribute list is the one made last.\<close>

definition CreateProcessW :: "win_env \<Rightarrow> u16 list \<Rightarrow> bool \<Rightarrow> (ustr \<times> ustr) list option \<Rightarrow> win
    \<Rightarrow> win \<times> (u32 + nat \<times> nat \<times> u32)" where
  "CreateProcessW env cmdline inherit_handles environment w =
     (case create_process env of
        Inl e \<Rightarrow> (w, Inl e)
      | Inr (hProcess, hThread, pid) \<Rightarrow>
          let child = \<lparr>wc_cmdline = cmdline, wc_environment = environment,
                       wc_inherits = inherited inherit_handles (hd (attr_lists w)) (handles w)\<rparr> in
          (new_handle hThread False (new_handle hProcess False (w\<lparr>children := child # children w\<rparr>)),
           Inr (hProcess, hThread, pid)))"

text \<open>The security attributes of \<open>CreateFileW\<close> make the file handle inheritable.  The environment pointer
  is null: the child has the environment of this process, and no \<open>SECK_HANDLE\<close> is set in it.\<close>

definition run_sandboxed_windows :: "win_env \<Rightarrow> u16 list \<Rightarrow> u16 list \<Rightarrow> win \<Rightarrow> win \<times> (win_error + u32)" where
  "run_sandboxed_windows env p seck_exe w =
     (case create_file env (p @ [0]) of
        Inl e \<Rightarrow> (w, Inl (WinError ''CreateFileW'' e))
      | Inr file_handle \<Rightarrow>
         (let w = new_handle file_handle True w in
          case init_attr env of
            Some e \<Rightarrow> (close_handle file_handle w, Inl (WinError ''InitializeProcThreadAttributeList'' e))
          | None \<Rightarrow>
             (let w = attr_begin w in
              case update_attr env of
                Some e \<Rightarrow> (close_handle file_handle (attr_delete w), Inl (WinError ''UpdateProcThreadAttribute'' e))
              | None \<Rightarrow>
                 (let w = attr_handles [file_handle] w;
                      (w, res) = CreateProcessW env (build_cmdline seck_exe file_handle @ [0]) True None w;
                      w = close_handle file_handle (attr_delete w)
                  in case res of
                       Inl e \<Rightarrow> (w, Inl (WinError ''CreateProcessW'' e))
                     | Inr (hProcess, hThread, pid) \<Rightarrow> (close_handle hProcess (close_handle hThread w), Inr pid)))))"

section \<open>Lemmas\<close>

text \<open>A token or a job is the only handle left by its constructor, and a failing one leaves none.\<close>

definition leaves :: "win \<Rightarrow> win \<times> (win_error + nat) \<Rightarrow> bool" where
  "leaves w res = (case res of
     (w', Inl e) \<Rightarrow> open_handles w' = open_handles w
   | (w', Inr h) \<Rightarrow> open_handles w' = add_mset h (open_handles w))"

lemma open_handles_simps [simp]:
  "open_handles (new_handle h inh w) = add_mset h (open_handles w)"
  "open_handles (w\<lparr>job_limits := l\<rparr>) = open_handles w"
  "open_handles (w\<lparr>children := c\<rparr>) = open_handles w"
  "open_handles (w\<lparr>attr_lists := a\<rparr>) = open_handles w"
  by (simp_all add: open_handles_def new_handle_def)

lemma open_handles_close [simp]: "open_handles (close_handle h w) = open_handles w - {#h#}"
proof -
  have "mset (map fst (remove_handle h hs)) = mset (map fst hs) - {#h#}" for hs :: "(nat \<times> bool) list"
    by (induction h hs rule: remove_handle.induct) auto
  then show ?thesis by (simp add: open_handles_def close_handle_def)
qed

lemma close_handle_simps [simp]:
  "attr_lists (close_handle h w) = attr_lists w" "children (close_handle h w) = children w"
  "attr_lists (new_handle h inh w) = attr_lists w" "children (new_handle h inh w) = children w"
  by (simp_all add: close_handle_def new_handle_def)

lemma token_leaves: "leaves w (build_restricted_token env w)"
  by (auto simp: leaves_def build_restricted_token_def Let_def split: sum.splits)

lemma job_leaves: "leaves w (build_job_object env w)"
  by (auto simp: leaves_def build_job_object_def Let_def split: sum.splits option.splits)

lemma sids_freed: "snd (provision_profile env w) = Inr () \<Longrightarrow> sids (fst (provision_profile env w)) = sids w"
  by (auto simp: provision_profile_def Let_def split: prod.splits if_splits)

section \<open>Properties\<close>

text \<open>C36: on every path through the Windows orchestrator, failing or not, the process ends with the handles and
  attribute lists it started with; a child is started only on success, and then it inherits one handle, the
  file's, which its command line names, however many inheritable handles this process had.  Its environment
  is that of this process: no variable carries the handle.\<close>

theorem windows_no_leak:
  "case run_sandboxed_windows env p exe w of
     (w', r) \<Rightarrow> open_handles w' = open_handles w \<and> attr_lists w' = attr_lists w
       \<and> (case r of
            Inl e \<Rightarrow> children w' = children w
          | Inr pid \<Rightarrow> \<exists>h. create_file env (p @ [0]) = Inr h
              \<and> children w' = \<lparr>wc_cmdline = build_cmdline exe h @ [0], wc_environment = None, wc_inherits = [h]\<rparr>
                               # children w)"
  by (auto simp: run_sandboxed_windows_def CreateProcessW_def inherited_def attr_begin_def attr_delete_def
      attr_handles_def Let_def new_handle_def [of _ True] open_handles_def [of "w\<lparr>handles := _\<rparr>"]
      open_handles_def [of w]
      split: sum.splits option.splits prod.splits)

text \<open>When the Windows lockdown succeeds it has called for all six mitigation policies, each with a flag word
  of zero: not one of them is switched on.\<close>

theorem mitigations_enable_nothing:
  "case windows_lockdown env (w\<lparr>policies := []\<rparr>) of
     (w', r) \<Rightarrow> list_all (\<lambda>(p, flags). flags = 0) (policies w')
       \<and> (case r of Inl e \<Rightarrow> True
          | Inr u \<Rightarrow> set (map fst (policies w')) = {DynamicCodePolicy, SignaturePolicy, StrictHandleCheckPolicy,
              ImageLoadPolicy, ExtensionPointDisablePolicy, SystemCallDisablePolicy})"
  by (auto simp: windows_lockdown_def apply_mitigations_def set_policy_def split: option.splits)

end
