(* ===== verification/Sanitize.thy ===== *)
theory Sanitize
  imports Prelude
begin

section \<open>\<open>seck-report\<close>: the terminal sanitizer\<close>

text \<open>
  \<open>crates/seck-report/src/sanitize.rs\<close>.  The two inner loops that skip an escape sequence are
  \<open>skip_csi\<close> and \<open>skip_osc\<close>: they take the characters after the introducer and return what is left
  of the input.  \<open>sanitize\<close> is the outer loop over the peekable character iterator.
\<close>

definition is_ascii_alphabetic :: "uchar \<Rightarrow> bool" where
  "is_ascii_alphabetic c \<longleftrightarrow> 65 \<le> c \<and> c \<le> 90 \<or> 97 \<le> c \<and> c \<le> 122"

text \<open>\<open>char::is_control\<close>: the Unicode category \<open>Cc\<close>.\<close>

definition is_control :: "uchar \<Rightarrow> bool" where
  "is_control c \<longleftrightarrow> c \<le> 0x1f \<or> 0x7f \<le> c \<and> c \<le> 0x9f"

fun skip_csi :: "ustr \<Rightarrow> ustr" where
  "skip_csi [] = []"
| "skip_csi (p # chars) = (if is_ascii_alphabetic p \<or> p = 126 then chars else skip_csi chars)"

fun skip_osc :: "ustr \<Rightarrow> ustr" where
  "skip_osc [] = []"
| "skip_osc (p # chars) =
     (if p = 7 then chars
      else if p = 27 then (case chars of [] \<Rightarrow> [] | _ # chars' \<Rightarrow> chars')
      else skip_osc chars)"

lemma length_skip_csi: "length (skip_csi s) \<le> length s"
  by (induction s) auto

lemma length_skip_osc: "length (skip_osc s) \<le> length s"
  by (induction s) (auto split: list.splits)

definition is_bidi :: "uchar \<Rightarrow> bool" where
  "is_bidi c \<longleftrightarrow> 0x202a \<le> c \<and> c \<le> 0x202e \<or> 0x2066 \<le> c \<and> c \<le> 0x2069"

definition is_zero_width :: "uchar \<Rightarrow> bool" where
  "is_zero_width c \<longleftrightarrow> c = 0x200b \<or> c = 0x200c \<or> c = 0x200d \<or> c = 0xfeff"

function sanitize :: "ustr \<Rightarrow> ustr" where
  "sanitize s =
     (case s of
        [] \<Rightarrow> []
      | c # chars \<Rightarrow>
          if c = 0x1b then
            (case chars of
               [] \<Rightarrow> sanitize chars
             | p # chars' \<Rightarrow>
                 if p = 91 then sanitize (skip_csi chars')
                 else if p = 93 then sanitize (skip_osc chars')
                 else sanitize chars)
          else if is_bidi c then sanitize chars
          else if is_zero_width c then sanitize chars
          else if is_control c \<and> c \<noteq> 10 \<and> c \<noteq> 9 then sanitize chars
          else c # sanitize chars)"
  by pat_completeness auto
termination
  by (relation "measure length") (auto simp: less_Suc_eq_le le_SucI length_skip_csi length_skip_osc)

declare sanitize.simps [simp del]

section \<open>The interface of a text filter\<close>

text \<open>A filter whose outputs are made of allowed characters and which leaves such text alone.\<close>

locale text_filter =
  fixes scrub :: "ustr \<Rightarrow> ustr" and ok :: "uchar \<Rightarrow> bool"
  assumes scrub_ok: "list_all ok (scrub s)"
    and scrub_id: "list_all ok s \<Longrightarrow> scrub s = s"
begin

lemma idem: "scrub (scrub s) = scrub s"
  by (rule scrub_id) (rule scrub_ok)

lemma fixpoint_iff: "scrub s = s \<longleftrightarrow> list_all ok s"
  using scrub_ok [of s] scrub_id [of s] by auto

lemma range_iff: "t \<in> range scrub \<longleftrightarrow> list_all ok t"
  using scrub_ok scrub_id by (metis rangeE rangeI)

end

text \<open>The characters the comment of \<open>sanitize.rs\<close> allows.\<close>

definition safe_char :: "uchar \<Rightarrow> bool" where
  "safe_char c \<longleftrightarrow> \<not> is_bidi c \<and> \<not> is_zero_width c \<and> (is_control c \<longrightarrow> c = 10 \<or> c = 9)"

lemma esc_not_safe [simp]: "\<not> safe_char 27" "\<not> safe_char 0"
  by (simp_all add: safe_char_def is_control_def)

lemma sanitize_Nil [simp]: "sanitize [] = []"
  by (simp add: sanitize.simps)

lemma sanitize_other: "c \<noteq> 27 \<Longrightarrow> sanitize (c # s) = (if safe_char c then c # sanitize s else sanitize s)"
  by (subst sanitize.simps) (auto simp: safe_char_def)

lemma sanitize_safe_Cons [simp]: "safe_char c \<Longrightarrow> sanitize (c # s) = c # sanitize s"
  by (subst sanitize_other) auto

lemma sanitize_csi [simp]: "sanitize (27 # 91 # s) = sanitize (skip_csi s)"
  by (subst sanitize.simps) simp

lemma sanitize_osc [simp]: "sanitize (27 # 93 # s) = sanitize (skip_osc s)"
  by (subst sanitize.simps) simp

lemma sanitize_esc: "sanitize (27 # s) =
   (case s of [] \<Rightarrow> [] | p # t \<Rightarrow> if p = 91 then sanitize (skip_csi t)
      else if p = 93 then sanitize (skip_osc t) else sanitize s)"
  by (subst sanitize.simps) (auto split: list.splits)

text \<open>An induction principle with one case per kind of head.\<close>

lemma sanitize_cases [case_names Nil Csi Osc Esc Other]:
  assumes "P []" and "\<And>s. P (skip_csi s) \<Longrightarrow> P (27 # 91 # s)" and "\<And>s. P (skip_osc s) \<Longrightarrow> P (27 # 93 # s)"
    and "\<And>s. P s \<Longrightarrow> \<forall>t. s \<noteq> 91 # t \<and> s \<noteq> 93 # t \<Longrightarrow> P (27 # s)"
    and "\<And>c s. c \<noteq> 27 \<Longrightarrow> P s \<Longrightarrow> P (c # s)"
  shows "P s"
proof (induction s rule: measure_induct_rule [of length])
  case (less s)
  show ?case
  proof (cases s)
    case (Cons c t)
    show ?thesis
    proof (cases "c = 27")
      case True
      have t: "P t" using less Cons by simp
      consider (csi) u where "t = 91 # u" | (osc) u where "t = 93 # u" | (no) "\<forall>u. t \<noteq> 91 # u \<and> t \<noteq> 93 # u"
        by blast
      then show ?thesis
      proof cases
        case csi
        have "P (skip_csi u)" using less Cons csi length_skip_csi [of u] by (auto intro!: less(1))
        then show ?thesis using assms(2) Cons True csi by simp
      next
        case osc
        have "P (skip_osc u)" using less Cons osc length_skip_osc [of u] by (auto intro!: less(1))
        then show ?thesis using assms(3) Cons True osc by simp
      next
        case no
        then show ?thesis using assms(4) t Cons True by simp
      qed
    next
      case False
      then show ?thesis using assms(5) less Cons by simp
    qed
  qed (simp add: assms(1))
qed

lemma sanitize_Esc_other: "\<forall>t. s \<noteq> 91 # t \<and> s \<noteq> 93 # t \<Longrightarrow> sanitize (27 # s) = sanitize s"
  by (auto simp: sanitize_esc split: list.splits)

lemma sanitize_list_all: "list_all safe_char (sanitize s)"
  by (induction s rule: sanitize_cases) (simp_all add: sanitize_Esc_other sanitize_other)

lemma sanitize_clean_id: "list_all safe_char s \<Longrightarrow> sanitize s = s"
  by (induction s) auto

interpretation sanitizer: text_filter sanitize safe_char
  by unfold_locales (simp_all add: sanitize_list_all sanitize_clean_id)

lemma skip_csi_suffix: "suffix (skip_csi s) s"
  by (induction s) (simp_all add: suffix_Cons)

lemma skip_osc_suffix: "suffix (skip_osc s) s"
proof (induction s)
  case (Cons p s)
  then show ?case by (cases s) (simp_all add: suffix_Cons)
qed simp

lemma sanitize_subseq: "subseq (sanitize s) s"
proof (induction s rule: sanitize_cases)
  case (Csi s)
  have "subseq (skip_csi s) (27 # 91 # s)"
    by (intro list_emb_Cons suffix_imp_subseq skip_csi_suffix)
  then show ?case using Csi by (simp add: subseq_order.trans)
next
  case (Osc s)
  have "subseq (skip_osc s) (27 # 93 # s)"
    by (intro list_emb_Cons suffix_imp_subseq skip_osc_suffix)
  then show ?case using Osc by (simp add: subseq_order.trans)
next
  case (Esc s)
  then show ?case by (simp add: sanitize_Esc_other list_emb_Cons)
next
  case (Other c s)
  then show ?case by (auto simp: sanitize_other)
qed simp

lemma sanitize_append: "27 \<notin> set s \<Longrightarrow> sanitize (s @ t) = filter safe_char s @ sanitize t"
  by (induction s) (auto simp: sanitize_other)

section \<open>Terminal text\<close>

text \<open>
  What a program writes to a terminal, as ECMA-48 has it and apart from the code: characters, control sequences
  (parameter bytes 0x30 to 0x3F, intermediate bytes 0x20 to 0x2F, a final byte 0x40 to 0x7E) and operating system
  commands, which end with BEL or with the string terminator \<open>ESC \\<close>.  \<open>written\<close> is the text of a piece,
  \<open>shown\<close> what of it is not a command to the terminal.
\<close>

datatype term_piece =
    Character uchar
  | ControlSeq ustr ustr uchar
  | OsCommandBel ustr
  | OsCommandSt ustr

fun well_formed :: "term_piece \<Rightarrow> bool" where
  "well_formed (Character c) \<longleftrightarrow> c \<noteq> 27"
| "well_formed (ControlSeq par im fin) \<longleftrightarrow>
     list_all (\<lambda>c. 0x30 \<le> c \<and> c \<le> 0x3F) par \<and> list_all (\<lambda>c. 0x20 \<le> c \<and> c \<le> 0x2F) im
     \<and> 0x40 \<le> fin \<and> fin \<le> 0x7E"
| "well_formed (OsCommandBel payload) \<longleftrightarrow> 7 \<notin> set payload \<and> 27 \<notin> set payload"
| "well_formed (OsCommandSt payload) \<longleftrightarrow> 7 \<notin> set payload \<and> 27 \<notin> set payload"

fun written :: "term_piece \<Rightarrow> ustr" where
  "written (Character c) = [c]"
| "written (ControlSeq par im fin) = 27 # 91 # par @ im @ [fin]"
| "written (OsCommandBel payload) = 27 # 93 # payload @ [7]"
| "written (OsCommandSt payload) = 27 # 93 # payload @ [27, 92]"

fun shown :: "term_piece \<Rightarrow> ustr" where
  "shown (Character c) = [c]"
| "shown _ = []"

text \<open>The final bytes that are letters or the tilde: 53 of the 63.\<close>

definition letter_final :: "uchar \<Rightarrow> bool" where
  "letter_final c \<longleftrightarrow> c \<in> {65..90} \<union> {97..122} \<union> {126}"

fun letter_ended :: "term_piece \<Rightarrow> bool" where
  "letter_ended (ControlSeq par im fin) \<longleftrightarrow> letter_final fin"
| "letter_ended _ \<longleftrightarrow> True"

lemma skip_csi_step: "skip_csi (c # s) = (if letter_final c then s else skip_csi s)"
  by (auto simp: letter_final_def is_ascii_alphabetic_def)

lemma skip_csi_params: "list_all (\<lambda>c. 0x20 \<le> c \<and> c \<le> 0x3F) s \<Longrightarrow> skip_csi (s @ t) = skip_csi t"
  by (induction s) (auto simp: is_ascii_alphabetic_def)

lemma skip_csi_seq:
  assumes "well_formed (ControlSeq par im fin)"
  shows "skip_csi (par @ im @ fin # t) = (if letter_final fin then t else skip_csi t)"
proof -
  have "list_all (\<lambda>c. 0x20 \<le> c \<and> c \<le> 0x3F) (par @ im)" using assms by (auto simp: list_all_iff)
  from skip_csi_params [OF this, of "fin # t"] show ?thesis
    by (simp add: skip_csi_step del: skip_csi.simps)
qed

lemma skip_osc_payload:
  "7 \<notin> set s \<Longrightarrow> 27 \<notin> set s \<Longrightarrow> skip_osc (s @ 7 # t) = t"
  "7 \<notin> set s \<Longrightarrow> 27 \<notin> set s \<Longrightarrow> skip_osc (s @ 27 # 92 # t) = t"
  by (induction s) auto

lemma sanitize_piece:
  assumes "well_formed p" and "letter_ended p"
  shows "sanitize (written p @ t) = filter safe_char (shown p) @ sanitize t"
  using assms by (cases p) (simp_all add: sanitize_other skip_csi_seq skip_osc_payload)

section \<open>Properties\<close>

text \<open>C17: whatever text a model produced, the sanitized text holds no escape character, no other control
  character than newline and tab, no bidirectional override and no zero-width character, and it is a
  subsequence of the input: nothing is invented or reordered.\<close>

theorem sanitize_safe: "set (sanitize s) \<subseteq> {c. safe_char c} \<and> 27 \<notin> set (sanitize s) \<and> subseq (sanitize s) s"
  using sanitizer.scrub_ok [of s] sanitize_subseq [of s] by (auto simp: list_all_iff)

text \<open>Sanitizing changes a text exactly when it holds a forbidden character, and doing it twice is
  doing it once.\<close>

theorem sanitize_fixpoint: "(sanitize s = s \<longleftrightarrow> list_all safe_char s) \<and> sanitize (sanitize s) = sanitize s"
  using sanitizer.fixpoint_iff sanitizer.idem by blast

text \<open>C18: of a text of characters, control sequences and operating system commands, in any number and order, what is
  left is exactly its safe characters, as long as every control sequence ends with a letter or the tilde;
  whatever follows is sanitized as it would be alone.\<close>

theorem sanitize_strips_sequences:
  assumes "list_all well_formed ps" and "list_all letter_ended ps"
  shows "sanitize (concat (map written ps) @ t) = filter safe_char (concat (map shown ps)) @ sanitize t"
  using assms by (induction ps) (simp_all add: sanitize_piece)

theorem sanitize_strips_sequences_witness:
  "sanitize (27 # 91 # lit ''1;31mhi'' @ [0x202e, 27, 93] @ lit ''8;;u'' @ [27, 92] @ lit ''x'' @ [27, 93, 48, 7, 10] @ [27, 91])
    = lit ''hix'' @ [10]"
proof -
  have "sanitize [27, 91] = []" by (simp add: sanitize_csi)
  then show ?thesis
    using sanitize_strips_sequences [of "[ControlSeq (lit ''1;31'') [] 109, Character 104, Character 105, Character 0x202e,
        OsCommandSt (lit ''8;;u''), Character 120, OsCommandBel [48], Character 10]" "[27, 91]"]
    by (simp add: letter_final_def safe_char_def is_bidi_def is_zero_width_def is_control_def)
qed

text \<open>C39: a control sequence is taken out of every text, and nothing with it, exactly when its final byte is a
  letter or the tilde.  With one of the ten other final bytes of ECMA-48, such as the @ that inserts a blank, there is a
  text after it that is lost.\<close>

theorem control_sequence_stripped_iff:
  assumes "well_formed (ControlSeq par im fin)"
  shows "(\<forall>t. sanitize (written (ControlSeq par im fin) @ t) = sanitize t) \<longleftrightarrow> letter_final fin"
proof -
  have step: "sanitize (written (ControlSeq par im fin) @ t)
      = sanitize (if letter_final fin then t else skip_csi t)" for t
    using skip_csi_seq [OF assms, of t] by simp
  have "sanitize (skip_csi [65]) \<noteq> sanitize [65]"
    by (simp add: is_ascii_alphabetic_def sanitize_other safe_char_def is_bidi_def is_zero_width_def is_control_def)
  then have "\<exists>t. sanitize (skip_csi t) \<noteq> sanitize t" by blast
  then show ?thesis unfolding step by (cases "letter_final fin") simp_all
qed

theorem control_sequence_stripped_iff_witness:
  "\<not> (\<forall>t. sanitize (27 # 91 # 50 # 64 # t) = sanitize t)"
  using control_sequence_stripped_iff [of "[50]" "[]" 64] by (simp add: letter_final_def)

end
