(* ===== verification/Report.thy ===== *)
theory Report
  imports Sanitize Floats
begin

section \<open>\<open>seck-report\<close>: the report schema and the terminal renderer\<close>

text \<open>
  \<open>crates/seck-report/src/schema.rs\<close> and \<open>renderer.rs\<close>.  A report is a record per struct, with the
  readers that \<open>#[derive(Deserialize)]\<close> generates (\<open>report_from_json\<close>) and the writers of
  \<open>#[derive(Serialize)]\<close> (\<open>report_to_json\<close>).  Both are between a report and a
  \<open>serde_json::Value\<close>, where the temperature, an \<open>f32\<close>, is a number of 64 bits when it is finite and null
  otherwise, and is read with rounding from any number (\<open>Floats\<close>).
\<close>

record invocation =
  nonce_sha3_256 :: ustr
  started_at :: ustr
  finished_at :: ustr
  inv_sandbox_mode :: ustr
  backend :: ustr
  model :: ustr
  model_sha3_256 :: ustr
  temperature :: f32
  seed :: u64
  deterministic :: bool

record input =
  in_path :: ustr
  in_sha3_256 :: ustr
  in_size :: u64
  in_kind :: ustr

record finding =
  finding_id :: ustr
  summary :: ustr
  finding_files :: "ustr list"
  category :: ustr
  confidence :: ustr
  evidence_quote :: ustr

record attestation =
  platform :: ustr
  att_sandbox_mode :: ustr
  profile_sha3_256 :: ustr
  binary_sha3_256 :: ustr

record report =
  version :: ustr
  report_invocation :: invocation
  report_inputs :: "input list"
  findings :: "finding list"
  sandbox_attestation :: attestation

subsection \<open>Reading\<close>

definition invocation_fields :: "ustr list" where
  "invocation_fields = [lit ''nonce_sha3_256'', lit ''started_at'', lit ''finished_at'', lit ''sandbox_mode'', lit ''backend'', lit ''model'', lit ''model_sha3_256'', lit ''temperature'', lit ''seed'', lit ''deterministic'']"

definition invocation_from_json :: "json \<Rightarrow> invocation option" where
  "invocation_from_json v =
     Option.bind (struct_fields invocation_fields v) (\<lambda>m.
     Option.bind (get_str m (lit ''nonce_sha3_256'')) (\<lambda>v0.
     Option.bind (get_str m (lit ''started_at'')) (\<lambda>v1.
     Option.bind (get_str m (lit ''finished_at'')) (\<lambda>v2.
     Option.bind (get_str m (lit ''sandbox_mode'')) (\<lambda>v3.
     Option.bind (get_str m (lit ''backend'')) (\<lambda>v4.
     Option.bind (get_str m (lit ''model'')) (\<lambda>v5.
     Option.bind (get_str m (lit ''model_sha3_256'')) (\<lambda>v6.
     Option.bind (get_f32 m (lit ''temperature'')) (\<lambda>v7.
     Option.bind (get_u64 m (lit ''seed'')) (\<lambda>v8.
     Option.bind (get_bool m (lit ''deterministic'')) (\<lambda>v9.
     Some \<lparr>nonce_sha3_256 = v0, started_at = v1, finished_at = v2, inv_sandbox_mode = v3, backend = v4, model = v5, model_sha3_256 = v6, temperature = v7, seed = v8, deterministic = v9\<rparr>)))))))))))"

definition input_fields :: "ustr list" where
  "input_fields = [lit ''path'', lit ''sha3_256'', lit ''size'', lit ''type'']"

definition input_from_json :: "json \<Rightarrow> input option" where
  "input_from_json v =
     Option.bind (struct_fields input_fields v) (\<lambda>m.
     Option.bind (get_str m (lit ''path'')) (\<lambda>v0.
     Option.bind (get_str m (lit ''sha3_256'')) (\<lambda>v1.
     Option.bind (get_u64 m (lit ''size'')) (\<lambda>v2.
     Option.bind (get_str m (lit ''type'')) (\<lambda>v3.
     Some \<lparr>in_path = v0, in_sha3_256 = v1, in_size = v2, in_kind = v3\<rparr>)))))"

definition finding_fields :: "ustr list" where
  "finding_fields = [lit ''id'', lit ''summary'', lit ''files'', lit ''category'', lit ''confidence'', lit ''evidence_quote'']"

definition finding_from_json :: "json \<Rightarrow> finding option" where
  "finding_from_json v =
     Option.bind (struct_fields finding_fields v) (\<lambda>m.
     Option.bind (get_str m (lit ''id'')) (\<lambda>v0.
     Option.bind (get_str m (lit ''summary'')) (\<lambda>v1.
     Option.bind (get_list jas_str m (lit ''files'')) (\<lambda>v2.
     Option.bind (get_str m (lit ''category'')) (\<lambda>v3.
     Option.bind (get_str m (lit ''confidence'')) (\<lambda>v4.
     Option.bind (get_str m (lit ''evidence_quote'')) (\<lambda>v5.
     Some \<lparr>finding_id = v0, summary = v1, finding_files = v2, category = v3, confidence = v4, evidence_quote = v5\<rparr>)))))))"

definition attestation_fields :: "ustr list" where
  "attestation_fields = [lit ''platform'', lit ''sandbox_mode'', lit ''profile_sha3_256'', lit ''binary_sha3_256'']"

definition attestation_from_json :: "json \<Rightarrow> attestation option" where
  "attestation_from_json v =
     Option.bind (struct_fields attestation_fields v) (\<lambda>m.
     Option.bind (get_str m (lit ''platform'')) (\<lambda>v0.
     Option.bind (get_str m (lit ''sandbox_mode'')) (\<lambda>v1.
     Option.bind (get_str m (lit ''profile_sha3_256'')) (\<lambda>v2.
     Option.bind (get_str m (lit ''binary_sha3_256'')) (\<lambda>v3.
     Some \<lparr>platform = v0, att_sandbox_mode = v1, profile_sha3_256 = v2, binary_sha3_256 = v3\<rparr>)))))"

definition report_fields :: "ustr list" where
  "report_fields = [lit ''version'', lit ''invocation'', lit ''inputs'', lit ''findings'', lit ''sandbox_attestation'']"

definition report_from_json :: "json \<Rightarrow> report option" where
  "report_from_json v =
     Option.bind (struct_fields report_fields v) (\<lambda>m.
     Option.bind (get_str m (lit ''version'')) (\<lambda>v0.
     Option.bind (Option.bind (m (lit ''invocation'')) invocation_from_json) (\<lambda>v1.
     Option.bind (get_list input_from_json m (lit ''inputs'')) (\<lambda>v2.
     Option.bind (get_list finding_from_json m (lit ''findings'')) (\<lambda>v3.
     Option.bind (Option.bind (m (lit ''sandbox_attestation'')) attestation_from_json) (\<lambda>v4.
     Some \<lparr>version = v0, report_invocation = v1, report_inputs = v2, findings = v3, sandbox_attestation = v4\<rparr>))))))"

subsection \<open>Writing\<close>

definition invocation_to_json :: "invocation \<Rightarrow> json" where
  "invocation_to_json r = jobj
     [(lit ''nonce_sha3_256'', JStr (nonce_sha3_256 r)),
      (lit ''started_at'', JStr (started_at r)),
      (lit ''finished_at'', JStr (finished_at r)),
      (lit ''sandbox_mode'', JStr (inv_sandbox_mode r)),
      (lit ''backend'', JStr (backend r)),
      (lit ''model'', JStr (model r)),
      (lit ''model_sha3_256'', JStr (model_sha3_256 r)),
      (lit ''temperature'', f32_json (temperature r)),
      (lit ''seed'', jnat (seed r)),
      (lit ''deterministic'', JBool (deterministic r))]"

definition input_to_json :: "input \<Rightarrow> json" where
  "input_to_json r = jobj
     [(lit ''path'', JStr (in_path r)),
      (lit ''sha3_256'', JStr (in_sha3_256 r)),
      (lit ''size'', jnat (in_size r)),
      (lit ''type'', JStr (in_kind r))]"

definition finding_to_json :: "finding \<Rightarrow> json" where
  "finding_to_json r = jobj
     [(lit ''id'', JStr (finding_id r)),
      (lit ''summary'', JStr (summary r)),
      (lit ''files'', JArr (map JStr (finding_files r))),
      (lit ''category'', JStr (category r)),
      (lit ''confidence'', JStr (confidence r)),
      (lit ''evidence_quote'', JStr (evidence_quote r))]"

definition attestation_to_json :: "attestation \<Rightarrow> json" where
  "attestation_to_json r = jobj
     [(lit ''platform'', JStr (platform r)),
      (lit ''sandbox_mode'', JStr (att_sandbox_mode r)),
      (lit ''profile_sha3_256'', JStr (profile_sha3_256 r)),
      (lit ''binary_sha3_256'', JStr (binary_sha3_256 r))]"

definition report_to_json :: "report \<Rightarrow> json" where
  "report_to_json r = jobj
     [(lit ''version'', JStr (version r)),
      (lit ''invocation'', invocation_to_json (report_invocation r)),
      (lit ''inputs'', JArr (map input_to_json (report_inputs r))),
      (lit ''findings'', JArr (map finding_to_json (findings r))),
      (lit ''sandbox_attestation'', attestation_to_json (sandbox_attestation r))]"

lemma input_round: "input_from_json (input_to_json r) = Some r"
  by (simp add: input_from_json_def input_to_json_def struct_fields_def jobj_def
      get_str_def get_u64_def jnat_def)

lemma traverse_JStr [simp]: "traverse jas_str (map JStr xs) = Some xs"
  by (rule traverse_map) simp

lemma finding_round: "finding_from_json (finding_to_json r) = Some r"
  by (simp add: finding_from_json_def finding_to_json_def struct_fields_def jobj_def
      get_str_def get_list_def)

lemma attestation_round: "attestation_from_json (attestation_to_json r) = Some r"
  by (simp add: attestation_from_json_def attestation_to_json_def struct_fields_def jobj_def get_str_def)

lemma invocation_round:
  "invocation_from_json (invocation_to_json r) = (if f32_is_finite (temperature r) then Some r else None)"
  by (simp add: invocation_from_json_def invocation_to_json_def struct_fields_def jobj_def
      get_str_def get_u64_def get_f32_def f32_json_def num_to_f32_def f32_widen_narrow get_bool_def jnat_def)

text \<open>A finding object without one of the string fields is refused.\<close>

lemma finding_missing_id:
  assumes "jget (lit ''id'') v = None" and "\<And>vs. v \<noteq> JArr vs"
  shows "finding_from_json v = None"
  using assms by (cases v) (auto simp: finding_from_json_def struct_fields_def get_str_def
      split: option.splits Option.bind_splits)

lemma input_missing_hash:
  assumes "jget (lit ''sha3_256'') v = None" and "\<And>vs. v \<noteq> JArr vs"
  shows "input_from_json v = None"
  using assms by (cases v) (auto simp: input_from_json_def struct_fields_def get_str_def
      split: option.splits Option.bind_splits)

section \<open>The terminal renderer\<close>

definition finding_lines :: "finding \<Rightarrow> ustr" where
  "finding_lines f =
     lit ''  ['' @ finding_id f @ lit ''] '' @ sanitize (summary f) @ lit '' ('' @ category f @ lit ''/''
       @ confidence f @ lit '')'' @ [10]
     @ lit ''    files: '' @ join (lit '', '') (finding_files f) @ [10]
     @ lit ''    quote: '' @ sanitize (evidence_quote f) @ [10]"

definition render_terminal :: "report \<Rightarrow> ustr" where
  "render_terminal r =
     lit ''seck v'' @ version r @ lit '' '' @ [0x2014] @ lit '' sandbox '' @ inv_sandbox_mode (report_invocation r)
       @ lit '' '' @ [0x2014] @ lit '' backend '' @ backend (report_invocation r)
       @ lit '' '' @ [0x2014] @ lit '' model '' @ sanitize (model (report_invocation r)) @ [10]
     @ lit ''inputs: '' @ show_nat (length (report_inputs r)) @ lit '' files'' @ [10, 10]
     @ lit ''findings:'' @ [10]
     @ concat (map finding_lines (findings r))"

text \<open>The fields the renderer prints without sanitizing them.\<close>

definition raw_fields :: "report \<Rightarrow> ustr list" where
  "raw_fields r = version r # inv_sandbox_mode (report_invocation r) # backend (report_invocation r)
     # concat (map (\<lambda>f. finding_id f # category f # confidence f # finding_files f) (findings r))"

lemma safe_ascii [simp]: "32 \<le> c \<Longrightarrow> c < 127 \<Longrightarrow> safe_char c"
  by (simp add: safe_char_def is_bidi_def is_zero_width_def is_control_def)

lemma safe_more [simp]: "safe_char 10" "safe_char 0x2014"
  by (simp_all add: safe_char_def is_bidi_def is_zero_width_def is_control_def)

lemma show_nat_safe: "set (show_nat n) \<subseteq> {c. safe_char c}"
  using show_nat_digits [of n] by force

lemma sanitize_subset: "set (sanitize s) \<subseteq> {c. safe_char c}"
  using sanitizer.scrub_ok [of s] by (auto simp: list_all_iff)

lemma finding_lines_subset:
  "set (finding_lines f) \<subseteq> {c. safe_char c} \<union> set (finding_id f) \<union> set (category f) \<union> set (confidence f)
     \<union> \<Union> (set ` set (finding_files f))"
proof -
  have "set (join (lit '', '') (finding_files f)) \<subseteq> {c. safe_char c} \<union> \<Union> (set ` set (finding_files f))"
    using join_subset [of "lit '', ''" "finding_files f"] by auto
  moreover have "set (sanitize (summary f)) \<subseteq> {c. safe_char c}" "set (sanitize (evidence_quote f)) \<subseteq> {c. safe_char c}"
    by (rule sanitize_subset)+
  ultimately show ?thesis by (auto simp: finding_lines_def)
qed

lemma findings_lines_subset:
  "set (concat (map finding_lines fs)) \<subseteq> {c. safe_char c}
     \<union> \<Union> (set ` set (concat (map (\<lambda>f. finding_id f # category f # confidence f # finding_files f) fs)))"
proof (induction fs)
  case (Cons f fs)
  then show ?case using finding_lines_subset [of f] by (simp add: subset_iff) blast
qed simp

lemma render_subset: "set (render_terminal r) \<subseteq> {c. safe_char c} \<union> \<Union> (set ` set (raw_fields r))"
proof -
  have "set (sanitize (model (report_invocation r))) \<subseteq> {c. safe_char c}" by (rule sanitize_subset)
  then show ?thesis
    using findings_lines_subset [of "findings r"] show_nat_safe [of "length (report_inputs r)"]
    unfolding render_terminal_def raw_fields_def by (simp add: subset_iff) blast
qed

section \<open>Properties\<close>

text \<open>C24: a report written to a JSON value and read back is unchanged, its 32-bit temperature included, which
  goes through 64 bits and is rounded back, when that temperature is finite.  A temperature that is infinite or no
  number is written as null, and the whole report is then refused by its own reader.\<close>

theorem report_roundtrip:
  "report_from_json (report_to_json r)
     = (if f32_is_finite (temperature (report_invocation r)) then Some r else None)"
  by (simp add: report_from_json_def report_to_json_def struct_fields_def jobj_def get_str_def get_list_def
      invocation_round attestation_round traverse_map input_round finding_round)

text \<open>C25: every character the terminal renderer prints is safe, or was already in one of the fields it does
  not sanitize (version, mode, backend, and each finding's id, category, confidence and files).\<close>

theorem render_terminal_chars:
  "set (render_terminal r) \<subseteq> {c. safe_char c} \<union> \<Union> (set ` set (raw_fields r))"
  by (rule render_subset)

text \<open>The converse, which the header comment of the renderer denies: whatever a finding's id, category or
  confidence holds, an escape sequence included, reaches the terminal.\<close>

theorem render_terminal_leaks:
  assumes "f \<in> set (findings r)"
  shows "set (finding_id f) \<union> set (category f) \<union> set (confidence f) \<subseteq> set (render_terminal r)"
  using assms by (auto simp: render_terminal_def finding_lines_def)

definition evil_finding :: finding where
  "evil_finding = \<lparr>finding_id = [27, 91, 50, 74], summary = [27, 91, 50, 74], finding_files = [],
     category = lit ''note'', confidence = lit ''low'', evidence_quote = []\<rparr>"

definition evil_report :: report where
  "evil_report = \<lparr>version = lit ''0.1.0'',
     report_invocation = \<lparr>nonce_sha3_256 = [], started_at = [], finished_at = [], inv_sandbox_mode = lit ''A'',
       backend = lit ''stub'', model = [], model_sha3_256 = [], temperature = 0, seed = 42,
       deterministic = True\<rparr>,
     report_inputs = [], findings = [evil_finding],
     sandbox_attestation = \<lparr>platform = [], att_sandbox_mode = [], profile_sha3_256 = [], binary_sha3_256 = []\<rparr>\<rparr>"

theorem render_terminal_leaks_witness:
  "evil_finding \<in> set (findings evil_report) \<and> 27 \<in> set (render_terminal evil_report)"
proof -
  have m: "evil_finding \<in> set (findings evil_report)" by (simp add: evil_report_def)
  then show ?thesis using render_terminal_leaks [OF m] by (auto simp: evil_finding_def)
qed

end
