(* ===== verification/Web.thy ===== *)
theory Web
  imports Net Report
begin

section \<open>\<open>seck-web\<close>: the local report server\<close>

text \<open>
  \<open>crates/seck-web/src\<close>: the bind resolver, the single-use token, the response headers, the HTML
  rendering and the request handler.  The random source gives the bytes of its \<open>n\<close>-th draw; the
  hexadecimal encoder, HTML escaping (\<open>html_escape::encode_text\<close>) and the address parser are
  parameters.  The token's mutex makes the handler's calls a sequence, which is how they are modelled.
\<close>

subsection \<open>Binding\<close>

datatype bind_error = NotLoopback ustr | BindParse ustr

fun is_loopback :: "ip_addr \<Rightarrow> bool" where
  "is_loopback (V4 a b c d) = v4_is_loopback a"
| "is_loopback (V6 s0 s1 s2 s3 s4 s5 s6 s7) = (V6 s0 s1 s2 s3 s4 s5 s6 s7 = V6_LOCALHOST)"

definition resolve_bind :: "(ustr \<Rightarrow> ustr + socket_addr) \<Rightarrow> ustr \<Rightarrow> bind_error + socket_addr" where
  "resolve_bind parse_addr s =
     try_bind (map_err BindParse (parse_addr s)) (\<lambda>addr.
     if \<not> is_loopback (sock_ip addr) then Inl (NotLoopback (show_sock addr)) else Inr addr)"

subsection \<open>Tokens\<close>

record token_store =
  current :: ustr
  draws :: nat

definition token_store_new :: "(nat \<Rightarrow> bytes) \<Rightarrow> (bytes \<Rightarrow> ustr) \<Rightarrow> token_store" where
  "token_store_new rng hex = \<lparr>current = hex (rng 0), draws = 1\<rparr>"

definition current_token :: "token_store \<Rightarrow> ustr" where
  "current_token s = current s"

definition check_and_rotate ::
    "(nat \<Rightarrow> bytes) \<Rightarrow> (bytes \<Rightarrow> ustr) \<Rightarrow> ustr \<Rightarrow> token_store \<Rightarrow> token_store \<times> bool" where
  "check_and_rotate rng hex supplied g =
     (if current g = supplied then (g\<lparr>current := hex (rng (draws g)), draws := Suc (draws g)\<rparr>, True)
      else (g, False))"

subsection \<open>Headers\<close>

definition header_insert :: "ustr \<Rightarrow> ustr \<Rightarrow> (ustr \<times> ustr) list \<Rightarrow> (ustr \<times> ustr) list" where
  "header_insert k v h = filter (\<lambda>(k', _). k' \<noteq> k) h @ [(k, v)]"

definition security_header_list :: "(ustr \<times> ustr) list" where
  "security_header_list =
     [(lit ''content-security-policy'',
       lit ''default-src 'none'; style-src 'self' 'unsafe-inline'; img-src 'self' data:; ''
       @ lit ''script-src 'none'; frame-ancestors 'none';''),
      (lit ''cross-origin-resource-policy'', lit ''same-origin''),
      (lit ''cross-origin-opener-policy'', lit ''same-origin''),
      (lit ''x-frame-options'', lit ''DENY''),
      (lit ''x-content-type-options'', lit ''nosniff''),
      (lit ''referrer-policy'', lit ''no-referrer''),
      (lit ''cache-control'', lit ''no-store, max-age=0'')]"

definition security_headers :: "(ustr \<times> ustr) list \<Rightarrow> (ustr \<times> ustr) list" where
  "security_headers h = fold (\<lambda>(k, v). header_insert k v) security_header_list h"

subsection \<open>Rendering\<close>

definition safe :: "(ustr \<Rightarrow> ustr) \<Rightarrow> ustr \<Rightarrow> ustr" where
  "safe encode_text s = encode_text (sanitize s)"

definition page_head :: ustr where
  "page_head =
     lit ''<!doctype html>'' @ [10]
     @ lit ''<html lang=\"en\"><head>'' @ [10]
     @ lit ''<meta charset=\"utf-8\"><title>seck '' @ [0x2014] @ lit '' report</title>'' @ [10]
     @ lit ''<style>'' @ [10]
     @ lit ''  body { font: 14px/1.5 -apple-system, system-ui, sans-serif; max-width: 60rem; margin: 2rem auto; padding: 0 1rem; }'' @ [10]
     @ lit ''  h1 { font-size: 1.4rem; } h2 { font-size: 1.1rem; margin-top: 2rem; }'' @ [10]
     @ lit ''  .finding { border: 1px solid #ddd; border-radius: 6px; padding: 1rem; margin: 1rem 0; }'' @ [10]
     @ lit ''  .badge { display: inline-block; padding: 2px 8px; border-radius: 999px; font-size: 0.8rem; background: #eee; }'' @ [10]
     @ lit ''  pre { white-space: pre-wrap; background: #f6f6f6; padding: 0.5rem; }'' @ [10]
     @ lit ''  code { font-family: ui-monospace, Menlo, monospace; }'' @ [10]
     @ lit ''</style></head><body>'' @ [10]"

definition render_input :: "(ustr \<Rightarrow> ustr) \<Rightarrow> input \<Rightarrow> ustr" where
  "render_input enc i =
     lit ''<li>'' @ safe enc (in_path i) @ lit '' <code>'' @ safe enc (in_sha3_256 i) @ lit ''</code> (''
       @ show_nat (unat (in_size i)) @ lit '' bytes)</li>''"

definition render_finding :: "(ustr \<Rightarrow> ustr) \<Rightarrow> finding \<Rightarrow> ustr" where
  "render_finding enc f =
     lit ''<div class=\"finding\"><strong>['' @ safe enc (finding_id f) @ lit '']</strong> ''
       @ safe enc (summary f) @ lit ''<p><span class=\"badge\">'' @ safe enc (category f)
       @ lit ''</span> <span class=\"badge\">'' @ safe enc (confidence f) @ lit ''</span></p><pre>''
       @ safe enc (evidence_quote f) @ lit ''</pre></div>''"

definition render :: "(ustr \<Rightarrow> ustr) \<Rightarrow> report \<Rightarrow> ustr" where
  "render enc r =
     page_head
     @ lit ''<h1>seck report '' @ [0x2014] @ lit '' '' @ safe enc (model (report_invocation r)) @ lit ''</h1>'' @ [10]
     @ lit ''<p>sandbox: <code>'' @ safe enc (inv_sandbox_mode (report_invocation r)) @ lit ''</code> '' @ [0xb7]
       @ lit '' backend: <code>'' @ safe enc (backend (report_invocation r)) @ lit ''</code> '' @ [0xb7] @ lit '' ''
       @ (if deterministic (report_invocation r) then lit ''deterministic'' else lit ''non-deterministic'')
       @ lit ''</p>'' @ [10]
     @ lit ''<h2>Inputs ('' @ show_nat (length (report_inputs r)) @ lit '')</h2>'' @ [10] @ lit ''<ul>''
     @ concat (map (render_input enc) (report_inputs r))
     @ lit ''</ul>'' @ [10]
     @ lit ''<h2>Findings</h2>'' @ [10]
     @ concat (map (render_finding enc) (findings r))
     @ lit ''</body></html>'' @ [10]"

subsection \<open>Requests\<close>

record app_state =
  app_report :: report
  tokens :: token_store

datatype response = Forbidden | Html ustr

definition report_handler ::
    "(nat \<Rightarrow> bytes) \<Rightarrow> (bytes \<Rightarrow> ustr) \<Rightarrow> (ustr \<Rightarrow> ustr) \<Rightarrow> ustr \<Rightarrow> app_state \<Rightarrow> app_state \<times> response" where
  "report_handler rng hex enc tok s =
     (let (g, ok) = check_and_rotate rng hex tok (tokens s); s' = s\<lparr>tokens := g\<rparr> in
      if \<not> ok then (s', Forbidden) else (s', Html (render enc (app_report s'))))"

text \<open>\<open>serve\<close>: the state it starts with, the address line it prints, and the answers it gives to a sequence
  of requests for \<open>/r/<token>\<close>, each with the headers the middleware adds.\<close>

definition serve_start :: "(nat \<Rightarrow> bytes) \<Rightarrow> (bytes \<Rightarrow> ustr) \<Rightarrow> report \<Rightarrow> socket_addr \<Rightarrow> app_state \<times> ustr" where
  "serve_start rng hex r actual =
     (let st = \<lparr>app_report = r, tokens = token_store_new rng hex\<rparr>; initial = current_token (tokens st) in
      (st, lit ''seck web ready at http://'' @ show_sock actual @ lit ''/r/'' @ initial
             @ lit '' (loopback only, single-use)''))"

fun serve_requests :: "(nat \<Rightarrow> bytes) \<Rightarrow> (bytes \<Rightarrow> ustr) \<Rightarrow> (ustr \<Rightarrow> ustr) \<Rightarrow> app_state \<Rightarrow> ustr list
    \<Rightarrow> (response \<times> (ustr \<times> ustr) list) list" where
  "serve_requests rng hex enc s [] = []"
| "serve_requests rng hex enc s (tok # toks) =
     (case report_handler rng hex enc tok s of
        (s', resp) \<Rightarrow> (resp, security_headers []) # serve_requests rng hex enc s' toks)"

text \<open>\<open>seck web\<close> (\<open>crates/seck-cli/src/web.rs\<close>): bind, read, parse, serve; reading the file and parsing JSON
  text are parameters.\<close>

datatype web_error = WebBind bind_error | WebRead | WebParse

definition cli_web :: "(ustr \<Rightarrow> ustr + socket_addr) \<Rightarrow> bytes option \<Rightarrow> (bytes \<Rightarrow> json option) \<Rightarrow> ustr
    \<Rightarrow> web_error + (socket_addr \<times> report)" where
  "cli_web parse_addr file parse_json bind =
     try_bind (map_err WebBind (resolve_bind parse_addr bind)) (\<lambda>addr.
     try_bind (ok_or WebRead file) (\<lambda>bs.
     try_bind (ok_or WebParse (Option.bind (parse_json bs) report_from_json)) (\<lambda>r.
     Inr (addr, r))))"

section \<open>Tokens are used once and in order\<close>

text \<open>The server with a log of the tokens it accepted.\<close>

definition accept_step :: "(nat \<Rightarrow> bytes) \<Rightarrow> (bytes \<Rightarrow> ustr) \<Rightarrow> token_store \<times> ustr list \<Rightarrow> ustr \<Rightarrow> token_store \<times> ustr list" where
  "accept_step rng hex s tok =
     (case check_and_rotate rng hex tok (fst s) of (g, ok) \<Rightarrow> (g, if ok then snd s @ [tok] else snd s))"

lemma accept_step_pair: "accept_step rng hex (g, acc) tok =
    (if current g = tok then (g\<lparr>current := hex (rng (draws g)), draws := Suc (draws g)\<rparr>, acc @ [tok]) else (g, acc))"
  by (simp add: accept_step_def check_and_rotate_def)

definition drawn :: "(nat \<Rightarrow> bytes) \<Rightarrow> (bytes \<Rightarrow> ustr) \<Rightarrow> nat \<Rightarrow> ustr list" where
  "drawn rng hex n = map (\<lambda>i. hex (rng i)) [0..<n]"

interpretation token_log: stepper "accept_step rng hex"
  "\<lambda>s. snd s @ [current (fst s)] = drawn rng hex (draws (fst s))" for rng hex
  by unfold_locales (auto simp: accept_step_def check_and_rotate_def drawn_def split: if_splits)

lemma token_log_start: "snd (token_store_new rng hex, []) @ [current (fst (token_store_new rng hex, []))]
    = drawn rng hex (draws (fst (token_store_new rng hex, [])))"
  by (simp add: token_store_new_def drawn_def)

fun ok_responses :: "ustr list \<Rightarrow> (response \<times> (ustr \<times> ustr) list) list \<Rightarrow> ustr list" where
  "ok_responses (t # ts) ((Html h, _) # rs) = t # ok_responses ts rs"
| "ok_responses (t # ts) ((Forbidden, _) # rs) = ok_responses ts rs"
| "ok_responses _ _ = []"

lemma serve_log:
  "ok_responses toks (serve_requests rng hex enc s toks)
     = drop (length acc) (snd (run_steps (accept_step rng hex) (tokens s, acc) toks))"
proof (induction toks arbitrary: s acc)
  case (Cons t ts)
  have pre: "\<exists>zs. snd (run_steps (accept_step rng hex) (g, as) us) = as @ zs" for g as us
  proof (induction us arbitrary: g as)
    case (Cons u us)
    obtain g' as' where st: "accept_step rng hex (g, as) u = (g', as')" by force
    moreover have "\<exists>zs. as' = as @ zs" using st by (auto simp: accept_step_def split: prod.splits if_splits)
    ultimately show ?case using Cons [of g' as'] by auto
  qed simp
  show ?case
  proof (cases "current (tokens s) = t")
    case True
    let ?g = "(tokens s)\<lparr>current := hex (rng (draws (tokens s))), draws := Suc (draws (tokens s))\<rparr>"
    obtain zs where "snd (run_steps (accept_step rng hex) (?g, acc @ [t]) ts) = (acc @ [t]) @ zs"
      using pre by blast
    then show ?thesis
      using True Cons [of "s\<lparr>tokens := ?g\<rparr>" "acc @ [t]"]
      by (simp add: report_handler_def check_and_rotate_def accept_step_pair Let_def)
  next
    case False
    then show ?thesis using Cons [of s acc]
      by (simp add: report_handler_def check_and_rotate_def accept_step_pair Let_def)
  qed
qed simp

lemma accepted_drawn:
  "\<exists>n. ok_responses toks (serve_requests rng hex enc (fst (serve_start rng hex r a)) toks) = drawn rng hex n"
proof -
  let ?s = "run_steps (accept_step rng hex) (token_store_new rng hex, []) toks"
  have "snd ?s @ [current (fst ?s)] = drawn rng hex (draws (fst ?s))"
    using token_log.run_inv [OF token_log_start] by blast
  then have "snd ?s = butlast (drawn rng hex (draws (fst ?s)))" by (metis butlast_snoc)
  then have "snd ?s = drawn rng hex (draws (fst ?s) - 1)"
    by (cases "draws (fst ?s)") (simp_all add: drawn_def)
  then show ?thesis
    using serve_log [of toks rng hex enc "fst (serve_start rng hex r a)" "[]"]
    by (auto simp: serve_start_def Let_def)
qed

section \<open>Tags\<close>

definition tag_count :: "ustr \<Rightarrow> nat" where
  "tag_count s = length (filter (\<lambda>c. c = 60) s)"

lemma tag_count_append [simp]: "tag_count (a @ b) = tag_count a + tag_count b"
  by (simp add: tag_count_def)

lemma tag_count_Nil [simp]: "tag_count [] = 0"
  by (simp add: tag_count_def)

lemma tag_count_Cons [simp]: "tag_count (c # s) = (if c = 60 then 1 else 0) + tag_count s"
  by (simp add: tag_count_def)

lemma tag_count_none: "60 \<notin> set s \<Longrightarrow> tag_count s = 0"
  by (auto simp: tag_count_def filter_empty_conv)

lemma tag_count_show_nat [simp]: "tag_count (show_nat n) = 0"
  using show_nat_digits [of n] by (intro tag_count_none) force

lemma tag_count_page_head: "tag_count page_head = 10"
  by (simp add: page_head_def)

lemma tag_count_concat: "(\<And>x. tag_count (f x) = k) \<Longrightarrow> tag_count (concat (map f xs)) = k * length xs"
  by (induction xs) auto

definition no_lt :: "(ustr \<Rightarrow> ustr) \<Rightarrow> bool" where
  "no_lt enc \<longleftrightarrow> (\<forall>s. 60 \<notin> set (enc s))"

lemma tag_count_safe: "no_lt enc \<Longrightarrow> tag_count (safe enc s) = 0"
  by (simp add: tag_count_none no_lt_def safe_def)

lemma tag_count_input: "no_lt enc \<Longrightarrow> tag_count (render_input enc i) = 4"
  by (simp add: render_input_def tag_count_safe)

lemma tag_count_finding: "no_lt enc \<Longrightarrow> tag_count (render_finding enc f) = 12"
  by (simp add: render_finding_def tag_count_safe)

lemma tag_count_render:
  "no_lt enc \<Longrightarrow> tag_count (render enc r) = 26 + 4 * length (report_inputs r) + 12 * length (findings r)"
  by (simp add: render_def tag_count_safe tag_count_page_head tag_count_concat tag_count_input tag_count_finding)

section \<open>Properties\<close>

text \<open>C20: whatever sequence of requests arrives, the tokens that were answered with the report are exactly
  the first draws of the random source, each once and in the order of the draws: no token is accepted
  twice, none before it was issued, and a wrong token changes nothing.\<close>

theorem tokens_single_use:
  "\<exists>n. ok_responses toks (serve_requests rng hex enc (fst (serve_start rng hex r a)) toks) = drawn rng hex n"
  by (rule accepted_drawn)

text \<open>The address handed to the listener is the one parsed, and it is in \<open>127.0.0.0/8\<close> or is \<open>::1\<close>; every
  other address is refused with its text.\<close>

theorem resolve_bind_loopback:
  "resolve_bind parse_addr s =
     (case parse_addr s of
        Inl e \<Rightarrow> Inl (BindParse e)
      | Inr (SocketAddr (V4 a b c d) p) \<Rightarrow>
          if unat a = 127 then Inr (SocketAddr (V4 a b c d) p)
          else Inl (NotLoopback (show_sock (SocketAddr (V4 a b c d) p)))
      | Inr (SocketAddr (V6 s0 s1 s2 s3 s4 s5 s6 s7) p) \<Rightarrow>
          if [s0, s1, s2, s3, s4, s5, s6, s7] = [0, 0, 0, 0, 0, 0, 0, 1]
          then Inr (SocketAddr (V6 s0 s1 s2 s3 s4 s5 s6 s7) p)
          else Inl (NotLoopback (show_sock (SocketAddr (V6 s0 s1 s2 s3 s4 s5 s6 s7) p))))"
  by (auto simp: resolve_bind_def v4_is_loopback_def V6_LOCALHOST_def word_unat_eq_iff
      split: sum.split socket_addr.split ip_addr.split)

text \<open>When the HTML encoder leaves no \<open><\<close>, as \<open>encode_text\<close> documents, nothing in a report can add a
  tag: the page has exactly the tags of the template, which depend only on the numbers of inputs and
  findings.\<close>

theorem render_tags:
  assumes "no_lt enc"
  shows "tag_count (render enc r) = 26 + 4 * length (report_inputs r) + 12 * length (findings r)"
  using assms by (rule tag_count_render)

definition encode_text_ref :: "ustr \<Rightarrow> ustr" where
  "encode_text_ref s = concat (map (\<lambda>c. if c = 38 then lit ''&amp;'' else if c = 60 then lit ''&lt;''
     else if c = 62 then lit ''&gt;'' else [c]) s)"

theorem render_tags_witness:
  "no_lt encode_text_ref \<and> tag_count (render encode_text_ref evil_report) = 38"
proof -
  have n: "no_lt encode_text_ref" by (auto simp: no_lt_def encode_text_ref_def)
  then show ?thesis using render_tags [OF n, of evil_report] by (simp add: evil_report_def)
qed

end
