(* ===== verification/Orchestrator.thy ===== *)
theory Orchestrator
  imports Fileset
begin

section \<open>\<open>seck-host\<close>: spawning the sandboxed readers\<close>

text \<open>
  \<open>crates/seck-host/src/orchestrator.rs\<close>.  A process's descriptors are a table from numbers to open
  objects; \<open>pipe(2)\<close> takes the two lowest free numbers, \<open>fork\<close> copies the table, and the
  \<open>pre_exec\<close> closures move the pipe ends to the numbers the readers expect with \<open>dup2\<close>.  The child
  programs are parameters: functions of their descriptor table and of what arrives on their input.
  \<open>host_env\<close> says which system calls fail.
\<close>

datatype fobj = PipeR nat | PipeW nat | OtherObj nat

type_synonym fdtab = "fobj option list"

definition fd_get :: "'a option list \<Rightarrow> nat \<Rightarrow> 'a option" where
  "fd_get t n = (if n < length t then t ! n else None)"

definition fd_set :: "nat \<Rightarrow> 'a \<Rightarrow> 'a option list \<Rightarrow> 'a option list" where
  "fd_set n ob t = (t @ replicate (Suc n - length t) None)[n := Some ob]"

fun lowest_free :: "'a option list \<Rightarrow> nat" where
  "lowest_free [] = 0"
| "lowest_free (None # t) = 0"
| "lowest_free (Some ob # t) = Suc (lowest_free t)"

definition fd_alloc :: "'a \<Rightarrow> 'a option list \<Rightarrow> nat \<times> 'a option list" where
  "fd_alloc ob t = (let n = lowest_free t in (n, fd_set n ob t))"

definition sys_pipe :: "nat \<Rightarrow> fdtab \<Rightarrow> nat \<times> nat \<times> fdtab" where
  "sys_pipe i t = (let (r, t1) = fd_alloc (PipeR i) t; (w, t2) = fd_alloc (PipeW i) t1 in (r, w, t2))"

definition dup2 :: "nat \<Rightarrow> nat \<Rightarrow> fdtab \<Rightarrow> io_error + fdtab" where
  "dup2 old new t = (case fd_get t old of None \<Rightarrow> Inl (OsError 9) | Some ob \<Rightarrow> Inr (fd_set new ob t))"

record command =
  program :: ustr
  cmd_args :: "ustr list"
  cmd_env :: "(ustr \<times> ustr) list"

definition reader_command :: "ustr \<Rightarrow> command" where
  "reader_command reader_binary =
     \<lparr>program = reader_binary, cmd_args = [lit ''--protocol-version=1''],
      cmd_env = [(lit ''LANG'', lit ''C'')]\<rparr>"

definition bytes_command :: "ustr \<Rightarrow> command" where
  "bytes_command reader_bytes_binary =
     \<lparr>program = reader_bytes_binary,
      cmd_args = [lit ''--protocol-version=1'', lit ''--mode=bytes-to-ipc''],
      cmd_env = [(lit ''LANG'', lit ''C'')]\<rparr>"

definition priv_command :: "ustr \<Rightarrow> ustr option \<Rightarrow> command" where
  "priv_command reader_priv_binary model =
     \<lparr>program = reader_priv_binary, cmd_args = [],
      cmd_env = (lit ''LANG'', lit ''C'')
        # (case model of None \<Rightarrow> [] | Some m \<Rightarrow> [(lit ''SECK_MODEL_PATH'', m)])\<rparr>"

text \<open>The \<open>pre_exec\<close> closures: mode A, the bytes process and the inference process of mode B.\<close>

definition pre_exec_a :: "nat \<Rightarrow> nat \<Rightarrow> fdtab \<Rightarrow> io_error + fdtab" where
  "pre_exec_a stdin_r_raw report_w_raw t = try_bind (dup2 stdin_r_raw 3 t) (\<lambda>t. dup2 report_w_raw 5 t)"

definition pre_exec_bytes :: "nat \<Rightarrow> nat \<Rightarrow> fdtab \<Rightarrow> io_error + fdtab" where
  "pre_exec_bytes h2b_r b2p_w t = try_bind (dup2 h2b_r 3 t) (\<lambda>t. dup2 b2p_w 7 t)"

definition pre_exec_priv :: "nat \<Rightarrow> nat \<Rightarrow> fdtab \<Rightarrow> io_error + fdtab" where
  "pre_exec_priv b2p_r p2h_w t = try_bind (dup2 b2p_r 3 t) (\<lambda>t. dup2 p2h_w 5 t)"

record host_env =
  env_pipe :: "nat \<Rightarrow> io_error option"
  env_spawn :: "nat \<Rightarrow> io_error option"
  env_model_path :: "ustr option"

fun read_to_end :: "read_answers \<Rightarrow> bytes \<Rightarrow> orchestrator_error + bytes" where
  "read_to_end [] out = Inr out"
| "read_to_end (Inl e # as) out = Inl (OrchNix e)"
| "read_to_end (Inr c # as) out = (if c = [] then Inr out else read_to_end as (out @ c))"

definition try_pipe :: "host_env \<Rightarrow> nat \<Rightarrow> fdtab \<Rightarrow> orchestrator_error + (nat \<times> nat \<times> fdtab)" where
  "try_pipe env i t = (case env_pipe env i of Some e \<Rightarrow> Inl (OrchNix e) | None \<Rightarrow> Inr (sys_pipe i t))"

definition try_spawn :: "host_env \<Rightarrow> nat \<Rightarrow> io_error + fdtab \<Rightarrow> orchestrator_error + fdtab" where
  "try_spawn env i pre =
     (case env_spawn env i of Some e \<Rightarrow> Inl (OrchIo e) | None \<Rightarrow> map_err OrchIo pre)"

text \<open>
  A child program: from its command, its descriptors and its input to the answers the host's reads
  of its output get and the outcome of waiting for it.
\<close>

type_synonym child = "command \<Rightarrow> fdtab \<Rightarrow> bytes \<Rightarrow> read_answers \<times> (io_error + bool)"

definition run_sandboxed :: "host_env \<Rightarrow> fdtab \<Rightarrow> kernel \<Rightarrow> child \<Rightarrow> file_entry list \<Rightarrow> ustr
    \<Rightarrow> orchestrator_error + bytes" where
  "run_sandboxed env t k reader fileset reader_binary =
     try_bind (try_pipe env 0 t) (\<lambda>(stdin_r, stdin_w, t).
     try_bind (try_pipe env 1 t) (\<lambda>(report_r, report_w, t).
     try_bind (try_spawn env 0 (pre_exec_a stdin_r report_w t)) (\<lambda>child_tab.
     case write_fileset_protocol (SandboxFd stdin_w) fileset k of
       (k', Inl e) \<Rightarrow> Inl e
     | (k', Inr _) \<Rightarrow>
         (let (answers, status) = reader (reader_command reader_binary) child_tab (k_out k' stdin_w) in
          try_bind (read_to_end answers []) (\<lambda>report.
          try_bind (map_err OrchIo status) (\<lambda>success.
          if \<not> success then Inl ReaderFailed else Inr report))))))"

type_synonym bytes_child = "command \<Rightarrow> fdtab \<Rightarrow> bytes \<Rightarrow> bytes \<times> (io_error + bool)"

definition run_sandboxed_mode_b :: "host_env \<Rightarrow> fdtab \<Rightarrow> kernel \<Rightarrow> bytes_child \<Rightarrow> child \<Rightarrow> file_entry list
    \<Rightarrow> ustr \<Rightarrow> ustr \<Rightarrow> orchestrator_error + bytes" where
  "run_sandboxed_mode_b env t k reader_bytes reader_priv fileset bytes_binary priv_binary =
     try_bind (try_pipe env 0 t) (\<lambda>(h2b_r, h2b_w, t).
     try_bind (try_pipe env 1 t) (\<lambda>(b2p_r, b2p_w, t).
     try_bind (try_pipe env 2 t) (\<lambda>(p2h_r, p2h_w, t).
     try_bind (try_spawn env 0 (pre_exec_bytes h2b_r b2p_w t)) (\<lambda>bytes_tab.
     try_bind (try_spawn env 1 (pre_exec_priv b2p_r p2h_w t)) (\<lambda>priv_tab.
     case write_fileset_protocol (SandboxFd h2b_w) fileset k of
       (k', Inl e) \<Rightarrow> Inl e
     | (k', Inr _) \<Rightarrow>
         (let (ipc, bytes_status) = reader_bytes (bytes_command bytes_binary) bytes_tab (k_out k' h2b_w);
              (answers, priv_status) =
                reader_priv (priv_command priv_binary (env_model_path env)) priv_tab ipc in
          try_bind (read_to_end answers []) (\<lambda>report.
          try_bind (map_err OrchIo bytes_status) (\<lambda>bytes_ok.
          try_bind (map_err OrchIo priv_status) (\<lambda>priv_ok.
          if \<not> bytes_ok \<or> \<not> priv_ok then Inl ReaderFailed else Inr report)))))))))"

section \<open>Descriptor tables\<close>

lemma fd_get_set [simp]: "fd_get (fd_set n ob t) m = (if m = n then Some ob else fd_get t m)"
  by (auto simp: fd_get_def fd_set_def nth_append nth_list_update)

lemma lowest_free_None: "fd_get t (lowest_free t) = None"
  by (induction t rule: lowest_free.induct) (auto simp: fd_get_def)

lemma lowest_free_least: "m < lowest_free t \<Longrightarrow> fd_get t m \<noteq> None"
proof (induction t arbitrary: m rule: lowest_free.induct)
  case (3 ob t)
  then show ?case
  proof (cases m)
    case (Suc k)
    then have "fd_get t k \<noteq> None" using 3 by simp
    then show ?thesis using Suc by (simp add: fd_get_def split: if_splits)
  qed (simp add: fd_get_def)
qed auto

lemma lowest_free_ge: "\<forall>m < n. fd_get t m \<noteq> None \<Longrightarrow> n \<le> lowest_free t"
  using lowest_free_None [of t] by (meson not_le_imp_less)

text \<open>Two pipe ends taken one after the other have increasing numbers above every open one.\<close>

lemma sys_pipe_fresh:
  assumes "sys_pipe i t = (r, w, t')" and "\<forall>m < n. fd_get t m \<noteq> None"
  shows "n \<le> r \<and> r < w \<and> (\<forall>m < Suc w. fd_get t' m \<noteq> None)
    \<and> fd_get t' = (fd_get t)(r \<mapsto> PipeR i, w \<mapsto> PipeW i) \<and> fd_get t r = None \<and> fd_get t w = None"
proof -
  define t1 where "t1 = fd_set (lowest_free t) (PipeR i) t"
  have r: "r = lowest_free t" and w: "w = lowest_free t1" and t': "t' = fd_set w (PipeW i) t1"
    using assms(1) by (auto simp: sys_pipe_def fd_alloc_def Let_def t1_def)
  have n: "n \<le> r" using lowest_free_ge [OF assms(2)] r by simp
  have "\<forall>m < Suc r. fd_get t1 m \<noteq> None"
    using lowest_free_least [of _ t] by (auto simp: t1_def r less_Suc_eq)
  then have rw: "r < w" using lowest_free_ge [of "Suc r" t1] w by simp
  moreover have "\<forall>m < Suc w. fd_get t' m \<noteq> None"
    using lowest_free_least [of _ t1] by (auto simp: t' w less_Suc_eq)
  moreover have "fd_get t' = (fd_get t)(r \<mapsto> PipeR i, w \<mapsto> PipeW i)"
    by (auto simp: t' t1_def r fun_eq_iff)
  moreover have "fd_get t r = None" "fd_get t w = None"
    using lowest_free_None [of t] lowest_free_None [of t1] rw r w by (auto simp: t1_def)
  ultimately show ?thesis using n by blast
qed

lemma dup2_get: "fd_get t old = Some ob \<Longrightarrow> dup2 old new t = Inr (fd_set new ob t)"
  by (simp add: dup2_def)

definition std_open :: "fdtab \<Rightarrow> bool" where
  "std_open t \<longleftrightarrow> (\<forall>m < 3. fd_get t m \<noteq> None)"

text \<open>The descriptors the two pipes of mode A leave in the host, and what the child gets.\<close>

lemma mode_a_fds:
  assumes "std_open t" and "sys_pipe 0 t = (stdin_r, stdin_w, t1)"
    and "sys_pipe 1 t1 = (report_r, report_w, t2)"
  shows "\<exists>c. pre_exec_a stdin_r report_w t2 = Inr c \<and> fd_get c 3 = Some (PipeR 0) \<and> fd_get c 5 = Some (PipeW 1)"
proof -
  note f0 = sys_pipe_fresh [OF assms(2) assms(1) [unfolded std_open_def]]
  then have b0: "\<forall>m < Suc stdin_w. fd_get t1 m \<noteq> None" by blast
  have p0: "3 \<le> stdin_r" "stdin_r < stdin_w" "fd_get t1 stdin_r = Some (PipeR 0)"
    using f0 by auto
  have p1: "stdin_w < report_r" "report_r < report_w" "fd_get t2 report_w = Some (PipeW 1)"
    "fd_get t2 stdin_r = Some (PipeR 0)"
    using sys_pipe_fresh [OF assms(3) b0] p0 by auto
  then show ?thesis using p0 by (simp add: pre_exec_a_def dup2_get)
qed

lemma mode_b_fds:
  assumes "std_open t" and "sys_pipe 0 t = (h2b_r, h2b_w, t1)"
    and "sys_pipe 1 t1 = (b2p_r, b2p_w, t2)" and "sys_pipe 2 t2 = (p2h_r, p2h_w, t3)"
  shows "\<exists>b p. pre_exec_bytes h2b_r b2p_w t3 = Inr b \<and> pre_exec_priv b2p_r p2h_w t3 = Inr p
    \<and> fd_get b 3 = Some (PipeR 0) \<and> fd_get b 7 = Some (PipeW 1)
    \<and> fd_get p 3 = Some (PipeR 1) \<and> fd_get p 5 = Some (PipeW 2)"
proof -
  note f0 = sys_pipe_fresh [OF assms(2) assms(1) [unfolded std_open_def]]
  then have b0: "\<forall>m < Suc h2b_w. fd_get t1 m \<noteq> None" by blast
  have p0: "3 \<le> h2b_r" "h2b_r < h2b_w" "fd_get t1 h2b_r = Some (PipeR 0)"
    using f0 by auto
  note f1 = sys_pipe_fresh [OF assms(3) b0]
  then have b1: "\<forall>m < Suc b2p_w. fd_get t2 m \<noteq> None" by blast
  have p1: "h2b_w < b2p_r" "b2p_r < b2p_w"
    "fd_get t2 b2p_w = Some (PipeW 1)" "fd_get t2 b2p_r = Some (PipeR 1)" "fd_get t2 h2b_r = Some (PipeR 0)"
    using f1 p0 by auto
  have p2: "b2p_w < p2h_r" "p2h_r < p2h_w" "fd_get t3 p2h_w = Some (PipeW 2)"
    "fd_get t3 b2p_w = Some (PipeW 1)" "fd_get t3 b2p_r = Some (PipeR 1)" "fd_get t3 h2b_r = Some (PipeR 0)"
    using sys_pipe_fresh [OF assms(4) b1] p1 p0 by auto
  then show ?thesis using p0 p1 by (simp add: pre_exec_bytes_def pre_exec_priv_def dup2_get)
qed

lemma mode_b_inherited:
  assumes "std_open t" and "sys_pipe 0 t = (h2b_r, h2b_w, t1)"
    and "sys_pipe 1 t1 = (b2p_r, b2p_w, t2)" and "sys_pipe 2 t2 = (p2h_r, p2h_w, t3)"
    and "pre_exec_priv b2p_r p2h_w t3 = Inr p"
  shows "fd_get p 3 = Some (PipeR 1) \<and> fd_get p b2p_w = Some (PipeW 1)"
proof -
  note f0 = sys_pipe_fresh [OF assms(2) assms(1) [unfolded std_open_def]]
  then have b0: "\<forall>m < Suc h2b_w. fd_get t1 m \<noteq> None" by blast
  note f1 = sys_pipe_fresh [OF assms(3) b0]
  then have b1: "\<forall>m < Suc b2p_w. fd_get t2 m \<noteq> None" by blast
  have n: "6 \<le> b2p_w" using f0 f1 by auto
  have "fd_get t3 b2p_w = Some (PipeW 1)" "fd_get t3 b2p_r = Some (PipeR 1)"
    "fd_get t3 p2h_w = Some (PipeW 2)" "b2p_w < p2h_w"
    using sys_pipe_fresh [OF assms(4) b1] f1 by auto
  then show ?thesis using n assms(5) by (auto simp: pre_exec_priv_def dup2_get)
qed

lemma read_to_end_content:
  "read_to_end as out = Inr r \<Longrightarrow> r = out @ content as"
  by (induction as out rule: read_to_end.induct) (auto split: if_splits)

section \<open>Properties\<close>

text \<open>When the host's standard descriptors are open, the reader of mode A finds the read end of the
  file-set pipe on descriptor 3 and the write end of the report pipe on descriptor 5, whatever other
  descriptors the host has open.\<close>

theorem mode_a_descriptors:
  assumes "std_open t"
  shows "case sys_pipe 0 t of (stdin_r, stdin_w, t1) \<Rightarrow>
         case sys_pipe 1 t1 of (report_r, report_w, t2) \<Rightarrow>
           (\<exists>c. pre_exec_a stdin_r report_w t2 = Inr c
              \<and> fd_get c 3 = Some (PipeR 0) \<and> fd_get c 5 = Some (PipeW 1))"
  using mode_a_fds [OF assms] by (auto split: prod.splits)

theorem mode_a_descriptors_witness:
  "std_open [Some (OtherObj 0), Some (OtherObj 1), Some (OtherObj 2), None, Some (OtherObj 4)]
   \<and> (case sys_pipe 0 [Some (OtherObj 0), Some (OtherObj 1), Some (OtherObj 2), None, Some (OtherObj 4)]
      of (stdin_r, stdin_w, t1) \<Rightarrow> case sys_pipe 1 t1 of (report_r, report_w, t2) \<Rightarrow>
           (\<exists>c. pre_exec_a stdin_r report_w t2 = Inr c
              \<and> fd_get c 3 = Some (PipeR 0) \<and> fd_get c 5 = Some (PipeW 1)))"
proof -
  have s: "std_open [Some (OtherObj 0), Some (OtherObj 1), Some (OtherObj 2), None, Some (OtherObj 4)]"
    by (auto simp: std_open_def fd_get_def numeral_eq_Suc less_Suc_eq)
  with mode_a_descriptors [OF s] show ?thesis by blast
qed

text \<open>In mode B the bytes process gets the file-set pipe on descriptor 3 and the IPC pipe's write end on
  descriptor 7, the inference process the IPC pipe's read end on 3 and the report pipe on 5; in
  particular the inference process never holds the file-set pipe on the descriptor it reads.\<close>

theorem mode_b_descriptors:
  assumes "std_open t"
  shows "case sys_pipe 0 t of (h2b_r, h2b_w, t1) \<Rightarrow>
         case sys_pipe 1 t1 of (b2p_r, b2p_w, t2) \<Rightarrow>
         case sys_pipe 2 t2 of (p2h_r, p2h_w, t3) \<Rightarrow>
           (\<exists>b p. pre_exec_bytes h2b_r b2p_w t3 = Inr b \<and> pre_exec_priv b2p_r p2h_w t3 = Inr p
              \<and> fd_get b 3 = Some (PipeR 0) \<and> fd_get b 7 = Some (PipeW 1)
              \<and> fd_get p 3 = Some (PipeR 1) \<and> fd_get p 5 = Some (PipeW 2))"
  using mode_b_fds [OF assms] by (auto split: prod.splits)

theorem mode_b_descriptors_witness:
  "std_open [Some (OtherObj 0), Some (OtherObj 1), Some (OtherObj 2)]
   \<and> (case sys_pipe 0 [Some (OtherObj 0), Some (OtherObj 1), Some (OtherObj 2)] of (h2b_r, h2b_w, t1) \<Rightarrow>
      case sys_pipe 1 t1 of (b2p_r, b2p_w, t2) \<Rightarrow> case sys_pipe 2 t2 of (p2h_r, p2h_w, t3) \<Rightarrow>
           (\<exists>b p. pre_exec_bytes h2b_r b2p_w t3 = Inr b \<and> pre_exec_priv b2p_r p2h_w t3 = Inr p
              \<and> fd_get b 3 = Some (PipeR 0) \<and> fd_get b 7 = Some (PipeW 1)
              \<and> fd_get p 3 = Some (PipeR 1) \<and> fd_get p 5 = Some (PipeW 2)))"
proof -
  have s: "std_open [Some (OtherObj 0), Some (OtherObj 1), Some (OtherObj 2)]"
    by (auto simp: std_open_def fd_get_def numeral_eq_Suc less_Suc_eq)
  with mode_b_descriptors [OF s] show ?thesis by blast
qed

text \<open>\<open>pipe(2)\<close> descriptors are inherited, and the inference process of mode B is spawned while the
  host still holds both ends of the IPC pipe: it always keeps the write end of the very pipe it reads, so
  it sees no end of file when the bytes process dies early.\<close>

theorem inference_keeps_ipc_writer:
  assumes "std_open t"
  shows "case sys_pipe 0 t of (h2b_r, h2b_w, t1) \<Rightarrow>
         case sys_pipe 1 t1 of (b2p_r, b2p_w, t2) \<Rightarrow>
         case sys_pipe 2 t2 of (p2h_r, p2h_w, t3) \<Rightarrow>
           (\<forall>p. pre_exec_priv b2p_r p2h_w t3 = Inr p \<longrightarrow>
              fd_get p 3 = Some (PipeR 1) \<and> fd_get p b2p_w = Some (PipeW 1))"
  using mode_b_inherited [OF assms] by (fastforce split: prod.splits)

theorem inference_keeps_ipc_writer_witness:
  "std_open [Some (OtherObj 0), Some (OtherObj 1), Some (OtherObj 2)]
   \<and> (case sys_pipe 0 [Some (OtherObj 0), Some (OtherObj 1), Some (OtherObj 2)] of (h2b_r, h2b_w, t1) \<Rightarrow>
      case sys_pipe 1 t1 of (b2p_r, b2p_w, t2) \<Rightarrow> case sys_pipe 2 t2 of (p2h_r, p2h_w, t3) \<Rightarrow>
           (\<forall>p. pre_exec_priv b2p_r p2h_w t3 = Inr p \<longrightarrow>
              fd_get p 3 = Some (PipeR 1) \<and> fd_get p b2p_w = Some (PipeW 1)))
   \<and> (\<exists>p. pre_exec_priv 5 8 (snd (snd (sys_pipe 2 (snd (snd (sys_pipe 1 (snd (snd (sys_pipe 0
        [Some (OtherObj 0), Some (OtherObj 1), Some (OtherObj 2)]))))))))) = Inr p)"
proof -
  have s: "std_open [Some (OtherObj 0), Some (OtherObj 1), Some (OtherObj 2)]"
    by (auto simp: std_open_def fd_get_def numeral_eq_Suc less_Suc_eq)
  moreover have "\<exists>p. pre_exec_priv 5 8 (snd (snd (sys_pipe 2 (snd (snd (sys_pipe 1 (snd (snd (sys_pipe 0
        [Some (OtherObj 0), Some (OtherObj 1), Some (OtherObj 2)]))))))))) = Inr p"
    by (simp add: sys_pipe_def fd_alloc_def pre_exec_priv_def dup2_def fd_get_def fd_set_def Let_def)
  ultimately show ?thesis using inference_keeps_ipc_writer [OF s] by blast
qed

end
