(* ===== verification/PipeNet.thy ===== *)
theory PipeNet
  imports Orchestrator
begin

section \<open>Processes joined by pipes, step by step\<close>

text \<open>
  \<open>Orchestrator\<close> runs each child after the host has written everything.  Here the processes interleave: a
  program says which system call it makes next and how it goes on, and \<open>proc_step\<close> performs one call of one
  process.  A pipe holds at most \<open>cap\<close> bytes.  A read takes some of what the pipe holds; it sees the end
  only when the pipe is empty and no process has its write end open, the reading one included.  A write puts
  in what fits while some process has the read end open and fails with \<open>EPIPE\<close> otherwise (Rust ignores
  \<open>SIGPIPE\<close>).  Calls that can do neither wait: they have no step.  An exiting process closes all it has open.
\<close>

datatype 'q action =
    Recv nat "bytes \<Rightarrow> 'q"
  | Send nat bytes "nat \<Rightarrow> 'q" 'q
  | CloseFd nat 'q
  | WaitFor nat "bool \<Rightarrow> 'q"
  | Exit bool
  | Halt

datatype 'q proc = Running fdtab 'q | Exited bool

record 'q net =
  procs :: "'q proc list"
  pipes :: "bytes list"

definition holds :: "fobj \<Rightarrow> 'q proc \<Rightarrow> bool" where
  "holds ob pr = (case pr of Running t q \<Rightarrow> Some ob \<in> set t | Exited ok \<Rightarrow> False)"

definition held :: "fobj \<Rightarrow> 'q net \<Rightarrow> bool" where
  "held ob n = list_ex (holds ob) (procs n)"

definition fd_close :: "nat \<Rightarrow> fdtab \<Rightarrow> fdtab" where
  "fd_close fd t = t[fd := None]"

definition resume :: "nat \<Rightarrow> 'q proc \<Rightarrow> 'q net \<Rightarrow> 'q net" where
  "resume i pr n = n\<lparr>procs := (procs n)[i := pr]\<rparr>"

definition set_pipe :: "nat \<Rightarrow> bytes \<Rightarrow> 'q net \<Rightarrow> 'q net" where
  "set_pipe p bs n = n\<lparr>pipes := (pipes n)[p := bs]\<rparr>"

inductive proc_step :: "nat \<Rightarrow> (nat \<Rightarrow> 'q \<Rightarrow> 'q action) \<Rightarrow> nat \<Rightarrow> 'q net \<Rightarrow> 'q net \<Rightarrow> bool"
  for cap :: nat and prog :: "nat \<Rightarrow> 'q \<Rightarrow> 'q action" where
  recv: "\<lbrakk>i < length (procs n); procs n ! i = Running t q; prog i q = Recv fd k; fd_get t fd = Some (PipeR p);
      p < length (pipes n); 0 < m; m \<le> length (pipes n ! p)\<rbrakk>
    \<Longrightarrow> proc_step cap prog i n (resume i (Running t (k (take m (pipes n ! p)))) (set_pipe p (drop m (pipes n ! p)) n))"
| eof: "\<lbrakk>i < length (procs n); procs n ! i = Running t q; prog i q = Recv fd k; fd_get t fd = Some (PipeR p);
      p < length (pipes n); pipes n ! p = []; \<not> held (PipeW p) n\<rbrakk>
    \<Longrightarrow> proc_step cap prog i n (resume i (Running t (k [])) n)"
| send: "\<lbrakk>i < length (procs n); procs n ! i = Running t q; prog i q = Send fd bs k e; fd_get t fd = Some (PipeW p);
      p < length (pipes n); held (PipeR p) n; 0 < m; m \<le> length bs; length (pipes n ! p) + m \<le> cap\<rbrakk>
    \<Longrightarrow> proc_step cap prog i n (resume i (Running t (k m)) (set_pipe p (pipes n ! p @ take m bs) n))"
| epipe: "\<lbrakk>i < length (procs n); procs n ! i = Running t q; prog i q = Send fd bs k e; fd_get t fd = Some (PipeW p);
      \<not> held (PipeR p) n; bs \<noteq> []\<rbrakk>
    \<Longrightarrow> proc_step cap prog i n (resume i (Running t e) n)"
| close: "\<lbrakk>i < length (procs n); procs n ! i = Running t q; prog i q = CloseFd fd q'\<rbrakk>
    \<Longrightarrow> proc_step cap prog i n (resume i (Running (fd_close fd t) q') n)"
| wait: "\<lbrakk>i < length (procs n); procs n ! i = Running t q; prog i q = WaitFor j k; j < length (procs n);
      procs n ! j = Exited ok\<rbrakk>
    \<Longrightarrow> proc_step cap prog i n (resume i (Running t (k ok)) n)"
| exit: "\<lbrakk>i < length (procs n); procs n ! i = Running t q; prog i q = Exit ok\<rbrakk>
    \<Longrightarrow> proc_step cap prog i n (resume i (Exited ok) n)"

text \<open>What each call of a running process can do.\<close>

lemma step_Recv:
  "procs n ! i = Running t q \<Longrightarrow> prog i q = Recv fd k \<Longrightarrow> proc_step cap prog i n n' \<longleftrightarrow> i < length (procs n) \<and>
     (\<exists>p. fd_get t fd = Some (PipeR p) \<and> p < length (pipes n) \<and>
        ((\<exists>m. 0 < m \<and> m \<le> length (pipes n ! p)
            \<and> n' = resume i (Running t (k (take m (pipes n ! p)))) (set_pipe p (drop m (pipes n ! p)) n))
         \<or> pipes n ! p = [] \<and> \<not> held (PipeW p) n \<and> n' = resume i (Running t (k [])) n))"
  by (auto elim!: proc_step.cases intro: proc_step.recv proc_step.eof)

lemma step_Send:
  "procs n ! i = Running t q \<Longrightarrow> prog i q = Send fd bs k e \<Longrightarrow> proc_step cap prog i n n' \<longleftrightarrow> i < length (procs n) \<and>
     (\<exists>p. fd_get t fd = Some (PipeW p) \<and>
        ((\<exists>m. p < length (pipes n) \<and> held (PipeR p) n \<and> 0 < m \<and> m \<le> length bs \<and> length (pipes n ! p) + m \<le> cap
            \<and> n' = resume i (Running t (k m)) (set_pipe p (pipes n ! p @ take m bs) n))
         \<or> \<not> held (PipeR p) n \<and> bs \<noteq> [] \<and> n' = resume i (Running t e) n))"
  by (auto elim!: proc_step.cases intro: proc_step.send proc_step.epipe)

lemma step_Close:
  "procs n ! i = Running t q \<Longrightarrow> prog i q = CloseFd fd q' \<Longrightarrow> proc_step cap prog i n n' \<longleftrightarrow>
     i < length (procs n) \<and> n' = resume i (Running (fd_close fd t) q') n"
  by (auto elim!: proc_step.cases intro: proc_step.close)

lemma step_Wait:
  "procs n ! i = Running t q \<Longrightarrow> prog i q = WaitFor j k \<Longrightarrow> proc_step cap prog i n n' \<longleftrightarrow> i < length (procs n) \<and>
     j < length (procs n) \<and> (\<exists>ok. procs n ! j = Exited ok \<and> n' = resume i (Running t (k ok)) n)"
  by (auto elim!: proc_step.cases intro: proc_step.wait)

lemma step_Exit:
  "procs n ! i = Running t q \<Longrightarrow> prog i q = Exit ok \<Longrightarrow> proc_step cap prog i n n' \<longleftrightarrow>
     i < length (procs n) \<and> n' = resume i (Exited ok) n"
  by (auto elim!: proc_step.cases intro: proc_step.exit)

lemma step_Halt: "procs n ! i = Running t q \<Longrightarrow> prog i q = Halt \<Longrightarrow> \<not> proc_step cap prog i n n'"
  by (auto elim!: proc_step.cases)

lemma step_Exited: "procs n ! i = Exited ok \<Longrightarrow> \<not> proc_step cap prog i n n'"
  by (auto elim!: proc_step.cases)

lemma step_index: "proc_step cap prog i n n' \<Longrightarrow> i < length (procs n)"
  by (auto elim!: proc_step.cases)

lemmas step_calls = step_Recv step_Send step_Close step_Wait step_Exit step_Halt step_Exited

text \<open>The processes run in any order.\<close>

definition net_step :: "nat \<Rightarrow> (nat \<Rightarrow> 'q \<Rightarrow> 'q action) \<Rightarrow> 'q net \<Rightarrow> 'q net \<Rightarrow> bool" where
  "net_step cap prog n n' \<longleftrightarrow> (\<exists>i. proc_step cap prog i n n')"

definition stuck :: "nat \<Rightarrow> (nat \<Rightarrow> 'q \<Rightarrow> 'q action) \<Rightarrow> 'q net \<Rightarrow> bool" where
  "stuck cap prog n \<longleftrightarrow> (\<nexists>n'. net_step cap prog n n')"

lemma resume_simps [simp]:
  "procs (resume i pr n) = (procs n)[i := pr]" "pipes (resume i pr n) = pipes n"
  "procs (set_pipe p bs n) = procs n" "pipes (set_pipe p bs n) = (pipes n)[p := bs]"
  by (simp_all add: resume_def set_pipe_def)

lemma fd_get_set_mem: "fd_get t fd = Some ob \<Longrightarrow> Some ob \<in> set t"
  by (auto simp: fd_get_def split: if_splits) (metis nth_mem)

lemma mem_fd_get: "Some ob \<in> set t \<Longrightarrow> \<exists>fd. fd_get t fd = Some ob"
  by (auto simp: fd_get_def in_set_conv_nth)

lemma fd_get_close [simp]: "fd_get (fd_close fd t) n = (if n = fd then None else fd_get t n)"
  by (auto simp: fd_get_def fd_close_def nth_list_update)

lemma holds_simps [simp]: "holds ob (Running t q) \<longleftrightarrow> Some ob \<in> set t" "\<not> holds ob (Exited ok)"
  by (simp_all add: holds_def)

lemma held_iff: "held ob n \<longleftrightarrow> (\<exists>i < length (procs n). holds ob (procs n ! i))"
  by (auto simp: held_def list_ex_length)

lemma heldI: "i < length (procs n) \<Longrightarrow> procs n ! i = Running t q \<Longrightarrow> fd_get t fd = Some ob \<Longrightarrow> held ob n"
  by (auto simp: held_iff dest: fd_get_set_mem intro!: exI [of _ i])

text \<open>Invariants and reachability.\<close>

lemma reach_inv:
  assumes "(net_step cap prog)\<^sup>*\<^sup>* n n'" and "P n"
    and "\<And>a b. P a \<Longrightarrow> net_step cap prog a b \<Longrightarrow> P b"
  shows "P n'"
  using assms by (induction rule: rtranclp_induct) auto

section \<open>Programs whose runs end\<close>

text \<open>
  Such a program has a rank that no call raises and every call but reading and writing data lowers, and a load
  (what it still has to write) that reading data does not raise while the rank stays and writing lowers.
\<close>

locale ranked_program =
  fixes prog :: "nat \<Rightarrow> 'q \<Rightarrow> 'q action" and rank load :: "'q \<Rightarrow> nat"
  assumes recv_data: "prog i q = Recv fd k \<Longrightarrow> c \<noteq> [] \<Longrightarrow>
      rank (k c) < rank q \<or> rank (k c) = rank q \<and> load (k c) \<le> load q"
    and recv_eof: "prog i q = Recv fd k \<Longrightarrow> rank (k []) < rank q"
    and send_some: "prog i q = Send fd bs g e \<Longrightarrow> 0 < m \<Longrightarrow> m \<le> length bs \<Longrightarrow>
      rank (g m) < rank q \<or> rank (g m) = rank q \<and> load (g m) < load q"
    and send_epipe: "prog i q = Send fd bs g e \<Longrightarrow> rank e < rank q"
    and close_rank: "prog i q = CloseFd fd q' \<Longrightarrow> rank q' < rank q"
    and wait_rank: "prog i q = WaitFor j w \<Longrightarrow> rank (w ok) < rank q"
begin

definition proc_rank :: "'q proc \<Rightarrow> nat" where
  "proc_rank pr = (case pr of Running t q \<Rightarrow> Suc (rank q) | Exited ok \<Rightarrow> 0)"

definition proc_load :: "'q proc \<Rightarrow> nat" where
  "proc_load pr = (case pr of Running t q \<Rightarrow> load q | Exited ok \<Rightarrow> 0)"

definition net_order :: "('q net \<times> 'q net) set" where
  "net_order = measures [\<lambda>n. sum_list (map proc_rank (procs n)), \<lambda>n. sum_list (map proc_load (procs n)),
     \<lambda>n. sum_list (map length (pipes n))]"

lemma wf_net_order: "wf net_order"
  by (simp add: net_order_def)

lemma sum_update: "i < length xs \<Longrightarrow> sum_list (map f (xs[i := y])) + f (xs ! i) = sum_list (map f xs) + (f y :: nat)"
  by (induction xs arbitrary: i) (auto split: nat.split)

lemma order_resume:
  assumes "i < length (procs n)" and "proc_rank pr < proc_rank (procs n ! i)"
  shows "(resume i pr n, n) \<in> net_order"
  using sum_update [OF assms(1), of proc_rank pr] assms(2) by (simp add: net_order_def)

lemma order_resume_pipe:
  assumes "i < length (procs n)" and "p < length (pipes n)"
    and "proc_rank pr < proc_rank (procs n ! i) \<or> proc_rank pr = proc_rank (procs n ! i)
      \<and> (proc_load pr < proc_load (procs n ! i)
         \<or> proc_load pr \<le> proc_load (procs n ! i) \<and> length bs < length (pipes n ! p))"
  shows "(resume i pr (set_pipe p bs n), n) \<in> net_order"
  using sum_update [OF assms(1), of proc_rank pr] sum_update [OF assms(1), of proc_load pr]
    sum_update [OF assms(2), of length bs] assms(3) by (auto simp: net_order_def)

lemma step_order: "proc_step cap prog i n n' \<Longrightarrow> (n', n) \<in> net_order"
proof (induction rule: proc_step.induct)
  case (recv i n t q fd k p m)
  then have "take m (pipes n ! p) \<noteq> []" by auto
  from recv_data [OF recv(3) this] recv show ?case
    by (intro order_resume_pipe) (auto simp: proc_rank_def proc_load_def)
next
  case (send i n t q fd bs k e p m)
  from send_some [OF send(3,7,8)] send show ?case
    by (intro order_resume_pipe) (auto simp: proc_rank_def proc_load_def)
qed (auto intro!: order_resume simp: proc_rank_def dest: recv_eof send_epipe close_rank wait_rank)

theorem runs_end: "wfP (\<lambda>n' n. net_step cap prog n n')"
  unfolding wfp_def by (rule wf_subset [OF wf_net_order]) (auto simp: net_step_def dest: step_order)

end

end
