(* ===== verification/Processes.thy ===== *)
theory Processes
  imports PipeNet Reader
begin

section \<open>The host and its readers as interleaved processes\<close>

text \<open>
  \<open>run_sandboxed\<close> and \<open>run_sandboxed_mode_b\<close> of \<open>crates/seck-host/src/orchestrator.rs\<close> after the spawns, and
  the reading and writing of the readers, as programs of \<open>PipeNet\<close>.  The host writes all chunks of the frame
  stream, closes its end, reads the report to the end and waits for the children in order.  A reader collects
  input until its parser stops (or the input ends), writes its output and exits.
\<close>

datatype phase =
    HostSend "bytes list"
  | HostRecv bytes
  | HostWait bytes "nat list" bool
  | HostEnd "orchestrator_error + bytes"
  | StageRead bytes
  | StageSend bytes bool

text \<open>Empty chunks make no system call.\<close>

definition host_send :: "bytes list \<Rightarrow> phase" where
  "host_send cs = HostSend (dropWhile (\<lambda>c. c = []) cs)"

definition host_wait :: "bytes \<Rightarrow> nat list \<Rightarrow> bool \<Rightarrow> phase" where
  "host_wait rep pids ok =
     (if pids = [] then HostEnd (if ok then Inr rep else Inl ReaderFailed) else HostWait rep pids ok)"

fun host_action :: "nat \<Rightarrow> nat \<Rightarrow> nat list \<Rightarrow> phase \<Rightarrow> phase action" where
  "host_action w r pids (HostSend []) = CloseFd w (HostRecv [])"
| "host_action w r pids (HostSend (c # cs)) =
     Send w c (\<lambda>m. host_send (drop m c # cs)) (HostEnd (Inl (OrchFd (FdIo (OsError 32)))))"
| "host_action w r pids (HostRecv rep) =
     Recv r (\<lambda>c. if c = [] then host_wait rep pids True else HostRecv (rep @ c))"
| "host_action w r pids (HostWait rep (j # js) ok) = WaitFor j (\<lambda>b. host_wait rep js (ok \<and> b))"
| "host_action w r pids q = Halt"

text \<open>
  A reader: the descriptors it reads and writes, when its parser stops and with what output and exit status,
  and what it does when the input ends before.
\<close>

record stage =
  st_in :: nat
  st_out :: nat
  st_dec :: "bytes \<Rightarrow> (bytes \<times> bool) option"
  st_fin :: "bytes \<Rightarrow> bytes \<times> bool"

definition stage_after :: "stage \<Rightarrow> bytes \<Rightarrow> phase" where
  "stage_after st acc = (case st_dec st acc of None \<Rightarrow> StageRead acc | Some (out, ok) \<Rightarrow> StageSend out ok)"

fun stage_action :: "stage \<Rightarrow> phase \<Rightarrow> phase action" where
  "stage_action st (StageRead acc) =
     Recv (st_in st) (\<lambda>c. if c = [] then case_prod StageSend (st_fin st acc) else stage_after st (acc @ c))"
| "stage_action st (StageSend bs ok) =
     (if bs = [] then Exit ok else Send (st_out st) bs (\<lambda>m. StageSend (drop m bs) ok) (StageSend [] False))"
| "stage_action st q = Halt"

text \<open>Process 0 is the host, process \<open>i\<close> the \<open>i\<close>-th reader; pipe \<open>i\<close> is written by process \<open>i\<close>.\<close>

definition chain_prog :: "nat \<Rightarrow> nat \<Rightarrow> stage list \<Rightarrow> nat \<Rightarrow> phase \<Rightarrow> phase action" where
  "chain_prog w r sts i q =
     (if i = 0 then host_action w r [1..<Suc (length sts)] q else stage_action (sts ! (i - 1)) q)"

definition chain_start :: "fdtab \<Rightarrow> bytes list \<Rightarrow> fdtab list \<Rightarrow> phase net" where
  "chain_start th cs tabs =
     \<lparr>procs = Running th (host_send cs) # map (\<lambda>t. Running t (StageRead [])) tabs,
      pipes = replicate (Suc (length tabs)) []\<rparr>"

subsection \<open>Every run ends\<close>

fun phase_rank :: "nat \<Rightarrow> phase \<Rightarrow> nat" where
  "phase_rank k (HostSend cs) = k + 3"
| "phase_rank k (HostRecv rep) = k + 2"
| "phase_rank k (HostWait rep js ok) = Suc (length js)"
| "phase_rank k (HostEnd res) = 0"
| "phase_rank k (StageRead acc) = 2"
| "phase_rank k (StageSend bs ok) = (if bs = [] then 0 else 1)"

fun phase_load :: "phase \<Rightarrow> nat" where
  "phase_load (HostSend cs) = length (concat cs)"
| "phase_load (StageSend bs ok) = length bs"
| "phase_load q = 0"

lemma host_send_load [simp]: "length (concat (dropWhile (\<lambda>c. c = []) cs)) = length (concat cs)"
  by (induction cs) auto

lemma host_send_concat [simp]: "concat (dropWhile (\<lambda>c. c = []) cs) = concat cs"
  by (induction cs) auto

lemma host_ranked:
  "host_action w r pids q = Recv fd k \<Longrightarrow> c \<noteq> [] \<Longrightarrow>
     phase_rank (length pids) (k c) = phase_rank (length pids) q \<and> phase_load (k c) \<le> phase_load q"
  "host_action w r pids q = Recv fd k \<Longrightarrow> phase_rank (length pids) (k []) < phase_rank (length pids) q"
  "host_action w r pids q = Send fd bs g e \<Longrightarrow> 0 < m \<Longrightarrow> m \<le> length bs \<Longrightarrow>
     phase_rank (length pids) (g m) = phase_rank (length pids) q \<and> phase_load (g m) < phase_load q"
  "host_action w r pids q = Send fd bs g e \<Longrightarrow> phase_rank (length pids) e < phase_rank (length pids) q"
  "host_action w r pids q = CloseFd fd q' \<Longrightarrow> phase_rank (length pids) q' < phase_rank (length pids) q"
  "host_action w r pids q = WaitFor j h \<Longrightarrow> phase_rank (length pids) (h ok) < phase_rank (length pids) q"
  by (induction w r pids q rule: host_action.induct) (auto simp: host_wait_def host_send_def)

lemma stage_ranked:
  "stage_action st q = Recv fd k \<Longrightarrow> c \<noteq> [] \<Longrightarrow> phase_rank n (k c) < phase_rank n q
     \<or> phase_rank n (k c) = phase_rank n q \<and> phase_load (k c) \<le> phase_load q"
  "stage_action st q = Recv fd k \<Longrightarrow> phase_rank n (k []) < phase_rank n q"
  "stage_action st q = Send fd bs g e \<Longrightarrow> 0 < m \<Longrightarrow> m \<le> length bs \<Longrightarrow> phase_rank n (g m) < phase_rank n q
     \<or> phase_rank n (g m) = phase_rank n q \<and> phase_load (g m) < phase_load q"
  "stage_action st q = Send fd bs g e \<Longrightarrow> phase_rank n e < phase_rank n q"
  "stage_action st q \<noteq> CloseFd fd q'" "stage_action st q \<noteq> WaitFor j h"
  by (induction st q rule: stage_action.induct)
    (auto simp: stage_after_def split: option.splits prod.splits if_splits)

interpretation chain: ranked_program "chain_prog w r sts" "phase_rank (length sts)" phase_load for w r sts
proof unfold_locales
  have len: "length [1..<Suc (length sts)] = length sts" by (simp del: upt_Suc)
  note host = host_ranked [where w = w and r = r and pids = "[1..<Suc (length sts)]", unfolded len]
  note stage = stage_ranked(1-4) [where n = "length sts"] stage_ranked(5,6)
  show "phase_rank (length sts) (k c) < phase_rank (length sts) q \<or>
      phase_rank (length sts) (k c) = phase_rank (length sts) q \<and> phase_load (k c) \<le> phase_load q"
    if "chain_prog w r sts i q = Recv fd k" "c \<noteq> []" for i q fd k c
    using that host(1) [of q fd k c] stage(1) [of "sts ! (i - 1)" q fd k c] by (auto simp: chain_prog_def simp del: upt_Suc split: if_split_asm)
  show "phase_rank (length sts) (k []) < phase_rank (length sts) q"
    if "chain_prog w r sts i q = Recv fd k" for i q fd k
    using that host(2) [of q fd k] stage(2) [of "sts ! (i - 1)" q fd k] by (auto simp: chain_prog_def simp del: upt_Suc split: if_split_asm)
  show "phase_rank (length sts) (g m) < phase_rank (length sts) q \<or>
      phase_rank (length sts) (g m) = phase_rank (length sts) q \<and> phase_load (g m) < phase_load q"
    if "chain_prog w r sts i q = Send fd bs g e" "0 < m" "m \<le> length bs" for i q fd bs g e m
    using that host(3) [of q fd bs g e m] stage(3) [of "sts ! (i - 1)" q fd bs g e m] by (auto simp: chain_prog_def simp del: upt_Suc split: if_split_asm)
  show "phase_rank (length sts) e < phase_rank (length sts) q"
    if "chain_prog w r sts i q = Send fd bs g e" for i q fd bs g e
    using that host(4) [of q fd bs g e] stage(4) [of "sts ! (i - 1)" q fd bs g e] by (auto simp: chain_prog_def simp del: upt_Suc split: if_split_asm)
  show "phase_rank (length sts) q' < phase_rank (length sts) q"
    if "chain_prog w r sts i q = CloseFd fd q'" for i q fd q'
    using that host(5) [of q fd q'] stage(5) [of "sts ! (i - 1)" q fd q'] by (auto simp: chain_prog_def simp del: upt_Suc split: if_split_asm)
  show "phase_rank (length sts) (h ok) < phase_rank (length sts) q"
    if "chain_prog w r sts i q = WaitFor j h" for i q j h ok
    using that host(6) [of q j h ok] stage(6) [of "sts ! (i - 1)" q j h] by (auto simp: chain_prog_def simp del: upt_Suc split: if_split_asm)
qed

subsection \<open>When every reader stops exactly at the end of its input\<close>

text \<open>What a process has still to put into the pipe it writes, when that pipe is to carry \<open>s\<close> in all.\<close>

definition feed :: "bytes \<Rightarrow> phase proc \<Rightarrow> bytes" where
  "feed s pr =
     (case pr of
        Running t (HostSend cs) \<Rightarrow> concat cs
      | Running t (StageRead acc) \<Rightarrow> s
      | Running t (StageSend rest ok) \<Rightarrow> rest
      | _ \<Rightarrow> [])"

lemma feed_simps [simp]:
  "feed s (Running t (host_send cs)) = concat cs" "feed s (Running t (HostSend cs)) = concat cs"
  "feed s (Running t (HostRecv rep)) = []" "feed s (Running t (HostWait rep js ok)) = []"
  "feed s (Running t (HostEnd res)) = []" "feed s (Running t (StageRead acc)) = s"
  "feed s (Running t (StageSend rest ok)) = rest" "feed s (Exited ok) = []"
  by (simp_all add: feed_def host_send_def)

text \<open>
  The contract of a chain of processes: the tables have the ends of the pipes, and each parser stops when and
  only when it has the whole of what the process before it writes.
\<close>

locale relay =
  fixes cap w r :: nat and th :: fdtab and cs :: "bytes list" and sts :: "stage list" and tabs :: "fdtab list"
    and S :: "nat \<Rightarrow> bytes" and oks :: "nat \<Rightarrow> bool"
  assumes cap: "0 < cap" and some_stage: "sts \<noteq> []" and tabs: "length tabs = length sts"
    and host_fds: "fd_get th w = Some (PipeW 0)" "fd_get th r = Some (PipeR (length sts))"
    and host_clean: "Some (PipeW (length sts)) \<notin> set th"
    and stage_fds: "j < length sts \<Longrightarrow> fd_get (tabs ! j) (st_in (sts ! j)) = Some (PipeR j)"
      "j < length sts \<Longrightarrow> fd_get (tabs ! j) (st_out (sts ! j)) = Some (PipeW (Suc j))"
    and S0: "S 0 = concat cs"
    and stops: "j < length sts \<Longrightarrow> st_dec (sts ! j) (S j) = Some (S (Suc j), oks (Suc j))"
    and goes_on: "j < length sts \<Longrightarrow> strict_prefix s (S j) \<Longrightarrow> st_dec (sts ! j) s = None"
    and waits: "j < length sts \<Longrightarrow> S j \<noteq> []"
begin

definition outcome_of :: "orchestrator_error + bytes" where
  "outcome_of = (if \<forall>j. 1 \<le> j \<and> j \<le> length sts \<longrightarrow> oks j then Inr (S (length sts)) else Inl ReaderFailed)"

definition stage_rel :: "nat \<Rightarrow> phase proc \<Rightarrow> bytes \<Rightarrow> bytes \<Rightarrow> bool" where
  "stage_rel i pr p u \<longleftrightarrow>
     (\<exists>acc. pr = Running (tabs ! (i - 1)) (StageRead acc) \<and> strict_prefix acc (S (i - 1)) \<and> acc @ p @ u = S (i - 1))
     \<or> (\<exists>rest. pr = Running (tabs ! (i - 1)) (StageSend rest (oks i))) \<and> p = [] \<and> u = []
     \<or> pr = Exited (oks i) \<and> p = [] \<and> u = []"

definition host_rel :: "phase proc \<Rightarrow> bool \<Rightarrow> bytes \<Rightarrow> bytes \<Rightarrow> bool" where
  "host_rel pr gone p u \<longleftrightarrow>
     (\<exists>cs'. pr = Running th (host_send cs') \<and> p @ u = S (length sts))
     \<or> (\<exists>rep. pr = Running (fd_close w th) (HostRecv rep) \<and> rep @ p @ u = S (length sts))
     \<or> (\<exists>m. pr = Running (fd_close w th) (HostWait (S (length sts)) [m..<Suc (length sts)] (\<forall>j. 1 \<le> j \<and> j < m \<longrightarrow> oks j))
          \<and> 1 \<le> m \<and> m \<le> length sts) \<and> gone
     \<or> pr = Running (fd_close w th) (HostEnd outcome_of) \<and> gone"

definition exited :: "phase proc \<Rightarrow> bool" where
  "exited pr \<longleftrightarrow> (\<exists>ok. pr = Exited ok)"

definition inv :: "phase net \<Rightarrow> bool" where
  "inv n \<longleftrightarrow> length (procs n) = Suc (length sts) \<and> length (pipes n) = Suc (length sts)
     \<and> (\<forall>i. 1 \<le> i \<and> i \<le> length sts \<longrightarrow>
          stage_rel i (procs n ! i) (pipes n ! (i - 1)) (feed (S (i - 1)) (procs n ! (i - 1))))
     \<and> host_rel (procs n ! 0) (exited (procs n ! length sts)) (pipes n ! length sts)
          (feed (S (length sts)) (procs n ! length sts))"

lemma inv_lengths: "inv n \<Longrightarrow> length (procs n) = Suc (length sts)" "inv n \<Longrightarrow> length (pipes n) = Suc (length sts)"
  by (simp_all add: inv_def)

lemma inv_stage: "inv n \<Longrightarrow> 1 \<le> i \<Longrightarrow> i \<le> length sts \<Longrightarrow>
    stage_rel i (procs n ! i) (pipes n ! (i - 1)) (feed (S (i - 1)) (procs n ! (i - 1)))"
  by (simp add: inv_def)

lemma inv_host: "inv n \<Longrightarrow> host_rel (procs n ! 0) (exited (procs n ! length sts)) (pipes n ! length sts)
    (feed (S (length sts)) (procs n ! length sts))"
  by (simp add: inv_def)

lemma k_pos: "1 \<le> length sts"
  using some_stage by (cases sts) auto

text \<open>Process \<open>i\<close> goes on as \<open>pr\<close> and pipe \<open>x\<close> now holds \<open>bs\<close>.\<close>

lemma inv_update_stage:
  assumes "inv n" and i: "1 \<le> i" "i \<le> length sts" and x: "x = i \<or> x = i - 1"
    and "stage_rel i pr ((pipes n)[x := bs] ! (i - 1)) (feed (S (i - 1)) (procs n ! (i - 1)))"
    and "i < length sts \<Longrightarrow> stage_rel (Suc i) (procs n ! Suc i) ((pipes n)[x := bs] ! i) (feed (S i) pr)"
    and "i = length sts \<Longrightarrow> host_rel (procs n ! 0) (exited pr) ((pipes n)[x := bs] ! i) (feed (S i) pr)"
  shows "inv (resume i pr (set_pipe x bs n))"
  unfolding inv_def
proof (intro conjI allI impI)
  fix j assume j: "1 \<le> j \<and> j \<le> length sts"
  consider "j = i" | "j = Suc i" | "j \<noteq> i" "j - 1 \<noteq> i" using i by linarith
  then show "stage_rel j (procs (resume i pr (set_pipe x bs n)) ! j) (pipes (resume i pr (set_pipe x bs n)) ! (j - 1))
      (feed (S (j - 1)) (procs (resume i pr (set_pipe x bs n)) ! (j - 1)))"
  proof cases
    case 1
    then show ?thesis using assms(5) i inv_lengths [OF assms(1)] by simp
  next
    case 2
    then show ?thesis using assms(6) i j inv_lengths [OF assms(1)] by simp
  next
    case 3
    then have "x \<noteq> j - 1" using x j by auto
    then show ?thesis using 3 inv_stage [OF assms(1), of j] j by (simp add: nth_list_update_neq)
  qed
next
  show "host_rel (procs (resume i pr (set_pipe x bs n)) ! 0) (exited (procs (resume i pr (set_pipe x bs n)) ! length sts))
      (pipes (resume i pr (set_pipe x bs n)) ! length sts)
      (feed (S (length sts)) (procs (resume i pr (set_pipe x bs n)) ! length sts))"
  proof (cases "i = length sts")
    case True
    then show ?thesis using assms(7) some_stage inv_lengths [OF assms(1)] by (simp add: nth_list_update_neq)
  next
    case False
    then have "x \<noteq> length sts" using x i by auto
    then show ?thesis using False i inv_host [OF assms(1)] by (simp add: nth_list_update_neq)
  qed
qed (use inv_lengths [OF assms(1)] in simp_all)

lemma inv_update_host:
  assumes "inv n" and x: "x = 0 \<or> x = length sts"
    and "stage_rel 1 (procs n ! 1) ((pipes n)[x := bs] ! 0) (feed (S 0) pr)"
    and "host_rel pr (exited (procs n ! length sts)) ((pipes n)[x := bs] ! length sts)
      (feed (S (length sts)) (procs n ! length sts))"
  shows "inv (resume 0 pr (set_pipe x bs n))"
  unfolding inv_def
proof (intro conjI allI impI)
  fix j assume j: "1 \<le> j \<and> j \<le> length sts"
  show "stage_rel j (procs (resume 0 pr (set_pipe x bs n)) ! j) (pipes (resume 0 pr (set_pipe x bs n)) ! (j - 1))
      (feed (S (j - 1)) (procs (resume 0 pr (set_pipe x bs n)) ! (j - 1)))"
  proof (cases "j = 1")
    case True
    then show ?thesis using assms(3) inv_lengths [OF assms(1)] k_pos by simp
  next
    case False
    then have "x \<noteq> j - 1" "j - 1 \<noteq> 0" using x j by auto
    then show ?thesis using inv_stage [OF assms(1), of j] j by (simp add: nth_list_update_neq)
  qed
next
  show "host_rel (procs (resume 0 pr (set_pipe x bs n)) ! 0) (exited (procs (resume 0 pr (set_pipe x bs n)) ! length sts))
      (pipes (resume 0 pr (set_pipe x bs n)) ! length sts)
      (feed (S (length sts)) (procs (resume 0 pr (set_pipe x bs n)) ! length sts))"
    using assms(4) some_stage inv_lengths [OF assms(1)] by (simp add: nth_list_update_neq)
qed (use inv_lengths [OF assms(1)] in simp_all)

lemma set_pipe_same: "set_pipe x (pipes n ! x) n = n"
  by (simp add: set_pipe_def)

lemma inv_stage_proc:
  assumes "inv n" and "1 \<le> i" and "i \<le> length sts"
    and "stage_rel i pr (pipes n ! (i - 1)) (feed (S (i - 1)) (procs n ! (i - 1)))"
    and "feed (S i) pr = feed (S i) (procs n ! i)" and "exited (procs n ! i) \<longrightarrow> exited pr"
  shows "inv (resume i pr n)"
proof -
  have "stage_rel (Suc i) (procs n ! Suc i) (pipes n ! i) (feed (S i) pr)" if "i < length sts"
    using inv_stage [OF assms(1), of "Suc i"] that assms(5) by simp
  moreover have "host_rel (procs n ! 0) (exited pr) (pipes n ! i) (feed (S i) pr)" if "i = length sts"
    using inv_host [OF assms(1)] that assms(5,6) by (auto simp: host_rel_def)
  ultimately show ?thesis
    using inv_update_stage [OF assms(1-3), of i pr "pipes n ! i"] assms(4) by (simp add: set_pipe_same)
qed

lemma prog_simps [simp]:
  "chain_prog w r sts 0 q = host_action w r [1..<Suc (length sts)] q"
  "1 \<le> i \<Longrightarrow> chain_prog w r sts i q = stage_action (sts ! (i - 1)) q"
  by (simp_all add: chain_prog_def)

lemma r_w: "r \<noteq> w"
  using host_fds by auto

lemma stage_reading:
  assumes "stage_rel i pr p u" and "u \<noteq> []"
  shows "\<exists>acc. pr = Running (tabs ! (i - 1)) (StageRead acc) \<and> strict_prefix acc (S (i - 1)) \<and> acc @ p @ u = S (i - 1)"
  using assms by (auto simp: stage_rel_def)

lemma stage_fed: "stage_rel i pr p (x @ u) \<Longrightarrow> x \<noteq> [] \<Longrightarrow> stage_rel i pr (p @ x) u"
  by (auto simp: stage_rel_def)

lemma stage_tables:
  assumes "1 \<le> i" and "i \<le> length sts"
  shows "fd_get (tabs ! (i - 1)) (st_in (sts ! (i - 1))) = Some (PipeR (i - 1))"
    "fd_get (tabs ! (i - 1)) (st_out (sts ! (i - 1))) = Some (PipeW i)"
  using stage_fds [of "i - 1"] assms by auto

lemma host_send_cases:
  obtains "host_send cs' = HostSend []" "concat cs' = []"
  | c cs'' where "host_send cs' = HostSend (c # cs'')" "c \<noteq> []" "concat cs' = c @ concat cs''"
proof (cases "dropWhile (\<lambda>c. c = []) cs'")
  case Nil
  with that(1) show ?thesis by (auto simp: host_send_def dropWhile_eq_Nil_conv)
next
  case (Cons c cs'')
  moreover from this have "c \<noteq> []" using hd_dropWhile [of "\<lambda>c. c = []" cs'] by simp
  moreover have "concat cs' = concat (dropWhile (\<lambda>c. c = []) cs')" by simp
  ultimately show ?thesis using that(2) by (simp add: host_send_def)
qed

text \<open>A process with something left to write holds its end of the pipe; the next process holds the other.\<close>

lemma writer_held:
  assumes "inv n" and "i \<le> length sts" and "feed (S i) (procs n ! i) \<noteq> []"
  shows "held (PipeW i) n"
proof (cases "i = 0")
  case True
  with inv_host [OF assms(1)] assms(3) have "\<exists>cs'. procs n ! 0 = Running th (host_send cs')"
    by (auto simp: host_rel_def)
  with True show ?thesis using heldI [of 0 n th _ w "PipeW 0"] host_fds inv_lengths [OF assms(1)] by auto
next
  case False
  then have i: "1 \<le> i" by simp
  from inv_stage [OF assms(1) i assms(2)] assms(3) obtain q where "procs n ! i = Running (tabs ! (i - 1)) q"
    by (auto simp: stage_rel_def)
  from heldI [OF _ this stage_tables(2) [OF i assms(2)]] assms(2) inv_lengths [OF assms(1)] show ?thesis by simp
qed

lemma reader_held:
  assumes "inv n" and "i \<le> length sts" and "feed (S i) (procs n ! i) \<noteq> []"
  shows "held (PipeR i) n"
proof (cases "i = length sts")
  case True
  have "\<not> exited (procs n ! i)" using assms(3) by (auto simp: exited_def)
  with inv_host [OF assms(1)] True obtain t q where "procs n ! 0 = Running t q" "fd_get t r = Some (PipeR (length sts))"
    by (auto simp: host_rel_def host_fds r_w)
  with True heldI [of 0 n t q r] inv_lengths [OF assms(1)] show ?thesis by simp
next
  case False
  with assms(2) have i: "1 \<le> Suc i" "Suc i \<le> length sts" by auto
  from stage_reading [OF inv_stage [OF assms(1) i]] assms(3)
  obtain q where "procs n ! Suc i = Running (tabs ! i) q" by auto
  from heldI [OF _ this] stage_tables(1) [OF i] i inv_lengths [OF assms(1)] show ?thesis by simp
qed

lemma host_writes_inv:
  assumes n: "inv n" and p: "procs n ! 0 = Running th (host_send cs')"
    and h: "pipes n ! length sts @ feed (S (length sts)) (procs n ! length sts) = S (length sts)"
    and step: "proc_step cap (chain_prog w r sts) 0 n n'"
  shows "inv n'"
proof (rule host_send_cases [of cs'])
  assume d: "host_send cs' = HostSend []" "concat cs' = []"
  from step have n': "n' = resume 0 (Running (fd_close w th) (HostRecv [])) (set_pipe 0 (pipes n ! 0) n)"
    using step_Close [OF p, of "chain_prog w r sts" w "HostRecv []"] d by (simp add: set_pipe_same)
  show ?thesis unfolding n'
    by (rule inv_update_host [OF n])
      (use inv_stage [OF n, of 1] k_pos p d h in \<open>auto simp: host_rel_def\<close>)
next
  fix c cs'' assume d: "host_send cs' = HostSend (c # cs'')" "c \<noteq> []" "concat cs' = c @ concat cs''"
  have u: "feed (S 0) (procs n ! 0) = c @ concat cs''" using p d by simp
  then have held: "held (PipeR 0) n" using reader_held [OF n, of 0] d by simp
  from step obtain m where m: "0 < m" "m \<le> length c"
    and n': "n' = resume 0 (Running th (host_send (drop m c # cs''))) (set_pipe 0 (pipes n ! 0 @ take m c) n)"
    using step_Send [OF p, of "chain_prog w r sts" w c] d host_fds held by auto
  have e: "take m c @ drop m c @ concat cs'' = c @ concat cs''" by (metis append_assoc append_take_drop_id)
  have "stage_rel 1 (procs n ! 1) (pipes n ! 0) (take m c @ drop m c @ concat cs'')"
    unfolding e using inv_stage [OF n, of 1] k_pos u by simp
  then have "stage_rel 1 (procs n ! 1) (pipes n ! 0 @ take m c) (drop m c @ concat cs'')"
    by (rule stage_fed) (use m d in auto)
  then show ?thesis unfolding n'
    by (intro inv_update_host [OF n])
      (use k_pos inv_lengths [OF n] h some_stage in \<open>auto simp: host_rel_def nth_list_update_neq\<close>)
qed

lemma host_reads_inv:
  assumes n: "inv n" and p: "procs n ! 0 = Running (fd_close w th) (HostRecv rep)"
    and h: "rep @ pipes n ! length sts @ feed (S (length sts)) (procs n ! length sts) = S (length sts)"
    and step: "proc_step cap (chain_prog w r sts) 0 n n'"
  shows "inv n'"
proof -
  let ?k = "length sts"
  define nx where "nx = (\<lambda>c. if c = [] then host_wait rep [1..<Suc ?k] True else HostRecv (rep @ c))"
  have act: "chain_prog w r sts 0 (HostRecv rep) = Recv r nx"
    by (simp add: nx_def del: upt_Suc One_nat_def)
  have r: "fd_get (fd_close w th) r = Some (PipeR ?k)" using host_fds r_w by simp
  have st: "stage_rel 1 (procs n ! 1) (pipes n ! 0) []" using inv_stage [OF n, of 1] k_pos p by simp
  from step_Recv [where prog = "chain_prog w r sts", OF p act] step r
  consider m where "0 < m" "m \<le> length (pipes n ! ?k)"
      "n' = resume 0 (Running (fd_close w th) (nx (take m (pipes n ! ?k)))) (set_pipe ?k (drop m (pipes n ! ?k)) n)"
    | "pipes n ! ?k = []" "\<not> held (PipeW ?k) n"
      "n' = resume 0 (Running (fd_close w th) (nx [])) n"
    by auto
  then show ?thesis
  proof cases
    case 1
    then have ne: "take m (pipes n ! ?k) \<noteq> []" by auto
    have "rep @ take m (pipes n ! ?k) @ drop m (pipes n ! ?k) @ feed (S ?k) (procs n ! ?k) = S ?k"
      using h by (metis append_assoc append_take_drop_id)
    then show ?thesis unfolding 1(3)
      by (intro inv_update_host [OF n])
        (use ne st inv_lengths [OF n] some_stage in \<open>auto simp: host_rel_def nx_def nth_list_update_neq simp del: upt_Suc\<close>)
  next
    case 2
    have u: "feed (S ?k) (procs n ! ?k) = []" using writer_held [OF n, of ?k] 2(2) by auto
    have "exited (procs n ! ?k)"
    proof (rule ccontr)
      assume "\<not> exited (procs n ! ?k)"
      with inv_stage [OF n k_pos] obtain q where "procs n ! ?k = Running (tabs ! (?k - 1)) q"
        by (auto simp: stage_rel_def exited_def)
      from heldI [OF _ this stage_tables(2) [OF k_pos]] 2(2) inv_lengths [OF n] show False by simp
    qed
    moreover have "host_wait rep [1..<Suc ?k] True = HostWait (S ?k) [1..<Suc ?k] (\<forall>j. 1 \<le> j \<and> j < 1 \<longrightarrow> oks j)"
      using h 2(1) u k_pos by (auto simp: host_wait_def simp del: upt_Suc)
    ultimately have "host_rel (Running (fd_close w th) (host_wait rep [1..<Suc ?k] True)) (exited (procs n ! ?k))
        (pipes n ! ?k) (feed (S ?k) (procs n ! ?k))"
      using k_pos unfolding host_rel_def by blast
    then have "inv (resume 0 (Running (fd_close w th) (host_wait rep [1..<Suc ?k] True)) (set_pipe 0 (pipes n ! 0) n))"
      by (intro inv_update_host [OF n]) (use st in \<open>auto simp: host_wait_def\<close>)
    then show ?thesis unfolding 2(3) by (simp add: nx_def set_pipe_same del: upt_Suc)
  qed
qed

lemma host_waits_inv:
  assumes n: "inv n" and m: "1 \<le> m" "m \<le> length sts"
    and p: "procs n ! 0 = Running (fd_close w th) (HostWait (S (length sts)) [m..<Suc (length sts)] (\<forall>j. 1 \<le> j \<and> j < m \<longrightarrow> oks j))"
    and gone: "exited (procs n ! length sts)" and step: "proc_step cap (chain_prog w r sts) 0 n n'"
  shows "inv n'"
proof -
  let ?k = "length sts" and ?ok = "\<forall>j. 1 \<le> j \<and> j < m \<longrightarrow> oks j"
  define nx where "nx = (\<lambda>b. host_wait (S ?k) [Suc m..<Suc ?k] (?ok \<and> b))"
  have e: "[m..<Suc ?k] = m # [Suc m..<Suc ?k]" using m by (simp add: upt_conv_Cons)
  have act: "chain_prog w r sts 0 (HostWait (S ?k) [m..<Suc ?k] ?ok) = WaitFor m nx"
    unfolding e by (simp add: nx_def del: upt_Suc)
  from step step_Wait [where prog = "chain_prog w r sts", OF p act]
  obtain b where b: "procs n ! m = Exited b" and n': "n' = resume 0 (Running (fd_close w th) (nx b)) n" by auto
  have ok: "b = oks m" using inv_stage [OF n m] b by (auto simp: stage_rel_def)
  then have all: "(?ok \<and> b) = (\<forall>j. 1 \<le> j \<and> j < Suc m \<longrightarrow> oks j)" using m by (auto simp: less_Suc_eq)
  have "host_rel (Running (fd_close w th) (nx b)) (exited (procs n ! ?k)) (pipes n ! ?k) (feed (S ?k) (procs n ! ?k))"
  proof (cases "m = ?k")
    case True
    then have "nx b = HostEnd outcome_of"
      unfolding nx_def all by (simp add: host_wait_def outcome_of_def less_Suc_eq_le)
    with gone show ?thesis by (simp add: host_rel_def)
  next
    case False
    then have "nx b = HostWait (S ?k) [Suc m..<Suc ?k] (\<forall>j. 1 \<le> j \<and> j < Suc m \<longrightarrow> oks j)"
      unfolding nx_def all using m by (auto simp: host_wait_def simp del: upt_Suc)
    with gone False m show ?thesis unfolding host_rel_def by (intro disjI2 disjI1 exI [of _ "Suc m"] conjI) auto
  qed
  moreover have "feed (S 0) (Running (fd_close w th) (nx b)) = feed (S 0) (procs n ! 0)"
    using p by (simp add: nx_def host_wait_def)
  ultimately have "inv (resume 0 (Running (fd_close w th) (nx b)) (set_pipe 0 (pipes n ! 0) n))"
    by (intro inv_update_host [OF n]) (use inv_stage [OF n, of 1] k_pos in simp_all)
  then show ?thesis unfolding n' by (simp add: set_pipe_same)
qed

lemma host_step_inv:
  assumes n: "inv n" and step: "proc_step cap (chain_prog w r sts) 0 n n'"
  shows "inv n'"
proof -
  from inv_host [OF n] consider cs' where "procs n ! 0 = Running th (host_send cs')"
      "pipes n ! length sts @ feed (S (length sts)) (procs n ! length sts) = S (length sts)"
    | rep where "procs n ! 0 = Running (fd_close w th) (HostRecv rep)"
      "rep @ pipes n ! length sts @ feed (S (length sts)) (procs n ! length sts) = S (length sts)"
    | m where "procs n ! 0 = Running (fd_close w th) (HostWait (S (length sts)) [m..<Suc (length sts)] (\<forall>j. 1 \<le> j \<and> j < m \<longrightarrow> oks j))"
      "1 \<le> m" "m \<le> length sts" "exited (procs n ! length sts)"
    | "procs n ! 0 = Running (fd_close w th) (HostEnd outcome_of)"
    unfolding host_rel_def by blast
  then show ?thesis
  proof cases
    case 4
    from step_Halt [where prog = "chain_prog w r sts", OF this] step show ?thesis by simp
  qed (use host_writes_inv [OF n _ _ step] host_reads_inv [OF n _ _ step] host_waits_inv [OF n _ _ _ _ step] in blast)+
qed

lemma stage_reads_inv:
  assumes n: "inv n" and i: "1 \<le> i" "i \<le> length sts"
    and p: "procs n ! i = Running (tabs ! (i - 1)) (StageRead acc)" and acc: "strict_prefix acc (S (i - 1))"
    and s: "acc @ pipes n ! (i - 1) @ feed (S (i - 1)) (procs n ! (i - 1)) = S (i - 1)"
    and step: "proc_step cap (chain_prog w r sts) i n n'"
  shows "inv n'"
proof -
  let ?t = "tabs ! (i - 1)" and ?st = "sts ! (i - 1)" and ?u = "feed (S (i - 1)) (procs n ! (i - 1))"
  define nx where "nx = (\<lambda>c. if c = [] then case_prod StageSend (st_fin ?st acc) else stage_after ?st (acc @ c))"
  have act: "chain_prog w r sts i (StageRead acc) = Recv (st_in ?st) nx"
    using i by (simp add: nx_def del: One_nat_def)
  have "held (PipeW (i - 1)) n" if "pipes n ! (i - 1) = []"
  proof (rule writer_held [OF n])
    show "feed (S (i - 1)) (procs n ! (i - 1)) \<noteq> []" using s acc that by auto
  qed (use i in simp)
  with step step_Recv [where prog = "chain_prog w r sts", OF p act] stage_tables(1) [OF i]
  obtain m where m: "0 < m" "m \<le> length (pipes n ! (i - 1))"
    and n': "n' = resume i (Running ?t (nx (take m (pipes n ! (i - 1))))) (set_pipe (i - 1) (drop m (pipes n ! (i - 1))) n)"
    by auto
  define acc' where "acc' = acc @ take m (pipes n ! (i - 1))"
  have nx: "nx (take m (pipes n ! (i - 1))) = stage_after ?st acc'" using m by (auto simp: nx_def acc'_def)
  have s': "acc' @ drop m (pipes n ! (i - 1)) @ ?u = S (i - 1)"
    using s unfolding acc'_def by (metis append_assoc append_take_drop_id)
  have st: "stage_rel i (Running ?t (stage_after ?st acc')) (drop m (pipes n ! (i - 1))) ?u
      \<and> feed (S i) (Running ?t (stage_after ?st acc')) = S i"
  proof (cases "strict_prefix acc' (S (i - 1))")
    case True
    with goes_on [of "i - 1" acc'] i have "stage_after ?st acc' = StageRead acc'" by (simp add: stage_after_def)
    with True s' show ?thesis by (simp add: stage_rel_def)
  next
    case False
    with s' have e: "acc' = S (i - 1)" by (metis prefixI prefix_order.le_less)
    with stops [of "i - 1"] i have "stage_after ?st acc' = StageSend (S i) (oks i)" by (simp add: stage_after_def)
    with e s' show ?thesis by (simp add: stage_rel_def)
  qed
  moreover have "feed (S i) (procs n ! i) = S i" "\<not> exited (procs n ! i)" using p by (simp_all add: exited_def)
  ultimately show ?thesis unfolding n' nx
    by (intro inv_update_stage [OF n i])
      (use i inv_lengths [OF n] inv_stage [OF n, of "Suc i"] inv_host [OF n] in
        \<open>auto simp: nth_list_update_neq exited_def\<close>)
qed

lemma stage_writes_inv:
  assumes n: "inv n" and i: "1 \<le> i" "i \<le> length sts"
    and p: "procs n ! i = Running (tabs ! (i - 1)) (StageSend rest (oks i))"
    and e: "pipes n ! (i - 1) = []" "feed (S (i - 1)) (procs n ! (i - 1)) = []"
    and step: "proc_step cap (chain_prog w r sts) i n n'"
  shows "inv n'"
proof (cases "rest = []")
  case True
  then have act: "chain_prog w r sts i (StageSend rest (oks i)) = Exit (oks i)" using i by simp
  from step step_Exit [where prog = "chain_prog w r sts", OF p act] have "n' = resume i (Exited (oks i)) n" by simp
  then show ?thesis using inv_stage_proc [OF n i] p e True by (simp add: stage_rel_def exited_def)
next
  case False
  let ?t = "tabs ! (i - 1)" and ?st = "sts ! (i - 1)"
  have act: "chain_prog w r sts i (StageSend rest (oks i)) =
      Send (st_out ?st) rest (\<lambda>m. StageSend (drop m rest) (oks i)) (StageSend [] False)"
    using i False by simp
  have u: "feed (S i) (procs n ! i) = rest" using p by simp
  have "held (PipeR i) n" using reader_held [OF n i(2)] u False by simp
  with step step_Send [where prog = "chain_prog w r sts", OF p act] stage_tables(2) [OF i]
  obtain m where m: "0 < m" "m \<le> length rest"
    and n': "n' = resume i (Running ?t (StageSend (drop m rest) (oks i))) (set_pipe i (pipes n ! i @ take m rest) n)"
    by auto
  have split: "rest = take m rest @ drop m rest" and tk: "take m rest \<noteq> []" using m False by auto
  have "stage_rel (Suc i) (procs n ! Suc i) (pipes n ! i @ take m rest) (drop m rest)" if "i < length sts"
    using inv_stage [OF n, of "Suc i"] that u split by (intro stage_fed [OF _ tk]) simp
  moreover have "host_rel (procs n ! 0) (exited (Running ?t (StageSend (drop m rest) (oks i))))
      (pipes n ! i @ take m rest) (drop m rest)" if "i = length sts"
    using inv_host [OF n] that p by (auto simp: host_rel_def exited_def)
  ultimately show ?thesis unfolding n'
    by (intro inv_update_stage [OF n i]) (use i e inv_lengths [OF n] in \<open>auto simp: stage_rel_def nth_list_update_neq\<close>)
qed

lemma inv_step: "inv n \<Longrightarrow> net_step cap (chain_prog w r sts) n n' \<Longrightarrow> inv n'"
proof -
  assume n: "inv n" and "net_step cap (chain_prog w r sts) n n'"
  then obtain i where step: "proc_step cap (chain_prog w r sts) i n n'" by (auto simp: net_step_def)
  show "inv n'"
  proof (cases "i = 0")
    case True
    with step host_step_inv [OF n] show ?thesis by simp
  next
    case False
    then have i: "1 \<le> i" "i \<le> length sts" using step_index [OF step] inv_lengths [OF n] by auto
    from inv_stage [OF n i] show ?thesis unfolding stage_rel_def
    proof (elim disjE exE conjE)
      show ?thesis if "procs n ! i = Exited (oks i)" using step_Exited [OF that] step by simp
    qed (use stage_reads_inv [OF n i _ _ _ step] stage_writes_inv [OF n i _ _ _ step] in blast)+
  qed
qed

text \<open>A net in which nothing can move has finished.\<close>

lemma stuck_no_step: "stuck cap (chain_prog w r sts) n \<Longrightarrow> \<not> proc_step cap (chain_prog w r sts) i n n'"
  by (auto simp: stuck_def net_step_def)

lemma recv_possible:
  assumes "procs n ! i = Running t q" and "chain_prog w r sts i q = Recv fd k" and "i < length (procs n)"
    and "fd_get t fd = Some (PipeR p)" and "p < length (pipes n)" and "pipes n ! p \<noteq> []"
  shows "\<not> stuck cap (chain_prog w r sts) n"
proof
  assume "stuck cap (chain_prog w r sts) n"
  from stuck_no_step [OF this] proc_step.recv [where prog = "chain_prog w r sts" and m = 1, OF assms(3,1,2,4,5)] assms(6) show False
    by (auto simp: Suc_le_eq)
qed

lemma send_possible:
  assumes "procs n ! i = Running t q" and "chain_prog w r sts i q = Send fd bs k e" and "i < length (procs n)"
    and "fd_get t fd = Some (PipeW p)" and "p < length (pipes n)" and "pipes n ! p = []" and "held (PipeR p) n" and "bs \<noteq> []"
  shows "\<not> stuck cap (chain_prog w r sts) n"
proof
  assume "stuck cap (chain_prog w r sts) n"
  from stuck_no_step [OF this] proc_step.send [where prog = "chain_prog w r sts" and m = 1 and cap = cap, OF assms(3,1,2,4,5,7)] assms(6,8) cap show False
    by (auto simp: Suc_le_eq)
qed

lemma stage_not_reading:
  assumes n: "inv n" and s: "stuck cap (chain_prog w r sts) n"
  shows "1 \<le> i \<Longrightarrow> i \<le> length sts \<Longrightarrow> procs n ! i \<noteq> Running t (StageRead acc)"
proof (induction i arbitrary: t acc)
  case (Suc i)
  show ?case
  proof
    assume p: "procs n ! Suc i = Running t (StageRead acc)"
    from inv_stage [OF n Suc.prems] p have t: "t = tabs ! i" and acc: "strict_prefix acc (S i)"
      and e: "acc @ pipes n ! i @ feed (S i) (procs n ! i) = S i"
      by (auto simp: stage_rel_def)
    have act: "\<exists>k. chain_prog w r sts (Suc i) (StageRead acc) = Recv (st_in (sts ! i)) k" by simp
    have len: "length (procs n) = Suc (length sts)" "length (pipes n) = Suc (length sts)" using inv_lengths [OF n] by auto
    have p0: "pipes n ! i = []"
      using recv_possible [OF p, of "st_in (sts ! i)"] act stage_tables(1) [OF Suc.prems] t s Suc.prems len by auto
    with e acc have u: "feed (S i) (procs n ! i) \<noteq> []" by auto
    have r: "held (PipeR i) n" using reader_held [OF n _ u] Suc.prems by simp
    show False
    proof (cases "i = 0")
      case True
      with u inv_host [OF n] obtain cs' where h: "procs n ! 0 = Running th (host_send cs')" by (auto simp: host_rel_def)
      show False
      proof (rule host_send_cases [of cs'])
        assume "concat cs' = []" with u h True show False by simp
      next
        fix c cs'' assume c: "host_send cs' = HostSend (c # cs'')" "c \<noteq> []"
        then have "\<exists>k e. chain_prog w r sts 0 (HostSend (c # cs'')) = Send w c k e" by simp
        with send_possible [of n 0 th "HostSend (c # cs'')" w c] h c host_fds p0 r True s len show False by auto
      qed
    next
      case False
      then have i: "1 \<le> i" "i \<le> length sts" using Suc.prems by auto
      from inv_stage [OF n i] Suc.IH [OF i] u obtain rest
        where q: "procs n ! i = Running (tabs ! (i - 1)) (StageSend rest (oks i))" "rest \<noteq> []"
        by (auto simp: stage_rel_def)
      then obtain k e where act: "chain_prog w r sts i (StageSend rest (oks i)) = Send (st_out (sts ! (i - 1))) rest k e"
        using i by simp
      from send_possible [OF q(1) act _ stage_tables(2) [OF i] _ p0 r q(2)] s len i show False by simp
    qed
  qed
qed simp

lemma stage_exited:
  assumes n: "inv n" and s: "stuck cap (chain_prog w r sts) n" and i: "1 \<le> i" "i \<le> length sts"
  shows "procs n ! i = Exited (oks i)"
proof (rule ccontr)
  assume "procs n ! i \<noteq> Exited (oks i)"
  with inv_stage [OF n i] stage_not_reading [OF n s i] obtain rest
    where q: "procs n ! i = Running (tabs ! (i - 1)) (StageSend rest (oks i))" by (auto simp: stage_rel_def)
  have len: "length (procs n) = Suc (length sts)" "length (pipes n) = Suc (length sts)" using inv_lengths [OF n] by auto
  have "chain_prog w r sts i (StageSend [] (oks i)) = Exit (oks i)" using i by simp
  then have rest: "rest \<noteq> []"
    using proc_step.exit [where prog = "chain_prog w r sts" and ok = "oks i" and cap = cap, OF _ q] stuck_no_step [OF s] i len by auto
  have u: "feed (S i) (procs n ! i) \<noteq> []" using q rest by simp
  have r: "held (PipeR i) n" using reader_held [OF n i(2) u] .
  obtain k e where act: "chain_prog w r sts i (StageSend rest (oks i)) = Send (st_out (sts ! (i - 1))) rest k e"
    using i rest by simp
  have p: "pipes n ! i \<noteq> []"
    using send_possible [OF q act _ stage_tables(2) [OF i] _ _ r rest] s len i by auto
  show False
  proof (cases "i = length sts")
    case False
    with inv_stage [OF n, of "Suc i"] stage_not_reading [OF n s, of "Suc i"] i u show False by (auto simp: stage_rel_def)
  next
    case True
    have "\<not> exited (procs n ! length sts)" using q True by (simp add: exited_def)
    with inv_host [OF n] consider cs' where "procs n ! 0 = Running th (host_send cs')"
      | rep where "procs n ! 0 = Running (fd_close w th) (HostRecv rep)" by (auto simp: host_rel_def)
    then show False
    proof cases
      case 1
      show False
      proof (rule host_send_cases [of cs'])
        assume "host_send cs' = HostSend []"
        with 1 have h: "procs n ! 0 = Running th (HostSend [])" by simp
        from proc_step.close [where prog = "chain_prog w r sts" and cap = cap and fd = w and q' = "HostRecv []", OF _ h] stuck_no_step [OF s] len show False by auto
      next
        fix c cs'' assume c: "host_send cs' = HostSend (c # cs'')" "c \<noteq> []"
        then have "feed (S 0) (procs n ! 0) \<noteq> []" using 1 by simp
        with inv_stage [OF n, of 1] stage_not_reading [OF n s, of 1] k_pos show False by (auto simp: stage_rel_def)
      qed
    next
      case 2
      have "\<exists>k. chain_prog w r sts 0 (HostRecv rep) = Recv r k" by simp
      with recv_possible [OF 2, of r] host_fds r_w p True s len show False by auto
    qed
  qed
qed

lemma stuck_finished:
  assumes n: "inv n" and s: "stuck cap (chain_prog w r sts) n"
  shows "\<exists>t. procs n ! 0 = Running t (HostEnd outcome_of)"
proof -
  let ?k = "length sts"
  note gone = stage_exited [OF n s]
  have len: "length (procs n) = Suc ?k" "length (pipes n) = Suc ?k" using inv_lengths [OF n] by auto
  from inv_host [OF n] consider cs' where "procs n ! 0 = Running th (host_send cs')"
    | rep where "procs n ! 0 = Running (fd_close w th) (HostRecv rep)"
    | m where "procs n ! 0 = Running (fd_close w th) (HostWait (S ?k) [m..<Suc ?k] (\<forall>j. 1 \<le> j \<and> j < m \<longrightarrow> oks j))" "1 \<le> m" "m \<le> ?k"
    | "procs n ! 0 = Running (fd_close w th) (HostEnd outcome_of)" unfolding host_rel_def by blast
  then show ?thesis
  proof cases
    case 1
    show ?thesis
    proof (rule host_send_cases [of cs'])
      assume "host_send cs' = HostSend []"
      with 1 have h: "procs n ! 0 = Running th (HostSend [])" by simp
      from proc_step.close [where prog = "chain_prog w r sts" and cap = cap and fd = w and q' = "HostRecv []", OF _ h] stuck_no_step [OF s] len show ?thesis by auto
    next
      fix c cs'' assume "host_send cs' = HostSend (c # cs'')" "c \<noteq> []"
      then have "feed (S 0) (procs n ! 0) \<noteq> []" using 1 by simp
      with inv_stage [OF n, of 1] gone [of 1] k_pos show ?thesis by (auto simp: stage_rel_def)
    qed
  next
    case 2
    have act: "\<exists>k. chain_prog w r sts 0 (HostRecv rep) = Recv r k" by simp
    have fd: "fd_get (fd_close w th) r = Some (PipeR ?k)" using host_fds r_w by simp
    have p: "pipes n ! ?k = []" using recv_possible [OF 2, of r] act fd s len by auto
    have "\<not> held (PipeW ?k) n"
    proof
      assume "held (PipeW ?k) n"
      then obtain i where i: "i \<le> ?k" "holds (PipeW ?k) (procs n ! i)" using len by (auto simp: held_iff less_Suc_eq_le)
      with gone [of i] 2 have "Some (PipeW ?k) \<in> set (fd_close w th)" by (cases "i = 0") auto
      then show False using host_clean set_update_subset_insert [of th w None] by (auto simp: fd_close_def)
    qed
    with act obtain k where "chain_prog w r sts 0 (HostRecv rep) = Recv r k" "\<not> held (PipeW ?k) n" by blast
    from proc_step.eof [where prog = "chain_prog w r sts" and cap = cap, OF _ 2 this(1) fd _ p this(2)]
      stuck_no_step [OF s] len show ?thesis by auto
  next
    case 3
    have e: "[m..<Suc ?k] = m # [Suc m..<Suc ?k]" using 3 by (simp add: upt_conv_Cons)
    have "\<exists>k. chain_prog w r sts 0 (HostWait (S ?k) [m..<Suc ?k] (\<forall>j. 1 \<le> j \<and> j < m \<longrightarrow> oks j)) = WaitFor m k"
      unfolding e by (simp del: upt_Suc)
    then obtain k where "chain_prog w r sts 0 (HostWait (S ?k) [m..<Suc ?k] (\<forall>j. 1 \<le> j \<and> j < m \<longrightarrow> oks j)) = WaitFor m k" ..
    from proc_step.wait [where prog = "chain_prog w r sts" and cap = cap, OF _ 3(1) this _ gone [OF 3(2,3)]]
      stuck_no_step [OF s] 3 len show ?thesis by auto
  qed blast
qed

lemma inv_start: "inv (chain_start th cs tabs)"
proof -
  have k: "length tabs = length sts" "sts \<noteq> []" using tabs some_stage by auto
  have rep: "(replicate (Suc (length sts)) [] :: bytes list) ! i = []" if "i \<le> length sts" for i
    using that by (simp del: replicate_Suc)
  have pr: "procs (chain_start th cs tabs) ! i = Running (tabs ! (i - 1)) (StageRead [])" if "1 \<le> i" "i \<le> length sts" for i
    using that k by (simp add: chain_start_def nth_Cons' )
  have fd: "feed (S (i - 1)) (procs (chain_start th cs tabs) ! (i - 1)) = S (i - 1)" if "1 \<le> i" "i \<le> length sts" for i
    using that pr [of "i - 1"] S0 by (cases "i = 1") (simp_all add: chain_start_def)
  have "stage_rel i (procs (chain_start th cs tabs) ! i) (pipes (chain_start th cs tabs) ! (i - 1))
      (feed (S (i - 1)) (procs (chain_start th cs tabs) ! (i - 1)))" if "1 \<le> i" "i \<le> length sts" for i
  proof -
    have "i - 1 < length sts" using that by simp
    with waits have "S (i - 1) \<noteq> []" by blast
    then show ?thesis unfolding fd [OF that] pr [OF that] using that rep [of "i - 1"] k
      by (auto simp: stage_rel_def chain_start_def strict_prefix_def simp del: replicate_Suc)
  qed
  moreover have "host_rel (procs (chain_start th cs tabs) ! 0) False (pipes (chain_start th cs tabs) ! length sts)
      (feed (S (length sts)) (procs (chain_start th cs tabs) ! length sts))"
    unfolding pr [OF k_pos order.refl] using rep [of "length sts"] k
    by (auto simp: host_rel_def chain_start_def simp del: replicate_Suc)
  moreover have "exited (procs (chain_start th cs tabs) ! length sts) = False"
    unfolding pr [OF k_pos order.refl] by (simp add: exited_def)
  moreover have "length (procs (chain_start th cs tabs)) = Suc (length sts)"
    "length (pipes (chain_start th cs tabs)) = Suc (length sts)" using k by (simp_all add: chain_start_def)
  ultimately show ?thesis unfolding inv_def by auto
qed

theorem completes:
  assumes "(net_step cap (chain_prog w r sts))\<^sup>*\<^sup>* (chain_start th cs tabs) n" and "stuck cap (chain_prog w r sts) n"
  shows "\<exists>t. procs n ! 0 = Running t (HostEnd outcome_of)"
  using stuck_finished [OF reach_inv [where P = inv, OF assms(1) inv_start inv_step] assms(2)] .

end

subsection \<open>What the host and a reader can do next\<close>

text \<open>\<open>broken_pipe\<close> is how a write that finds no reader ends the host.\<close>

definition broken_pipe :: "orchestrator_error + bytes" where
  "broken_pipe = Inl (OrchFd (FdIo (OsError 32)))"

lemma host_send_step:
  assumes p: "procs n ! 0 = Running th (host_send cs)" and fd: "fd_get th w = Some (PipeW 0)"
    and step: "proc_step cap (chain_prog w r sts) 0 n n'"
  obtains (closed) "concat cs = []" "n' = resume 0 (Running (fd_close w th) (HostRecv [])) n"
    | (sent) x cs' where "concat cs = x @ concat cs'" "held (PipeR 0) n"
        "n' = resume 0 (Running th (host_send cs')) (set_pipe 0 (pipes n ! 0 @ x) n)"
    | (broken) "\<not> held (PipeR 0) n" "n' = resume 0 (Running th (HostEnd broken_pipe)) n"
proof (cases "dropWhile (\<lambda>c. c = []) cs")
  case Nil
  with p have h: "procs n ! 0 = Running th (HostSend [])" by (simp add: host_send_def)
  have "n' = resume 0 (Running (fd_close w th) (HostRecv [])) n"
    using step step_Close [where prog = "chain_prog w r sts", OF h, of w "HostRecv []"] by (simp add: chain_prog_def)
  moreover have "concat cs = []" using host_send_concat [of cs] Nil by simp
  ultimately show thesis by (rule closed [rotated])
next
  case (Cons c cs')
  with p have h: "procs n ! 0 = Running th (HostSend (c # cs'))" by (simp add: host_send_def)
  have c: "concat cs = take m c @ concat (drop m c # cs')" for m using arg_cong [OF Cons, of concat] by simp
  from step step_Send [where prog = "chain_prog w r sts", OF h, of w c] fd consider
      m where "held (PipeR 0) n" "n' = resume 0 (Running th (host_send (drop m c # cs'))) (set_pipe 0 (pipes n ! 0 @ take m c) n)"
    | "\<not> held (PipeR 0) n" "n' = resume 0 (Running th (HostEnd broken_pipe)) n"
    by (auto simp: chain_prog_def broken_pipe_def)
  then show thesis
  proof cases
    case (1 m)
    then show thesis by (intro sent [OF c])
  qed (rule broken)
qed

lemma host_recv_cases:
  assumes p: "procs n ! 0 = Running t (HostRecv rep)" and fd: "fd_get t r = Some (PipeR i)"
    and step: "proc_step cap (chain_prog w r sts) 0 n n'"
  obtains (got) x y where "x \<noteq> []" "pipes n ! i = x @ y"
        "n' = resume 0 (Running t (HostRecv (rep @ x))) (set_pipe i y n)"
    | (ended) "pipes n ! i = []" "\<not> held (PipeW i) n"
        "n' = resume 0 (Running t (host_wait rep [1..<Suc (length sts)] True)) n"
proof -
  define nx where "nx = (\<lambda>c. if c = [] then host_wait rep [1..<Suc (length sts)] True else HostRecv (rep @ c))"
  have act: "chain_prog w r sts 0 (HostRecv rep) = Recv r nx" by (simp add: chain_prog_def nx_def del: upt_Suc One_nat_def)
  from step step_Recv [where prog = "chain_prog w r sts", OF p act] fd consider
      m where "0 < m" "m \<le> length (pipes n ! i)"
        "n' = resume 0 (Running t (nx (take m (pipes n ! i)))) (set_pipe i (drop m (pipes n ! i)) n)"
    | "pipes n ! i = []" "\<not> held (PipeW i) n" "n' = resume 0 (Running t (nx [])) n"
    by auto
  then show thesis
  proof cases
    case (1 m)
    then have "take m (pipes n ! i) \<noteq> []" by auto
    with 1(3) show thesis by (intro got [of "take m (pipes n ! i)" "drop m (pipes n ! i)"]) (auto simp: nx_def)
  qed (use ended in \<open>simp add: nx_def del: upt_Suc\<close>)
qed

lemma host_recv_step:
  assumes "procs n ! 0 = Running t (HostRecv rep)" and "fd_get t r = Some (PipeR i)" and "pipes n ! i = []"
    and "proc_step cap (chain_prog w r sts) 0 n n'"
  shows "\<not> held (PipeW i) n \<and> n' = resume 0 (Running t (host_wait rep [1..<Suc (length sts)] True)) n"
  using assms(1,2,4) by (cases rule: host_recv_cases) (use assms(3) in auto)

lemma stage_read_step:
  assumes p: "procs n ! Suc j = Running t (StageRead acc)" and fd: "fd_get t (st_in (sts ! j)) = Some (PipeR i)"
    and step: "proc_step cap (chain_prog w r sts) (Suc j) n n'"
  obtains (got) x y where "x \<noteq> []" "pipes n ! i = x @ y"
        "n' = resume (Suc j) (Running t (stage_after (sts ! j) (acc @ x))) (set_pipe i y n)"
    | (ended) "pipes n ! i = []" "\<not> held (PipeW i) n"
        "n' = resume (Suc j) (Running t (case_prod StageSend (st_fin (sts ! j) acc))) n"
proof -
  define nx where "nx = (\<lambda>c. if c = [] then case_prod StageSend (st_fin (sts ! j) acc) else stage_after (sts ! j) (acc @ c))"
  have act: "chain_prog w r sts (Suc j) (StageRead acc) = Recv (st_in (sts ! j)) nx"
    by (simp add: chain_prog_def nx_def)
  from step step_Recv [where prog = "chain_prog w r sts", OF p act] fd consider
      m where "0 < m" "m \<le> length (pipes n ! i)"
        "n' = resume (Suc j) (Running t (nx (take m (pipes n ! i)))) (set_pipe i (drop m (pipes n ! i)) n)"
    | "pipes n ! i = []" "\<not> held (PipeW i) n" "n' = resume (Suc j) (Running t (nx [])) n"
    by auto
  then show thesis
  proof cases
    case (1 m)
    then have "take m (pipes n ! i) \<noteq> []" by auto
    with 1(3) show thesis by (intro got [of "take m (pipes n ! i)" "drop m (pipes n ! i)"]) (auto simp: nx_def)
  qed (use ended in \<open>simp add: nx_def\<close>)
qed

lemma stage_send_step:
  assumes p: "procs n ! Suc j = Running t (StageSend bs ok)" "bs \<noteq> []" and fd: "fd_get t (st_out (sts ! j)) = Some (PipeW i)"
    and step: "proc_step cap (chain_prog w r sts) (Suc j) n n'"
  obtains (sent) x y where "bs = x @ y" "n' = resume (Suc j) (Running t (StageSend y ok)) (set_pipe i (pipes n ! i @ x) n)"
    | (broken) "\<not> held (PipeR i) n"
proof -
  have act: "chain_prog w r sts (Suc j) (StageSend bs ok)
      = Send (st_out (sts ! j)) bs (\<lambda>m. StageSend (drop m bs) ok) (StageSend [] False)"
    using p(2) by (simp add: chain_prog_def)
  from step step_Send [where prog = "chain_prog w r sts", OF p(1) act] fd consider
      m where "n' = resume (Suc j) (Running t (StageSend (drop m bs) ok)) (set_pipe i (pipes n ! i @ take m bs) n)"
    | "\<not> held (PipeR i) n" by auto
  then show thesis
  proof cases
    case (1 m)
    then show thesis by (intro sent [of "take m bs" "drop m bs"]) simp_all
  qed (rule broken)
qed

lemma stage_exit_step:
  "procs n ! Suc j = Running t (StageSend [] ok) \<Longrightarrow> proc_step cap (chain_prog w r sts) (Suc j) n n'
     \<longleftrightarrow> Suc j < length (procs n) \<and> n' = resume (Suc j) (Exited ok) n"
  by (rule step_Exit [where q = "StageSend [] ok"]) (simp_all add: chain_prog_def)

lemma host_send_eq: "host_send cs = host_send cs' \<Longrightarrow> concat cs = concat cs'"
  by (metis host_send_concat host_send_def phase.inject(1))

lemma host_send_not_end [simp]: "host_send cs \<noteq> HostEnd res" "HostEnd res \<noteq> host_send cs"
  by (simp_all add: host_send_def)

end
