(* ===== verification/Waiting.thy ===== *)
theory Waiting
  imports Processes
begin

text \<open>
  What becomes of the processes of \<open>Processes\<close> when a reader does not take its whole input: the first reader waits
  for more (both modes), or the bytes process gives up (mode B).  Each part has an invariant of the reachable states.
\<close>

section \<open>When the first reader is left waiting\<close>

text \<open>
  The input ends before the parser of the first reader stops, and some reader has the write end of the pipe
  the first one reads: the end of that pipe is never seen.
\<close>

definition starvable :: "nat \<Rightarrow> nat \<Rightarrow> fdtab \<Rightarrow> bytes \<Rightarrow> stage list \<Rightarrow> fdtab list \<Rightarrow> bool" where
  "starvable w r th S sts tabs \<longleftrightarrow> sts \<noteq> [] \<and> length tabs = length sts
     \<and> fd_get th w = Some (PipeW 0) \<and> fd_get th r = Some (PipeR (length sts))
     \<and> (\<forall>j < length sts. fd_get (tabs ! j) (st_in (sts ! j)) = Some (PipeR j)
          \<and> fd_get (tabs ! j) (st_out (sts ! j)) = Some (PipeW (Suc j)))
     \<and> Some (PipeW 0) \<in> set (tabs ! 0)
     \<and> (\<forall>s. prefix s S \<longrightarrow> st_dec (sts ! 0) s = None)"

definition starved :: "nat \<Rightarrow> fdtab \<Rightarrow> bytes \<Rightarrow> fdtab list \<Rightarrow> phase net \<Rightarrow> bool" where
  "starved w th S tabs n \<longleftrightarrow> length (procs n) = Suc (length tabs) \<and> length (pipes n) = Suc (length tabs)
     \<and> (\<forall>i. 1 \<le> i \<and> i \<le> length tabs \<longrightarrow> pipes n ! i = [] \<and>
          (\<exists>acc. procs n ! i = Running (tabs ! (i - 1)) (StageRead acc) \<and> (i = 1 \<longrightarrow> prefix (acc @ pipes n ! 0) S)))
     \<and> ((\<exists>cs. procs n ! 0 = Running th (host_send cs)
            \<and> (\<forall>acc. procs n ! 1 = Running (tabs ! 0) (StageRead acc) \<longrightarrow> acc @ pipes n ! 0 @ concat cs = S))
        \<or> procs n ! 0 = Running (fd_close w th) (HostRecv []))"

lemma starved_stage:
  "starved w th S tabs n \<Longrightarrow> 1 \<le> i \<Longrightarrow> i \<le> length tabs \<Longrightarrow>
     pipes n ! i = [] \<and> (\<exists>acc. procs n ! i = Running (tabs ! (i - 1)) (StageRead acc) \<and> (i = 1 \<longrightarrow> prefix (acc @ pipes n ! 0) S))"
  by (simp add: starved_def)

lemma starved_writer:
  assumes v: "starvable w r th S sts tabs" and n: "starved w th S tabs n" and i: "i \<le> length sts"
  shows "held (PipeW i) n"
proof (cases "i = 0")
  case True
  have k: "1 \<le> length tabs" "Some (PipeW 0) \<in> set (tabs ! 0)" "tabs \<noteq> []" using v by (auto simp: starvable_def Suc_le_eq)
  from starved_stage [OF n, of 1] k obtain q where "procs n ! 1 = Running (tabs ! 0) q" by auto
  moreover have "1 < length (procs n)" using n k by (simp add: starved_def)
  ultimately show ?thesis using k(2) True by (auto simp: held_iff intro!: exI [of _ 1])
next
  case False
  then have i': "1 \<le> i" "i \<le> length tabs" "i - 1 < length sts" using v i by (auto simp: starvable_def)
  then have fd: "fd_get (tabs ! (i - 1)) (st_out (sts ! (i - 1))) = Some (PipeW i)"
    using v by (auto simp: starvable_def)
  from starved_stage [OF n i'(1,2)] obtain q where "procs n ! i = Running (tabs ! (i - 1)) q" by auto
  from heldI [OF _ this fd] i' n show ?thesis by (simp add: starved_def)
qed

lemma starved_host:
  assumes v: "starvable w r th S sts tabs" and n: "starved w th S tabs n"
    and step: "proc_step cap (chain_prog w r sts) 0 n n'"
  shows "starved w th S tabs n'"
proof -
  have k: "1 \<le> length tabs" "length tabs = length sts" "r \<noteq> w" using v by (auto simp: starvable_def Suc_le_eq)
  have len: "length (procs n) = Suc (length tabs)" "length (pipes n) = Suc (length tabs)" using n by (auto simp: starved_def)
  from starved_stage [OF n, of 1] k obtain acc where acc: "procs n ! 1 = Running (tabs ! 0) (StageRead acc)"
    "prefix (acc @ pipes n ! 0) S" by auto
  have fd: "fd_get th w = Some (PipeW 0)" "fd_get (fd_close w th) r = Some (PipeR (length sts))"
    using v k by (simp_all add: starvable_def)
  have held: "held (PipeR 0) n"
    using heldI [of 1 n "tabs ! 0" "StageRead acc" "st_in (sts ! 0)"] acc v len k by (auto simp: starvable_def)
  from n acc consider cs where "procs n ! 0 = Running th (host_send cs)" "acc @ pipes n ! 0 @ concat cs = S"
    | "procs n ! 0 = Running (fd_close w th) (HostRecv [])" by (auto simp: starved_def)
  then show ?thesis
  proof cases
    case 1
    from 1(1) fd(1) step show ?thesis
    proof (cases rule: host_send_step)
      case closed
      then show ?thesis using n k len by (auto simp: starved_def)
    next
      case (sent x cs')
      have e: "acc @ (pipes n ! 0 @ x) @ concat cs' = S" using 1(2) sent(1) by simp
      then have pre: "prefix (acc @ pipes n ! 0 @ x) S" by (metis append_assoc prefixI)
      have p': "1 \<le> j \<Longrightarrow> procs n' ! j = procs n ! j" "1 \<le> j \<Longrightarrow> pipes n' ! j = pipes n ! j"
        "pipes n' ! 0 = pipes n ! 0 @ x" "procs n' ! 0 = Running th (host_send cs')" for j
        using len by (simp_all add: sent(3) nth_list_update_neq)
      have "\<exists>acc. procs n' ! j = Running (tabs ! (j - 1)) (StageRead acc) \<and> (j = 1 \<longrightarrow> prefix (acc @ pipes n' ! 0) S)"
        if "1 \<le> j" "j \<le> length tabs" for j
        using starved_stage [OF n that] p'(1) [OF that(1)] p'(3) pre acc by (cases "j = 1") auto
      moreover have "pipes n' ! j = []" if "1 \<le> j" "j \<le> length tabs" for j
        using starved_stage [OF n that] p'(2) [OF that(1)] by simp
      moreover have "length (procs n') = Suc (length tabs)" "length (pipes n') = Suc (length tabs)"
        using len by (simp_all add: sent(3))
      ultimately show ?thesis using p'(1) [of 1] p'(3,4) acc e unfolding starved_def by auto
    qed (use held in simp)
  next
    case 2
    have "pipes n ! length sts = []" using starved_stage [OF n, of "length sts"] k by simp
    from host_recv_step [OF 2 fd(2) this step] starved_writer [OF v n, of "length sts"] show ?thesis by simp
  qed
qed

lemma starved_reader:
  assumes v: "starvable w r th S sts tabs" and n: "starved w th S tabs n" and j: "Suc j \<le> length tabs"
    and step: "proc_step cap (chain_prog w r sts) (Suc j) n n'"
  shows "starved w th S tabs n'"
proof -
  have k: "length tabs = length sts" using v by (simp add: starvable_def)
  have len: "length (procs n) = Suc (length tabs)" "length (pipes n) = Suc (length tabs)" using n by (auto simp: starved_def)
  from starved_stage [OF n _ j] obtain acc where p: "procs n ! Suc j = Running (tabs ! j) (StageRead acc)"
    and acc: "j = 0 \<longrightarrow> prefix (acc @ pipes n ! 0) S" by auto
  have fd: "fd_get (tabs ! j) (st_in (sts ! j)) = Some (PipeR j)" using v j k by (simp add: starvable_def)
  from p fd step show ?thesis
  proof (cases rule: stage_read_step)
    case (got x y)
    have j0: "j = 0" using starved_stage [OF n, of j] got j by (cases j) auto
    have pre: "prefix ((acc @ x) @ y) S" using acc j0 got(2) by simp
    then have "prefix (acc @ x) S" by (metis append_prefixD)
    then have n': "n' = resume 1 (Running (tabs ! 0) (StageRead (acc @ x))) (set_pipe 0 y n)"
      using v got(3) j0 by (simp add: stage_after_def starvable_def)
    have p1: "procs n' ! 1 = Running (tabs ! 0) (StageRead (acc @ x))" "pipes n' ! 0 = y" "procs n' ! 0 = procs n ! 0"
      "i \<noteq> 1 \<Longrightarrow> procs n' ! i = procs n ! i" "1 \<le> i \<Longrightarrow> pipes n' ! i = pipes n ! i" for i
      using j j0 len by (simp_all add: n' Suc_le_eq nth_list_update_neq)
    have "\<exists>acc. procs n' ! i = Running (tabs ! (i - 1)) (StageRead acc) \<and> (i = 1 \<longrightarrow> prefix (acc @ pipes n' ! 0) S)"
      if "1 \<le> i" "i \<le> length tabs" for i
      using starved_stage [OF n that] p1(1,2) p1(4) [of i] pre by (cases "i = 1") auto
    moreover have "pipes n' ! i = []" if "1 \<le> i" "i \<le> length tabs" for i
      using starved_stage [OF n that] p1(5) [OF that(1)] by simp
    moreover have "length (procs n') = Suc (length tabs)" "length (pipes n') = Suc (length tabs)"
      using len by (simp_all add: n')
    ultimately show ?thesis using n p j0 got(2) p1(1-3) unfolding starved_def by auto
  qed (use starved_writer [OF v n, of j] j k in simp)
qed

lemma starved_for_ever:
  assumes v: "starvable w r th (concat cs) sts tabs"
    and reach: "(net_step cap (chain_prog w r sts))\<^sup>*\<^sup>* (chain_start th cs tabs) n"
  shows "procs n ! 0 \<noteq> Running tab (HostEnd res)"
proof -
  have start: "starved w th (concat cs) tabs (chain_start th cs tabs)"
    using v by (auto simp: starved_def chain_start_def starvable_def nth_Cons')
  have step: "starved w th (concat cs) tabs b"
    if "starved w th (concat cs) tabs a" "net_step cap (chain_prog w r sts) a b" for a b
  proof -
    from that(2) obtain i where i: "proc_step cap (chain_prog w r sts) i a b" by (auto simp: net_step_def)
    with step_index [OF i] that(1) have "i \<le> length tabs" by (simp add: starved_def)
    then show ?thesis
      using starved_host [OF v that(1)] starved_reader [OF v that(1)] i by (cases i) auto
  qed
  have "starved w th (concat cs) tabs n" using reach by (rule reach_inv) (fact start, erule (1) step)
  then show ?thesis by (auto simp: starved_def)
qed

section \<open>When the bytes process of mode B gives up\<close>

text \<open>
  The bytes process refuses the stream and writes nothing; the inference process holds the write end of the
  pipe it reads.
\<close>

definition refusing :: "nat \<Rightarrow> nat \<Rightarrow> fdtab \<Rightarrow> bytes \<Rightarrow> stage \<Rightarrow> stage \<Rightarrow> fdtab \<Rightarrow> fdtab \<Rightarrow> bool" where
  "refusing w r th S bs ps tb tp \<longleftrightarrow>
     fd_get th w = Some (PipeW 0) \<and> fd_get th r = Some (PipeR 2)
     \<and> fd_get tb (st_in bs) = Some (PipeR 0) \<and> fd_get tp (st_in ps) = Some (PipeR 1)
     \<and> Some (PipeW 1) \<in> set tp \<and> Some (PipeW 2) \<in> set tp
     \<and> (\<forall>s. prefix s S \<longrightarrow> (case st_dec bs s of None \<Rightarrow> True | Some (out, ok) \<Rightarrow> out = []) \<and> fst (st_fin bs s) = [])"

definition host_waits :: "nat \<Rightarrow> fdtab \<Rightarrow> phase proc \<Rightarrow> bytes \<Rightarrow> bool" where
  "host_waits w th h u \<longleftrightarrow> (\<exists>cs. h = Running th (host_send cs) \<and> concat cs = u)
     \<or> h = Running (fd_close w th) (HostRecv []) \<and> u = []"

lemma host_waits_intros [intro]:
  "host_waits w th (Running th (host_send cs)) (concat cs)"
  "host_waits w th (Running (fd_close w th) (HostRecv [])) []"
  by (auto simp: host_waits_def)

lemma host_waits_send: "host_waits w th (Running th (host_send cs)) u \<Longrightarrow> u = concat cs"
  by (auto simp: host_waits_def dest: host_send_eq) (simp add: host_send_def)

lemma host_waits_recv: "host_waits w th (Running t (HostRecv rep)) u \<Longrightarrow> u = []"
  by (auto simp: host_waits_def host_send_def)

text \<open>One step of a host that waits, when the report pipe \<open>i\<close> is empty.\<close>

lemma host_waits_step:
  assumes "host_waits w th (procs n ! 0) u" and fd: "fd_get th w = Some (PipeW 0)" "fd_get th r = Some (PipeR i)"
    and "pipes n ! i = []" and step: "proc_step cap (chain_prog w r sts) 0 n n'"
  obtains (goes_on) h x u' where "n' = resume 0 h (set_pipe 0 (pipes n ! 0 @ x) n)" "u = x @ u'" "host_waits w th h u'"
    | (broken) "\<not> held (PipeR 0) n" "n' = resume 0 (Running th (HostEnd broken_pipe)) n"
    | (ended) "\<not> held (PipeW i) n" "n' = resume 0 (Running (fd_close w th) (host_wait [] [1..<Suc (length sts)] True)) n"
proof -
  have ne: "r \<noteq> w" using fd by auto
  have same: "set_pipe 0 (pipes n ! 0 @ []) n = n" by (simp add: set_pipe_def)
  from assms(1) consider cs where "procs n ! 0 = Running th (host_send cs)" "u = concat cs"
    | "procs n ! 0 = Running (fd_close w th) (HostRecv [])"
    by (auto simp: host_waits_def)
  then show thesis
  proof cases
    case 1
    from 1(1) fd(1) step show thesis
    proof (cases rule: host_send_step)
      case closed
      then show thesis using goes_on [of "Running (fd_close w th) (HostRecv [])" "[]" "[]"] 1(2) same by auto
    next
      case (sent x cs')
      then show thesis using goes_on [of "Running th (host_send cs')" x "concat cs'"] 1(2) by auto
    qed (rule broken)
  next
    case 2
    have "fd_get (fd_close w th) r = Some (PipeR i)" using fd ne by simp
    from host_recv_step [OF 2 this assms(4) step] show thesis using ended by blast
  qed
qed

definition silent :: "nat \<Rightarrow> fdtab \<Rightarrow> bytes \<Rightarrow> fdtab \<Rightarrow> fdtab \<Rightarrow> phase net \<Rightarrow> bool" where
  "silent w th S tb tp n \<longleftrightarrow> (\<exists>p h b. n = \<lparr>procs = [h, b, Running tp (StageRead [])], pipes = [p, [], []]\<rparr> \<and>
     ((\<exists>acc u. b = Running tb (StageRead acc) \<and> host_waits w th h u \<and> acc @ p @ u = S)
      \<or> ((\<exists>ok. b = Running tb (StageSend [] ok)) \<or> (\<exists>ok. b = Exited ok))
         \<and> ((\<exists>u. host_waits w th h u) \<or> h = Running th (HostEnd broken_pipe))))"

lemma host_end_step: "procs n ! 0 = Running t (HostEnd res) \<Longrightarrow> \<not> proc_step cap (chain_prog w r sts) 0 n n'"
  by (rule step_Halt [where q = "HostEnd res"]) (simp_all add: chain_prog_def)

lemma silent_host:
  assumes v: "refusing w r th S bs ps tb tp" and n: "silent w th S tb tp n"
    and step: "proc_step cap (chain_prog w r [bs, ps]) 0 n n'"
  shows "silent w th S tb tp n'"
proof -
  from n obtain p h b where n': "n = \<lparr>procs = [h, b, Running tp (StageRead [])], pipes = [p, [], []]\<rparr>"
    and hb: "(\<exists>acc u. b = Running tb (StageRead acc) \<and> host_waits w th h u \<and> acc @ p @ u = S)
      \<or> ((\<exists>ok. b = Running tb (StageSend [] ok)) \<or> (\<exists>ok. b = Exited ok))
         \<and> ((\<exists>u. host_waits w th h u) \<or> h = Running th (HostEnd broken_pipe))"
    unfolding silent_def by blast
  have "h \<noteq> Running th (HostEnd broken_pipe)" using host_end_step step by (auto simp: n')
  with hb obtain u where u: "host_waits w th h u"
    and b: "(\<exists>acc. b = Running tb (StageRead acc) \<and> acc @ p @ u = S)
      \<or> (\<exists>ok. b = Running tb (StageSend [] ok)) \<or> (\<exists>ok. b = Exited ok)" by blast
  have fd: "fd_get th w = Some (PipeW 0)" "fd_get th r = Some (PipeR 2)" using v by (auto simp: refusing_def)
  have "host_waits w th (procs n ! 0) u" "pipes n ! 2 = []" using u by (simp_all add: n' numeral_2_eq_2)
  from this(1) fd this(2) step show ?thesis
  proof (cases rule: host_waits_step)
    case (goes_on h' x u')
    then have "n' = \<lparr>procs = [h', b, Running tp (StageRead [])], pipes = [p @ x, [], []]\<rparr>"
      by (simp add: n' resume_def set_pipe_def)
    with goes_on(2,3) b show ?thesis unfolding silent_def by auto
  next
    case broken
    have "b \<noteq> Running tb (StageRead acc)" for acc
      using heldI [of 1 n tb "StageRead acc" "st_in bs" "PipeR 0"] v broken(1) by (auto simp: n' refusing_def)
    with b show ?thesis unfolding broken(2) n' silent_def by (auto simp: resume_def)
  next
    case ended
    then show ?thesis using v by (auto simp: held_def n' refusing_def)
  qed
qed

lemma silent_bytes:
  assumes v: "refusing w r th S bs ps tb tp" and n: "silent w th S tb tp n"
    and step: "proc_step cap (chain_prog w r [bs, ps]) (Suc 0) n n'"
  shows "silent w th S tb tp n'"
proof -
  from n obtain p h b where n': "n = \<lparr>procs = [h, b, Running tp (StageRead [])], pipes = [p, [], []]\<rparr>"
    and hb: "(\<exists>acc u. b = Running tb (StageRead acc) \<and> host_waits w th h u \<and> acc @ p @ u = S)
      \<or> ((\<exists>ok. b = Running tb (StageSend [] ok)) \<or> (\<exists>ok. b = Exited ok))
         \<and> ((\<exists>u. host_waits w th h u) \<or> h = Running th (HostEnd broken_pipe))"
    unfolding silent_def by blast
  consider acc u where "b = Running tb (StageRead acc)" "host_waits w th h u" "acc @ p @ u = S"
    | ok where "b = Running tb (StageSend [] ok)" | ok where "b = Exited ok" using hb by blast
  then show ?thesis
  proof cases
    case (1 acc u)
    have b1: "procs n ! Suc 0 = Running tb (StageRead acc)" by (simp add: n' 1)
    have fd: "fd_get tb (st_in ([bs, ps] ! 0)) = Some (PipeR 0)" using v by (simp add: refusing_def)
    have quiet: "(\<exists>ok. stage_after bs s = StageSend [] ok) \<or> stage_after bs s = StageRead s" if "prefix s S" for s
      using v that by (auto simp: refusing_def stage_after_def split: option.splits)
    have "prefix acc S" using 1(3) by (metis prefixI)
    then have fin: "\<exists>ok. case_prod StageSend (st_fin bs acc) = StageSend [] ok"
      using v by (cases "st_fin bs acc") (auto simp: refusing_def)
    from b1 fd step show ?thesis
    proof (cases rule: stage_read_step)
      case (got x y)
      then have e: "(acc @ x) @ y @ u = S" using 1(3) by (simp add: n')
      then have "prefix (acc @ x) S" by (metis prefixI)
      from quiet [OF this] show ?thesis using e 1(2) unfolding got(3) n' silent_def
        by (auto simp: resume_def set_pipe_def)
    next
      case ended
      then show ?thesis using fin 1(2) unfolding ended(3) n' silent_def by (auto simp: resume_def)
    qed
  next
    case (2 ok)
    have "n' = resume (Suc 0) (Exited ok) n" using stage_exit_step [of n 0 tb ok] step by (simp add: n' 2)
    then show ?thesis using hb 2 unfolding n' silent_def by (auto simp: resume_def)
  next
    case (3 ok)
    then show ?thesis using step_Exited [of n "Suc 0" ok] step by (simp add: n')
  qed
qed

lemma silent_priv:
  assumes v: "refusing w r th S bs ps tb tp" and n: "silent w th S tb tp n"
  shows "\<not> proc_step cap (chain_prog w r [bs, ps]) (Suc 1) n n'"
proof
  assume step: "proc_step cap (chain_prog w r [bs, ps]) (Suc 1) n n'"
  have p: "procs n ! Suc 1 = Running tp (StageRead [])" and e: "pipes n ! 1 = []" and h: "held (PipeW 1) n"
    using n v by (auto simp: silent_def refusing_def held_def)
  have "fd_get tp (st_in ([bs, ps] ! 1)) = Some (PipeR 1)" using v by (simp add: refusing_def)
  from p this step show False by (cases rule: stage_read_step) (use e h in auto)
qed

lemma silent_for_ever:
  assumes v: "refusing w r th (concat cs) bs ps tb tp"
    and reach: "(net_step cap (chain_prog w r [bs, ps]))\<^sup>*\<^sup>* (chain_start th cs [tb, tp]) n"
  shows "procs n ! 2 = Running tp (StageRead []) \<and> (procs n ! 0 = Running tab (HostEnd res) \<longrightarrow> res = broken_pipe)"
proof -
  have start: "silent w th (concat cs) tb tp (chain_start th cs [tb, tp])"
    unfolding silent_def chain_start_def by fastforce
  have step: "silent w th (concat cs) tb tp b"
    if "silent w th (concat cs) tb tp a" "net_step cap (chain_prog w r [bs, ps]) a b" for a b
  proof -
    from that(2) obtain i where i: "proc_step cap (chain_prog w r [bs, ps]) i a b" by (auto simp: net_step_def)
    with step_index [OF i] that(1) have "i = 0 \<or> i = Suc 0 \<or> i = Suc 1" by (auto simp: silent_def)
    then show ?thesis
      using silent_host [OF v that(1)] silent_bytes [OF v that(1)] silent_priv [OF v that(1)] i by blast
  qed
  have "silent w th (concat cs) tb tp n" using reach
    by (rule reach_inv) (fact start, erule (1) step)
  then show ?thesis by (auto simp: silent_def host_waits_def)
qed

end
