(* ===== verification/Stopping.thy ===== *)
theory Stopping
  imports Waiting
begin

text \<open>
  Readers that decide before the input has ended: the reader of mode A refuses the stream or leaves bytes behind, the
  bytes process of mode B leaves bytes behind.  The host ends all the same, with the result of the readers or the
  error of a write that found nobody to read.  The invariants are inductive predicates: one rule for each stage of
  a run.
\<close>

text \<open>A process that can make its call is not stuck.\<close>

lemma host_send_moves:
  assumes p: "procs n ! 0 = Running th (host_send cs)" and fd: "fd_get th w = Some (PipeW 0)"
    and len: "0 < length (procs n)" "0 < length (pipes n)"
    and room: "held (PipeR 0) n \<Longrightarrow> length (pipes n ! 0) < cap"
  shows "\<exists>n'. proc_step cap (chain_prog w r sts) 0 n n'"
proof (cases "dropWhile (\<lambda>c. c = []) cs")
  case Nil
  with p have h: "procs n ! 0 = Running th (HostSend [])" by (simp add: host_send_def)
  show ?thesis using step_Close [where prog = "chain_prog w r sts", OF h, of w "HostRecv []"] len by (simp add: chain_prog_def)
next
  case (Cons c cs')
  then have c: "0 < length c" using hd_dropWhile [of "\<lambda>c. c = []" cs] by auto
  from Cons p have h: "procs n ! 0 = Running th (HostSend (c # cs'))" by (simp add: host_send_def)
  have act: "chain_prog w r sts 0 (HostSend (c # cs')) = Send w c (\<lambda>m. host_send (drop m c # cs')) (HostEnd broken_pipe)"
    by (simp add: chain_prog_def broken_pipe_def)
  show ?thesis
  proof (cases "held (PipeR 0) n")
    case True
    from proc_step.send [where prog = "chain_prog w r sts", OF len(1) h act fd len(2) True, of 1 cap] c room [OF True]
    show ?thesis by (auto simp: Suc_le_eq)
  next
    case False
    from proc_step.epipe [where prog = "chain_prog w r sts" and cap = cap, OF len(1) h act fd False] c
    show ?thesis by (metis length_greater_0_conv)
  qed
qed

lemma host_waits_moves:
  assumes w: "host_waits w th (procs n ! 0) u" and fd: "fd_get th w = Some (PipeW 0)" "fd_get th r = Some (PipeR i)"
    and len: "0 < length (procs n)" "i < length (pipes n)" and e: "pipes n ! i = []"
    and room: "held (PipeR 0) n \<Longrightarrow> length (pipes n ! 0) < cap" and gone: "u = [] \<Longrightarrow> \<not> held (PipeW i) n"
  shows "\<exists>n'. proc_step cap (chain_prog w r sts) 0 n n'"
proof -
  have ne: "r \<noteq> w" using fd by auto
  from w consider cs where "procs n ! 0 = Running th (host_send cs)"
    | "procs n ! 0 = Running (fd_close w th) (HostRecv [])" "u = []"
    by (auto simp: host_waits_def)
  then show ?thesis
  proof cases
    case 1
    show ?thesis by (rule host_send_moves [OF 1 fd(1) len(1) _ room]) (use len in auto)
  next
    case 2
    obtain nx where act: "chain_prog w r sts 0 (HostRecv []) = Recv r nx" by (simp add: chain_prog_def)
    have fd': "fd_get (fd_close w th) r = Some (PipeR i)" using fd ne by simp
    from proc_step.eof [where prog = "chain_prog w r sts", OF len(1) 2(1) act fd' len(2) e gone [OF 2(2)]]
    show ?thesis by blast
  qed
qed

lemma host_recv_moves:
  assumes p: "procs n ! 0 = Running t (HostRecv rep)" and fd: "fd_get t r = Some (PipeR i)"
    and len: "0 < length (procs n)" "i < length (pipes n)" and ready: "pipes n ! i \<noteq> [] \<or> \<not> held (PipeW i) n"
  shows "\<exists>n'. proc_step cap (chain_prog w r sts) 0 n n'"
proof -
  obtain nx where act: "chain_prog w r sts 0 (HostRecv rep) = Recv r nx" by (simp add: chain_prog_def)
  show ?thesis
    using proc_step.recv [where prog = "chain_prog w r sts", OF len(1) p act fd len(2), of "Suc 0" cap]
      proc_step.eof [where prog = "chain_prog w r sts" and cap = cap, OF len(1) p act fd len(2)] ready
    by (cases "pipes n ! i") auto
qed

lemma stage_read_moves:
  assumes p: "procs n ! Suc j = Running t (StageRead acc)" and fd: "fd_get t (st_in (sts ! j)) = Some (PipeR i)"
    and len: "Suc j < length (procs n)" "i < length (pipes n)" and ready: "pipes n ! i \<noteq> []"
  shows "\<exists>n'. proc_step cap (chain_prog w r sts) (Suc j) n n'"
proof -
  obtain nx where act: "chain_prog w r sts (Suc j) (StageRead acc) = Recv (st_in (sts ! j)) nx" by (simp add: chain_prog_def)
  show ?thesis
    using proc_step.recv [where prog = "chain_prog w r sts", OF len(1) p act fd len(2), of "Suc 0" cap] ready
    by (cases "pipes n ! i") auto
qed

lemma stage_send_moves:
  assumes p: "procs n ! Suc j = Running t (StageSend bs ok)" and fd: "fd_get t (st_out (sts ! j)) = Some (PipeW i)"
    and len: "Suc j < length (procs n)" "i < length (pipes n)" and "held (PipeR i) n"
    and room: "bs \<noteq> [] \<Longrightarrow> length (pipes n ! i) < cap"
  shows "\<exists>n'. proc_step cap (chain_prog w r sts) (Suc j) n n'"
proof (cases "bs = []")
  case True
  then show ?thesis using stage_exit_step [of n j t ok cap w r sts] p len(1) by simp
next
  case False
  then have act: "chain_prog w r sts (Suc j) (StageSend bs ok)
      = Send (st_out (sts ! j)) bs (\<lambda>m. StageSend (drop m bs) ok) (StageSend [] False)"
    by (simp add: chain_prog_def)
  from proc_step.send [where prog = "chain_prog w r sts", OF len(1) p act fd len(2) assms(5), of "Suc 0" cap] False room
  show ?thesis by (auto simp: Suc_le_eq)
qed

section \<open>The host while the report is under way\<close>

text \<open>\<open>q\<close> is in the report pipe, \<open>rest\<close> with the reader, and the host has the part before or has not begun to read.\<close>

definition reporting :: "nat \<Rightarrow> fdtab \<Rightarrow> bytes \<Rightarrow> phase proc \<Rightarrow> bytes \<Rightarrow> bytes \<Rightarrow> bool" where
  "reporting w th out h q rest \<longleftrightarrow> (\<exists>cs. h = Running th (host_send cs) \<and> q @ rest = out)
     \<or> (\<exists>rep. h = Running (fd_close w th) (HostRecv rep) \<and> rep @ q @ rest = out)"

lemma reporting_intros [intro]:
  "q @ rest = out \<Longrightarrow> reporting w th out (Running th (host_send cs)) q rest"
  "rep @ q @ rest = out \<Longrightarrow> reporting w th out (Running (fd_close w th) (HostRecv rep)) q rest"
  by (auto simp: reporting_def)

lemma host_waits_reporting: "host_waits w th h u \<Longrightarrow> reporting w th out h [] out"
  by (auto simp: host_waits_def reporting_def)

lemma set_fd_close: "Some ob \<in> set (fd_close w t) \<Longrightarrow> Some ob \<in> set t"
  unfolding fd_close_def using set_update_subset_insert [of t w None] by auto

lemma reporting_pass: "reporting w th out h q rest \<Longrightarrow> rest = x @ y \<Longrightarrow> reporting w th out h (q @ x) y"
  by (auto simp: reporting_def)

lemma reporting_room: "reporting w th out h q rest \<Longrightarrow> length out \<le> cap \<Longrightarrow> rest \<noteq> [] \<Longrightarrow> length q < cap"
  by (cases rest) (auto simp: reporting_def)

lemma reporting_held:
  assumes "reporting w th out h q rest" and "fd_get th w = Some (PipeW 0)" and "fd_get th r = Some (PipeR i)"
  shows "holds (PipeR i) h"
proof -
  have "fd_get (fd_close w th) r = Some (PipeR i)" using assms(2,3) by auto
  then have "Some (PipeR i) \<in> set (fd_close w th)" by (rule fd_get_set_mem)
  then show ?thesis using assms(1) fd_get_set_mem [OF assms(3)] by (auto simp: reporting_def)
qed

lemma reporting_moves:
  assumes h: "reporting w th out (procs n ! 0) (pipes n ! i) rest"
    and fd: "fd_get th w = Some (PipeW 0)" "fd_get th r = Some (PipeR i)"
    and len: "0 < length (procs n)" "0 < length (pipes n)" "i < length (pipes n)"
    and gone: "\<not> held (PipeR 0) n" "\<not> held (PipeW i) n"
  shows "\<exists>n'. proc_step cap (chain_prog w r sts) 0 n n'"
proof -
  have r: "fd_get (fd_close w th) r = Some (PipeR i)" using fd by auto
  from h consider cs where "procs n ! 0 = Running th (host_send cs)"
    | rep where "procs n ! 0 = Running (fd_close w th) (HostRecv rep)"
    by (auto simp: reporting_def)
  then show ?thesis
  proof cases
    case 1
    show ?thesis by (rule host_send_moves [OF 1 fd(1) len(1,2)]) (use gone in simp)
  next
    case 2
    show ?thesis by (rule host_recv_moves [OF 2 r len(1,3)]) (use gone in simp)
  qed
qed

lemma reporting_step:
  assumes "reporting w th out (procs n ! 0) (pipes n ! i) rest"
    and fd: "fd_get th w = Some (PipeW 0)" "fd_get th r = Some (PipeR i)" and i: "i \<noteq> 0"
    and step: "proc_step cap (chain_prog w r sts) 0 n n'"
  obtains (goes_on) h p q where "n' = resume 0 h (set_pipe i q (set_pipe 0 p n))" "reporting w th out h q rest"
    | (broken) "\<not> held (PipeR 0) n" "n' = resume 0 (Running th (HostEnd broken_pipe)) n"
    | (ended) rep where "\<not> held (PipeW i) n" "rep @ rest = out"
        "n' = resume 0 (Running (fd_close w th) (host_wait rep [1..<Suc (length sts)] True)) n"
proof -
  have ne: "r \<noteq> w" using fd by auto
  have same: "set_pipe j (pipes m ! j) m = m" for j and m :: "phase net" by (simp add: set_pipe_def)
  from assms(1) consider cs where "procs n ! 0 = Running th (host_send cs)" "pipes n ! i @ rest = out"
    | rep where "procs n ! 0 = Running (fd_close w th) (HostRecv rep)" "rep @ pipes n ! i @ rest = out"
    by (auto simp: reporting_def)
  then show thesis
  proof cases
    case 1
    from 1(1) fd(1) step show thesis
    proof (cases rule: host_send_step)
      case closed
      then have "n' = resume 0 (Running (fd_close w th) (HostRecv [])) (set_pipe i (pipes n ! i) (set_pipe 0 (pipes n ! 0) n))"
        by (simp add: same)
      then show thesis by (rule goes_on) (use 1(2) in auto)
    next
      case (sent x cs')
      then have "n' = resume 0 (Running th (host_send cs')) (set_pipe i (pipes n ! i) (set_pipe 0 (pipes n ! 0 @ x) n))"
        using same [of i "set_pipe 0 (pipes n ! 0 @ x) n"] i by (simp add: nth_list_update_neq)
      then show thesis by (rule goes_on) (use 1(2) in auto)
    qed (rule broken)
  next
    case (2 rep)
    have "fd_get (fd_close w th) r = Some (PipeR i)" using fd ne by simp
    from 2(1) this step show thesis
    proof (cases rule: host_recv_cases)
      case (got x y)
      then have "n' = resume 0 (Running (fd_close w th) (HostRecv (rep @ x))) (set_pipe i y (set_pipe 0 (pipes n ! 0) n))"
        by (simp add: same)
      then show thesis by (rule goes_on) (use 2(2) got in auto)
    next
      case ended
      then show thesis using that(3) [of rep] 2(2) by simp
    qed
  qed
qed

section \<open>Mode A\<close>

text \<open>
  The only reader decides, with output \<open>out\<close> and status \<open>ok\<close>, at the latest when it has the whole stream: it refuses
  the stream or has its frames and leaves the rest.  The host either notices while it writes that the reader is
  gone, or has written everything, reads the report and learns the exit status.
\<close>

definition deciding :: "nat \<Rightarrow> nat \<Rightarrow> fdtab \<Rightarrow> bytes \<Rightarrow> stage \<Rightarrow> fdtab \<Rightarrow> bytes \<Rightarrow> bool \<Rightarrow> bool" where
  "deciding w r th S st tb out ok \<longleftrightarrow>
     fd_get th w = Some (PipeW 0) \<and> fd_get th r = Some (PipeR 1)
     \<and> Some (PipeR 0) \<notin> set th \<and> Some (PipeW 1) \<notin> set th
     \<and> fd_get tb (st_in st) = Some (PipeR 0) \<and> fd_get tb (st_out st) = Some (PipeW 1)
     \<and> (\<forall>s. prefix s S \<longrightarrow> st_dec st s = None \<or> st_dec st s = Some (out, ok))
     \<and> st_dec st S \<noteq> None \<and> st_dec st [] = None"

definition host_done :: "nat \<Rightarrow> fdtab \<Rightarrow> bytes \<Rightarrow> bool \<Rightarrow> phase proc \<Rightarrow> bool" where
  "host_done w th out ok h \<longleftrightarrow> h = Running th (HostEnd broken_pipe)
     \<or> h = Running (fd_close w th) (HostWait out [1] True)
     \<or> h = Running (fd_close w th) (HostEnd (if ok then Inr out else Inl ReaderFailed))"

inductive stopping :: "nat \<Rightarrow> fdtab \<Rightarrow> bytes \<Rightarrow> stage \<Rightarrow> fdtab \<Rightarrow> bytes \<Rightarrow> bool \<Rightarrow> phase net \<Rightarrow> bool"
  for w th S st tb out ok where
  reading: "host_waits w th h u \<Longrightarrow> acc @ p @ u = S \<Longrightarrow> st_dec st acc = None \<Longrightarrow>
     stopping w th S st tb out ok \<lparr>procs = [h, Running tb (StageRead acc)], pipes = [p, []]\<rparr>"
| sending: "reporting w th out h q rest \<Longrightarrow>
     stopping w th S st tb out ok \<lparr>procs = [h, Running tb (StageSend rest ok)], pipes = [p, q]\<rparr>"
| over: "reporting w th out h q [] \<Longrightarrow>
     stopping w th S st tb out ok \<lparr>procs = [h, Exited ok], pipes = [p, q]\<rparr>"
| finished: "host_done w th out ok h \<Longrightarrow>
     stopping w th S st tb out ok \<lparr>procs = [h, Exited ok], pipes = [p, q]\<rparr>"

lemma stopping_host:
  assumes v: "deciding w r th S st tb out ok" and n: "stopping w th S st tb out ok n"
    and step: "proc_step cap (chain_prog w r [st]) 0 n n'"
  shows "stopping w th S st tb out ok n'"
proof -
  have fd: "fd_get th w = Some (PipeW 0)" "fd_get th r = Some (PipeR 1)"
    "Some (PipeR 0) \<in> set tb" "Some (PipeW 1) \<in> set tb"
    using v by (auto simp: deciding_def dest: fd_get_set_mem)
  have held: "held (PipeR 0) \<lparr>procs = [h, Running tb x], pipes = ps\<rparr>" "held (PipeW 1) \<lparr>procs = [h, Running tb x], pipes = ps\<rparr>"
    for h ps and x :: phase using fd by (simp_all add: held_def)
  note report = reporting_step [OF _ fd(1,2) one_neq_zero step]
  from n show ?thesis
  proof (cases rule: stopping.cases)
    case (reading h u acc p)
    have "host_waits w th (procs n ! 0) u" "pipes n ! 1 = []" using reading by simp_all
    from this(1) fd(1,2) this(2) step show ?thesis
    proof (cases rule: host_waits_step)
      case (goes_on h' x u')
      then have "n' = \<lparr>procs = [h', Running tb (StageRead acc)], pipes = [p @ x, []]\<rparr>"
        by (simp add: reading(1) resume_def set_pipe_def)
      with goes_on(2,3) reading(3,4) show ?thesis by (auto intro: stopping.reading)
    qed (use held reading(1) in simp_all)
  next
    case (sending h q rest p)
    show ?thesis
      by (rule report [of out rest])
        (use sending held in \<open>auto simp: resume_def set_pipe_def intro: stopping.sending\<close>)
  next
    case (over h q p)
    show ?thesis
      by (rule report [of out "[]"])
        (use over in \<open>auto simp: resume_def set_pipe_def host_wait_def host_done_def intro: stopping.over stopping.finished\<close>)
  next
    case (finished h p q)
    have "h \<noteq> Running t (HostEnd res)" for t res using host_end_step step by (auto simp: finished(1))
    then have h: "procs n ! 0 = Running (fd_close w th) (HostWait out [1] True)"
      using finished by (auto simp: host_done_def)
    have "n' = resume 0 (Running (fd_close w th) (HostEnd (if ok then Inr out else Inl ReaderFailed))) n"
      using step step_Wait [where prog = "chain_prog w r [st]", OF h, of 1 "\<lambda>b. host_wait out [] (True \<and> b)"]
      by (auto simp: chain_prog_def finished(1) host_wait_def)
    then show ?thesis unfolding finished(1) by (auto simp: resume_def host_done_def intro!: stopping.finished)
  qed
qed

lemma stopping_reader:
  assumes v: "deciding w r th S st tb out ok" and n: "stopping w th S st tb out ok n"
    and step: "proc_step cap (chain_prog w r [st]) (Suc 0) n n'"
  shows "stopping w th S st tb out ok n'"
proof -
  have fd: "fd_get th w = Some (PipeW 0)" "fd_get th r = Some (PipeR 1)"
    "fd_get tb (st_in ([st] ! 0)) = Some (PipeR 0)" "fd_get tb (st_out ([st] ! 0)) = Some (PipeW 1)"
    using v by (auto simp: deciding_def)
  from n show ?thesis
  proof (cases rule: stopping.cases)
    case (reading h u acc p)
    have b: "procs n ! Suc 0 = Running tb (StageRead acc)" by (simp add: reading(1))
    from b fd(3) step show ?thesis
    proof (cases rule: stage_read_step)
      case (got x y)
      then have e: "(acc @ x) @ y @ u = S" using reading by simp
      then have "prefix (acc @ x) S" by (metis prefixI)
      then have "stage_after st (acc @ x) = StageSend out ok
          \<or> stage_after st (acc @ x) = StageRead (acc @ x) \<and> st_dec st (acc @ x) = None"
        using v by (force simp: deciding_def stage_after_def)
      then show ?thesis
        using stopping.reading [OF reading(2) e] stopping.sending [OF host_waits_reporting [OF reading(2)]]
        unfolding got(3) reading(1) by (auto simp: resume_def set_pipe_def)
    next
      case ended
      have "u = []"
        using reading(2) heldI [of 0 n th _ w "PipeW 0"] ended(2) fd(1) by (auto simp: host_waits_def reading(1))
      then have "acc = S" using reading(1,3) ended(1) by simp
      then show ?thesis using reading(4) v by (simp add: deciding_def)
    qed
  next
    case (sending h q rest p)
    have b: "procs n ! Suc 0 = Running tb (StageSend rest ok)" by (simp add: sending(1))
    show ?thesis
    proof (cases "rest = []")
      case True
      then have "n' = \<lparr>procs = [h, Exited ok], pipes = [p, q]\<rparr>"
        using b step stage_exit_step [of n 0 tb ok] by (simp add: sending(1) resume_def)
      then show ?thesis using sending(2) True by (auto intro: stopping.over)
    next
      case False
      have held: "held (PipeR 1) n" using reporting_held [OF sending(2) fd(1,2)] by (simp add: sending(1) held_def)
      from b False fd(4) step show ?thesis
      proof (cases rule: stage_send_step)
        case (sent x y)
        then have "n' = \<lparr>procs = [h, Running tb (StageSend y ok)], pipes = [p, q @ x]\<rparr>"
          by (simp add: sending(1) resume_def set_pipe_def)
        then show ?thesis using sending(2) sent(1) by (auto intro: stopping.sending reporting_pass)
      qed (use held in simp)
    qed
  qed (use step_Exited [of n "Suc 0" ok] step in simp_all)
qed

lemma stopping_stuck:
  assumes v: "deciding w r th S st tb out ok" and n: "stopping w th S st tb out ok n" and cap: "0 < cap" "length out \<le> cap"
    and stuck: "stuck cap (chain_prog w r [st]) n"
  shows "\<exists>tab res. procs n ! 0 = Running tab (HostEnd res) \<and> res \<in> {if ok then Inr out else Inl ReaderFailed, broken_pipe}"
proof -
  have none: "\<not> Ex (proc_step cap (chain_prog w r [st]) i n)" for i using stuck by (auto simp: stuck_def net_step_def)
  have fd: "fd_get th w = Some (PipeW 0)" "fd_get th r = Some (PipeR 1)"
    "fd_get tb (st_in ([st] ! 0)) = Some (PipeR 0)" "fd_get tb (st_out ([st] ! 0)) = Some (PipeW 1)"
    using v by (auto simp: deciding_def)
  from n show ?thesis
  proof (cases rule: stopping.cases)
    case (reading h u acc p)
    have "p = []"
      using stage_read_moves [of n 0 tb acc "[st]" 0] none [of "Suc 0"] fd(3) by (auto simp: reading(1))
    then have "u \<noteq> []" using reading v by (auto simp: deciding_def)
    with host_waits_moves [of w th n u r 1 cap "[st]"] reading \<open>p = []\<close> fd cap none [of 0] show ?thesis by simp
  next
    case (sending h q rest p)
    have b: "procs n ! Suc 0 = Running tb (StageSend rest ok)" by (simp add: sending(1))
    have "held (PipeR 1) n" using reporting_held [OF sending(2) fd(1,2)] by (simp add: sending(1) held_def)
    then show ?thesis
      using stage_send_moves [OF b fd(4), of cap w r] none [of "Suc 0"] reporting_room [OF sending(2) cap(2)]
      by (simp add: sending(1))
  next
    case (over h q p)
    have gone: "\<not> held (PipeR 0) n" "\<not> held (PipeW 1) n"
      using v over by (auto simp: held_def deciding_def reporting_def dest: set_fd_close)
    with reporting_moves [of w th out n 1 "[]" r cap "[st]"] over fd(1,2)
    have "Ex (proc_step cap (chain_prog w r [st]) 0 n)" by simp
    with none show ?thesis by blast
  next
    case (finished h p q)
    have "h \<noteq> Running (fd_close w th) (HostWait out [1] True)"
    proof
      assume "h = Running (fd_close w th) (HostWait out [1] True)"
      then have h: "procs n ! 0 = Running (fd_close w th) (HostWait out [1] True)" by (simp add: finished(1))
      from step_Wait [where prog = "chain_prog w r [st]", OF h, of 1 "\<lambda>b. host_wait out [] (True \<and> b)"]
      show False using none [of 0] by (simp add: chain_prog_def finished(1))
    qed
    with finished show ?thesis by (auto simp: host_done_def)
  qed
qed

lemma stopping_ends:
  assumes v: "deciding w r th (concat cs) st tb out ok" and cap: "0 < cap" "length out \<le> cap"
    and reach: "(net_step cap (chain_prog w r [st]))\<^sup>*\<^sup>* (chain_start th cs [tb]) n" and "stuck cap (chain_prog w r [st]) n"
  shows "\<exists>tab res. procs n ! 0 = Running tab (HostEnd res) \<and> res \<in> {if ok then Inr out else Inl ReaderFailed, broken_pipe}"
proof -
  have "st_dec st [] = None" using v by (simp add: deciding_def)
  then have start: "stopping w th (concat cs) st tb out ok (chain_start th cs [tb])"
    by (auto simp: chain_start_def intro: stopping.reading [where acc = "[]"])
  have step: "stopping w th (concat cs) st tb out ok b"
    if "stopping w th (concat cs) st tb out ok a" "net_step cap (chain_prog w r [st]) a b" for a b
  proof -
    from that(2) obtain i where i: "proc_step cap (chain_prog w r [st]) i a b" by (auto simp: net_step_def)
    with step_index [OF i] that(1) have "i = 0 \<or> i = Suc 0" by (auto elim!: stopping.cases)
    then show ?thesis using stopping_host [OF v that(1)] stopping_reader [OF v that(1)] i by blast
  qed
  have "stopping w th (concat cs) st tb out ok n" using reach by (rule reach_inv) (fact start, erule (1) step)
  from stopping_stuck [OF v this cap assms(5)] show ?thesis .
qed

section \<open>Mode B\<close>

text \<open>
  The bytes process decides, with the lines \<open>mid\<close>, at the latest when it has the whole stream.  The inference process
  stops exactly at the end of those lines, with the report \<open>out\<close>.
\<close>

definition forwarding :: "nat \<Rightarrow> nat \<Rightarrow> fdtab \<Rightarrow> bytes \<Rightarrow> stage \<Rightarrow> stage \<Rightarrow> fdtab \<Rightarrow> fdtab \<Rightarrow> bytes \<Rightarrow> bool \<Rightarrow> bytes \<Rightarrow> bool \<Rightarrow> bool" where
  "forwarding w r th S bs ps tb tp mid ok1 out ok2 \<longleftrightarrow>
     fd_get th w = Some (PipeW 0) \<and> fd_get th r = Some (PipeR 2)
     \<and> Some (PipeR 0) \<notin> set th \<and> Some (PipeW 2) \<notin> set th
     \<and> fd_get tb (st_in bs) = Some (PipeR 0) \<and> fd_get tb (st_out bs) = Some (PipeW 1)
     \<and> fd_get tp (st_in ps) = Some (PipeR 1) \<and> fd_get tp (st_out ps) = Some (PipeW 2)
     \<and> (\<forall>s. prefix s S \<longrightarrow> st_dec bs s = None \<or> st_dec bs s = Some (mid, ok1))
     \<and> st_dec bs S \<noteq> None \<and> st_dec bs [] = None
     \<and> st_dec ps mid = Some (out, ok2) \<and> (\<forall>s. strict_prefix s mid \<longrightarrow> st_dec ps s = None) \<and> mid \<noteq> []"

text \<open>A reader that has \<open>rest\<close> to send, or has sent all and may have left.\<close>

definition sender :: "fdtab \<Rightarrow> bool \<Rightarrow> phase proc \<Rightarrow> bytes \<Rightarrow> bool" where
  "sender t ok b rest \<longleftrightarrow> b = Running t (StageSend rest ok) \<or> b = Exited ok \<and> rest = []"

lemma sender_intros [intro]: "sender t ok (Running t (StageSend rest ok)) rest" "sender t ok (Exited ok) []"
  by (simp_all add: sender_def)

definition waiting :: "nat \<Rightarrow> fdtab \<Rightarrow> phase proc \<Rightarrow> bool" where
  "waiting w th h \<longleftrightarrow> (\<exists>u. host_waits w th h u) \<or> h = Running th (HostEnd broken_pipe)"

definition told :: "nat \<Rightarrow> fdtab \<Rightarrow> bytes \<Rightarrow> phase proc \<Rightarrow> bytes \<Rightarrow> bytes \<Rightarrow> bool" where
  "told w th out h q rest \<longleftrightarrow> reporting w th out h q rest \<or> h = Running th (HostEnd broken_pipe)"

definition both_done :: "nat \<Rightarrow> fdtab \<Rightarrow> fdtab \<Rightarrow> bytes \<Rightarrow> bool \<Rightarrow> bool \<Rightarrow> phase proc \<Rightarrow> phase proc \<Rightarrow> bool" where
  "both_done w th tb out ok1 ok2 h b \<longleftrightarrow>
     h = Running (fd_close w th) (HostWait out [Suc 0, Suc (Suc 0)] True) \<and> sender tb ok1 b []
     \<or> h = Running (fd_close w th) (HostWait out [Suc (Suc 0)] ok1) \<and> b = Exited ok1
     \<or> h = Running (fd_close w th) (HostEnd (if ok1 \<and> ok2 then Inr out else Inl ReaderFailed)) \<and> b = Exited ok1"

inductive relaying :: "nat \<Rightarrow> fdtab \<Rightarrow> bytes \<Rightarrow> stage \<Rightarrow> stage \<Rightarrow> fdtab \<Rightarrow> fdtab \<Rightarrow> bytes \<Rightarrow> bool \<Rightarrow> bytes \<Rightarrow> bool
    \<Rightarrow> phase net \<Rightarrow> bool" for w th S bs ps tb tp mid ok1 out ok2 where
  reading: "host_waits w th h u \<Longrightarrow> acc @ p @ u = S \<Longrightarrow> st_dec bs acc = None \<Longrightarrow> relaying w th S bs ps tb tp mid ok1 out ok2
     \<lparr>procs = [h, Running tb (StageRead acc), Running tp (StageRead [])], pipes = [p, [], []]\<rparr>"
| passing: "waiting w th h \<Longrightarrow> sender tb ok1 b rest \<Longrightarrow> acc @ q @ rest = mid \<Longrightarrow> st_dec ps acc = None \<Longrightarrow>
     relaying w th S bs ps tb tp mid ok1 out ok2 \<lparr>procs = [h, b, Running tp (StageRead acc)], pipes = [p, q, []]\<rparr>"
| sending: "told w th out h q rest \<Longrightarrow> sender tb ok1 b [] \<Longrightarrow>
     relaying w th S bs ps tb tp mid ok1 out ok2 \<lparr>procs = [h, b, Running tp (StageSend rest ok2)], pipes = [p, [], q]\<rparr>"
| over: "told w th out h q [] \<Longrightarrow> sender tb ok1 b [] \<Longrightarrow>
     relaying w th S bs ps tb tp mid ok1 out ok2 \<lparr>procs = [h, b, Exited ok2], pipes = [p, [], q]\<rparr>"
| finished: "both_done w th tb out ok1 ok2 h b \<Longrightarrow>
     relaying w th S bs ps tb tp mid ok1 out ok2 \<lparr>procs = [h, b, Exited ok2], pipes = [p, [], q]\<rparr>"

lemma relaying_host:
  assumes v: "forwarding w r th S bs ps tb tp mid ok1 out ok2" and n: "relaying w th S bs ps tb tp mid ok1 out ok2 n"
    and step: "proc_step cap (chain_prog w r [bs, ps]) 0 n n'"
  shows "relaying w th S bs ps tb tp mid ok1 out ok2 n'"
proof -
  have fd: "fd_get th w = Some (PipeW 0)" "fd_get th r = Some (PipeR 2)"
    "Some (PipeR 0) \<in> set tb" "Some (PipeW 2) \<in> set tp"
    using v by (auto simp: forwarding_def dest: fd_get_set_mem)
  have held: "held (PipeR 0) \<lparr>procs = [h, Running tb x, p], pipes = ps\<rparr>" "held (PipeW 2) \<lparr>procs = [h, b, Running tp x], pipes = ps\<rparr>"
    for h b p ps and x :: phase using fd by (simp_all add: held_def)
  have two: "(2 :: nat) \<noteq> 0" by simp
  note report = reporting_step [OF _ fd(1,2) two step]
  note host_stuck = host_end_step [of n th broken_pipe cap w r "[bs, ps]" n']
  note eqs = resume_def set_pipe_def numeral_2_eq_2
  from n show ?thesis
  proof (cases rule: relaying.cases)
    case (reading h u acc p)
    have "host_waits w th (procs n ! 0) u" "pipes n ! 2 = []" using reading by simp_all
    from this(1) fd(1,2) this(2) step show ?thesis
      by (cases rule: host_waits_step) (use held reading in \<open>auto simp: eqs intro: relaying.reading\<close>)
  next
    case (passing h b rest acc q p)
    then obtain u where "host_waits w th (procs n ! 0) u" "pipes n ! 2 = []"
      using host_stuck step by (auto simp: waiting_def)
    from this(1) fd(1,2) this(2) step show ?thesis
      by (cases rule: host_waits_step) (use held passing in \<open>auto simp: eqs waiting_def intro!: relaying.passing\<close>)
  next
    case (sending h q rest b p)
    then have "reporting w th out (procs n ! 0) (pipes n ! 2) rest" using host_stuck step by (auto simp: told_def)
    then show ?thesis
      by (rule report) (use held sending in \<open>auto simp: eqs told_def intro!: relaying.sending\<close>)
  next
    case (over h q b p)
    then have "reporting w th out (procs n ! 0) (pipes n ! 2) []" using host_stuck step by (auto simp: told_def)
    then show ?thesis
    proof (rule report, goal_cases)
      case (3 rep)
      then show ?thesis using over by (auto simp: eqs host_wait_def both_done_def intro!: relaying.finished)
    qed (use over in \<open>auto simp: eqs told_def intro!: relaying.over\<close>)
  next
    case (finished h b p q)
    have "h \<noteq> Running t (HostEnd res)" for t res using host_end_step step by (auto simp: finished(1))
    with finished(2) consider "procs n ! 0 = Running (fd_close w th) (HostWait out [Suc 0, Suc (Suc 0)] True)" "sender tb ok1 b []"
      | "procs n ! 0 = Running (fd_close w th) (HostWait out [Suc (Suc 0)] ok1)" "b = Exited ok1"
      by (auto simp: both_done_def finished(1))
    then show ?thesis
    proof cases
      case 1
      have "b = Exited ok1 \<and> n' = resume 0 (Running (fd_close w th) (HostWait out [Suc (Suc 0)] ok1)) n"
        using step step_Wait [where prog = "chain_prog w r [bs, ps]", OF 1(1), of "Suc 0" "\<lambda>b. host_wait out [Suc (Suc 0)] (True \<and> b)"] 1(2)
        by (auto simp: chain_prog_def finished(1) host_wait_def sender_def)
      then show ?thesis unfolding finished(1) by (auto simp: resume_def both_done_def intro!: relaying.finished)
    next
      case 2
      have "n' = resume 0 (Running (fd_close w th) (HostEnd (if ok1 \<and> ok2 then Inr out else Inl ReaderFailed))) n"
        using step step_Wait [where prog = "chain_prog w r [bs, ps]", OF 2(1), of "Suc (Suc 0)" "\<lambda>b. host_wait out [] (ok1 \<and> b)"]
        by (auto simp: chain_prog_def finished(1) host_wait_def)
      then show ?thesis using 2(2) unfolding finished(1)
        by (auto simp: resume_def both_done_def intro!: relaying.finished)
    qed
  qed
qed

lemma told_held: "told w th out h q rest \<Longrightarrow> fd_get th w = Some (PipeW 0) \<Longrightarrow> fd_get th r = Some (PipeR i) \<Longrightarrow> holds (PipeR i) h"
  by (auto simp: told_def reporting_held dest: fd_get_set_mem)

lemma told_pass: "told w th out h q rest \<Longrightarrow> rest = x @ y \<Longrightarrow> told w th out h (q @ x) y"
  by (auto simp: told_def reporting_pass)

lemma waiting_told: "waiting w th h \<Longrightarrow> told w th out h [] out"
  by (auto simp: waiting_def told_def host_waits_reporting)

lemma sender_done_step:
  assumes "sender tb ok (procs n ! Suc j) []" and "proc_step cap (chain_prog w r sts) (Suc j) n n'"
  shows "n' = resume (Suc j) (Exited ok) n"
  using assms step_Exited [of n "Suc j" ok] stage_exit_step [of n j tb ok] by (auto simp: sender_def)

lemma relaying_bytes:
  assumes v: "forwarding w r th S bs ps tb tp mid ok1 out ok2" and n: "relaying w th S bs ps tb tp mid ok1 out ok2 n"
    and step: "proc_step cap (chain_prog w r [bs, ps]) (Suc 0) n n'"
  shows "relaying w th S bs ps tb tp mid ok1 out ok2 n'"
proof -
  have fd: "fd_get th w = Some (PipeW 0)" "fd_get tb (st_in ([bs, ps] ! 0)) = Some (PipeR 0)"
    "fd_get tb (st_out ([bs, ps] ! 0)) = Some (PipeW 1)" "Some (PipeR 1) \<in> set tp"
    and start: "st_dec ps [] = None"
    using v by (auto simp: forwarding_def strict_prefix_def dest: fd_get_set_mem)
  note leave = sender_done_step [OF _ step, of tb ok1]
  from n show ?thesis
  proof (cases rule: relaying.cases)
    case (reading h u acc p)
    have b: "procs n ! Suc 0 = Running tb (StageRead acc)" by (simp add: reading(1))
    from b fd(2) step show ?thesis
    proof (cases rule: stage_read_step)
      case (got x y)
      then have e: "(acc @ x) @ y @ u = S" using reading by simp
      then have "prefix (acc @ x) S" by (metis prefixI)
      then consider "stage_after bs (acc @ x) = StageSend mid ok1"
        | "stage_after bs (acc @ x) = StageRead (acc @ x)" "st_dec bs (acc @ x) = None"
        using v unfolding forwarding_def stage_after_def by (metis option.simps(4,5) prod.simps(2))
      then show ?thesis
      proof cases
        case 1
        then show ?thesis unfolding got(3) reading(1)
          using start reading(2) by (auto simp: resume_def set_pipe_def waiting_def intro!: relaying.passing)
      next
        case 2
        then show ?thesis using relaying.reading [OF reading(2) e] unfolding got(3) reading(1)
          by (simp add: resume_def set_pipe_def)
      qed
    next
      case ended
      have "u = []"
        using reading(2) heldI [of 0 n th _ w "PipeW 0"] ended(2) fd(1) by (auto simp: host_waits_def reading(1))
      then have "acc = S" using reading(1,3) ended(1) by simp
      then show ?thesis using reading(4) v by (simp add: forwarding_def)
    qed
  next
    case (passing h b rest acc q p)
    show ?thesis
    proof (cases "rest = []")
      case True
      then have "n' = \<lparr>procs = [h, Exited ok1, Running tp (StageRead acc)], pipes = [p, q, []]\<rparr>"
        using leave passing(3) by (simp add: passing(1) resume_def)
      then show ?thesis using passing True by (auto intro!: relaying.passing)
    next
      case False
      then have b: "procs n ! Suc 0 = Running tb (StageSend rest ok1)" using passing(3) by (simp add: passing(1) sender_def)
      from b False fd(3) step show ?thesis
      proof (cases rule: stage_send_step)
        case (sent x y)
        then have "n' = \<lparr>procs = [h, Running tb (StageSend y ok1), Running tp (StageRead acc)], pipes = [p, q @ x, []]\<rparr>"
          by (simp add: passing(1) resume_def set_pipe_def)
        then show ?thesis using passing sent(1) by (auto intro!: relaying.passing)
      qed (use fd(4) in \<open>simp add: passing(1) held_def\<close>)
    qed
  next
    case (sending h q rest b p)
    then show ?thesis using leave by (auto simp: resume_def intro!: relaying.sending)
  next
    case (over h q b p)
    then show ?thesis using leave by (auto simp: resume_def intro!: relaying.over)
  next
    case (finished h b p q)
    then have "sender tb ok1 b []" by (auto simp: both_done_def)
    then have n': "n' = \<lparr>procs = [h, Exited ok1, Exited ok2], pipes = [p, [], q]\<rparr>"
      using leave by (simp add: finished(1) resume_def)
    show ?thesis unfolding n' by (rule relaying.finished) (use finished(2) in \<open>auto simp: both_done_def\<close>)
  qed
qed

lemma relaying_priv:
  assumes v: "forwarding w r th S bs ps tb tp mid ok1 out ok2" and n: "relaying w th S bs ps tb tp mid ok1 out ok2 n"
    and step: "proc_step cap (chain_prog w r [bs, ps]) (Suc (Suc 0)) n n'"
  shows "relaying w th S bs ps tb tp mid ok1 out ok2 n'"
proof -
  have fd: "fd_get th w = Some (PipeW 0)" "fd_get th r = Some (PipeR 2)"
    "fd_get tp (st_in ([bs, ps] ! Suc 0)) = Some (PipeR 1)" "fd_get tp (st_out ([bs, ps] ! Suc 0)) = Some (PipeW 2)"
    "Some (PipeW 1) \<in> set tb"
    using v by (auto simp: forwarding_def dest: fd_get_set_mem)
  from n show ?thesis
  proof (cases rule: relaying.cases)
    case (reading h u acc p)
    have "procs n ! Suc (Suc 0) = Running tp (StageRead [])" by (simp add: reading(1))
    from this fd(3) step show ?thesis
      by (cases rule: stage_read_step) (use fd(5) in \<open>auto simp: reading(1) held_def\<close>)
  next
    case (passing h b rest acc q p)
    have "procs n ! Suc (Suc 0) = Running tp (StageRead acc)" by (simp add: passing(1))
    from this fd(3) step show ?thesis
    proof (cases rule: stage_read_step)
      case (got x y)
      then have e: "(acc @ x) @ y @ rest = mid" using passing(1,4) by simp
      show ?thesis
      proof (cases "y @ rest = []")
        case True
        then have "stage_after ps (acc @ x) = StageSend out ok2" using e v by (simp add: forwarding_def stage_after_def)
        then have "n' = \<lparr>procs = [h, b, Running tp (StageSend out ok2)], pipes = [p, [], []]\<rparr>"
          using got(3) True by (simp add: passing(1) resume_def set_pipe_def numeral_2_eq_2)
        then show ?thesis using passing(2,3) True by (auto intro!: relaying.sending waiting_told)
      next
        case False
        then have "strict_prefix (acc @ x) mid" using e by (auto simp: strict_prefix_def)
        then have "st_dec ps (acc @ x) = None" using v by (simp add: forwarding_def)
        then show ?thesis using relaying.passing [OF passing(2,3) e] got(3)
          by (simp add: passing(1) resume_def set_pipe_def stage_after_def numeral_2_eq_2)
      qed
    next
      case ended
      then have "b = Exited ok1" using passing(3) fd(5) by (auto simp: sender_def passing(1) held_def)
      then have "acc = mid" using passing ended(1) by (auto simp: sender_def)
      then show ?thesis using passing(5) v by (simp add: forwarding_def)
    qed
  next
    case (sending h q rest b p)
    have b: "procs n ! Suc (Suc 0) = Running tp (StageSend rest ok2)" by (simp add: sending(1))
    show ?thesis
    proof (cases "rest = []")
      case True
      then have "n' = \<lparr>procs = [h, b, Exited ok2], pipes = [p, [], q]\<rparr>"
        using b step stage_exit_step [of n "Suc 0" tp ok2] by (simp add: sending(1) resume_def numeral_2_eq_2)
      then show ?thesis using sending(2,3) True by (auto intro!: relaying.over)
    next
      case False
      from b False fd(4) step show ?thesis
      proof (cases rule: stage_send_step)
        case (sent x y)
        then have "n' = \<lparr>procs = [h, b, Running tp (StageSend y ok2)], pipes = [p, [], q @ x]\<rparr>"
          by (simp add: sending(1) resume_def set_pipe_def numeral_2_eq_2)
        then show ?thesis using sending(2,3) sent(1) by (auto intro!: relaying.sending told_pass)
      qed (use told_held [OF sending(2) fd(1,2)] in \<open>simp add: sending(1) held_def\<close>)
    qed
  qed (use step_Exited [of n "Suc (Suc 0)" ok2] step in \<open>simp_all add: numeral_2_eq_2\<close>)
qed

lemma relaying_stuck:
  assumes v: "forwarding w r th S bs ps tb tp mid ok1 out ok2" and n: "relaying w th S bs ps tb tp mid ok1 out ok2 n"
    and cap: "0 < cap" "length out \<le> cap" and stuck: "stuck cap (chain_prog w r [bs, ps]) n"
  shows "\<exists>tab res. procs n ! 0 = Running tab (HostEnd res) \<and> res \<in> {if ok1 \<and> ok2 then Inr out else Inl ReaderFailed, broken_pipe}"
proof -
  have none: "\<not> Ex (proc_step cap (chain_prog w r [bs, ps]) i n)" for i using stuck by (auto simp: stuck_def net_step_def)
  have fd: "fd_get th w = Some (PipeW 0)" "fd_get th r = Some (PipeR 2)"
    "fd_get tb (st_in ([bs, ps] ! 0)) = Some (PipeR 0)" "fd_get tb (st_out ([bs, ps] ! 0)) = Some (PipeW 1)"
    "fd_get tp (st_in ([bs, ps] ! Suc 0)) = Some (PipeR 1)" "fd_get tp (st_out ([bs, ps] ! Suc 0)) = Some (PipeW 2)"
    "Some (PipeR 1) \<in> set tp"
    using v by (auto simp: forwarding_def dest: fd_get_set_mem)
  have left: "procs n ! Suc 0 = Exited ok1" if "sender tb ok1 (procs n ! Suc 0) []" "Suc 0 < length (procs n)"
    using that stage_exit_step [of n 0 tb ok1 cap w r "[bs, ps]"] none [of "Suc 0"] by (auto simp: sender_def)
  from n show ?thesis
  proof (cases rule: relaying.cases)
    case (reading h u acc p)
    have "p = []"
      using stage_read_moves [of n 0 tb acc "[bs, ps]" 0] none [of "Suc 0"] fd(3) by (auto simp: reading(1))
    then have "u \<noteq> []" using reading v by (auto simp: forwarding_def)
    with host_waits_moves [of w th n u r 2 cap "[bs, ps]"] reading \<open>p = []\<close> fd cap none [of 0] show ?thesis
      by (simp add: numeral_2_eq_2)
  next
    case (passing h b rest acc q p)
    have "q = []"
      using stage_read_moves [of n "Suc 0" tp acc "[bs, ps]" 1] none [of "Suc (Suc 0)"] fd(5) by (auto simp: passing(1))
    have "rest = []"
    proof (rule ccontr)
      assume "rest \<noteq> []"
      then have b: "procs n ! Suc 0 = Running tb (StageSend rest ok1)" using passing(3) by (simp add: passing(1) sender_def)
      have "held (PipeR 1) n" using fd(7) by (simp add: passing(1) held_def)
      then have "Ex (proc_step cap (chain_prog w r [bs, ps]) (Suc 0) n)"
        using stage_send_moves [OF b fd(4), of cap w r] cap(1) \<open>q = []\<close> by (simp add: passing(1))
      with none show False by blast
    qed
    then have "acc = mid" using passing(4) \<open>q = []\<close> by simp
    then show ?thesis using passing(5) v by (simp add: forwarding_def)
  next
    case (sending h q rest b p)
    show ?thesis
    proof (cases "h = Running th (HostEnd broken_pipe)")
      case False
      then have r: "reporting w th out h q rest" using sending(2) by (simp add: told_def)
      have b: "procs n ! Suc (Suc 0) = Running tp (StageSend rest ok2)" by (simp add: sending(1))
      have "held (PipeR 2) n" using reporting_held [OF r fd(1,2)] by (simp add: sending(1) held_def)
      then have "Ex (proc_step cap (chain_prog w r [bs, ps]) (Suc (Suc 0)) n)"
        using stage_send_moves [OF b fd(6), of cap w r] reporting_room [OF r cap(2)]
        by (simp add: sending(1) numeral_2_eq_2)
      with none show ?thesis by blast
    qed (simp add: sending(1))
  next
    case (over h q b p)
    show ?thesis
    proof (cases "h = Running th (HostEnd broken_pipe)")
      case False
      then have r: "reporting w th out h q []" using over(2) by (simp add: told_def)
      have b: "b = Exited ok1" using left over(3) by (simp add: over(1))
      have gone: "\<not> held (PipeR 0) n" "\<not> held (PipeW 2) n"
        using v r by (auto simp: held_def forwarding_def reporting_def over(1) b dest: set_fd_close)
      with reporting_moves [of w th out n 2 "[]" r cap "[bs, ps]"] r over(1) fd(1,2)
      have "Ex (proc_step cap (chain_prog w r [bs, ps]) 0 n)" by (simp add: numeral_2_eq_2)
      with none show ?thesis by blast
    qed (simp add: over(1))
  next
    case (finished h b p q)
    then have b: "b = Exited ok1" using left by (auto simp: both_done_def)
    have waits: "\<not> (h = Running t (HostWait out (j # js) ok) \<and> (j = Suc 0 \<or> j = Suc (Suc 0)))" for t j js ok
    proof
      assume h: "h = Running t (HostWait out (j # js) ok) \<and> (j = Suc 0 \<or> j = Suc (Suc 0))"
      then have "procs n ! 0 = Running t (HostWait out (j # js) ok)" by (simp add: finished(1))
      from step_Wait [where prog = "chain_prog w r [bs, ps]", OF this, of j "\<lambda>b. host_wait out js (ok \<and> b)"]
      have "Ex (proc_step cap (chain_prog w r [bs, ps]) 0 n)" using h b by (auto simp: chain_prog_def finished(1))
      with none show False by blast
    qed
    from finished waits [of "fd_close w th" "Suc 0" "[Suc (Suc 0)]" True] waits [of "fd_close w th" "Suc (Suc 0)" "[]" ok1]
    show ?thesis by (auto simp: both_done_def)
  qed
qed

lemma relaying_ends:
  assumes v: "forwarding w r th (concat cs) bs ps tb tp mid ok1 out ok2" and cap: "0 < cap" "length out \<le> cap"
    and reach: "(net_step cap (chain_prog w r [bs, ps]))\<^sup>*\<^sup>* (chain_start th cs [tb, tp]) n"
    and "stuck cap (chain_prog w r [bs, ps]) n"
  shows "\<exists>tab res. procs n ! 0 = Running tab (HostEnd res) \<and> res \<in> {if ok1 \<and> ok2 then Inr out else Inl ReaderFailed, broken_pipe}"
proof -
  let ?inv = "relaying w th (concat cs) bs ps tb tp mid ok1 out ok2"
  have "st_dec bs [] = None" using v by (simp add: forwarding_def)
  then have start: "?inv (chain_start th cs [tb, tp])"
    by (auto simp: chain_start_def intro: relaying.reading [where acc = "[]"])
  have step: "?inv b" if "?inv a" "net_step cap (chain_prog w r [bs, ps]) a b" for a b
  proof -
    from that(2) obtain i where i: "proc_step cap (chain_prog w r [bs, ps]) i a b" by (auto simp: net_step_def)
    have "length (procs a) = 3" using that(1) by (auto elim!: relaying.cases)
    with step_index [OF i] consider "i = 0" | "i = Suc 0" | "i = Suc (Suc 0)" by linarith
    then show ?thesis
      using relaying_host [OF v that(1)] relaying_bytes [OF v that(1)] relaying_priv [OF v that(1)] i by cases blast+
  qed
  have "?inv n" using reach by (rule reach_inv) (fact start, erule (1) step)
  from relaying_stuck [OF v this cap assms(5)] show ?thesis .
qed

end
