(* ===== verification/Models.thy ===== *)
theory Models
  imports ByteIo Floats
begin

section \<open>\<open>seck-models\<close> and \<open>seck-host-net\<close>: the model manifest and the verified download\<close>

text \<open>
  \<open>crates/seck-models/src\<close>, \<open>crates/seck-host-net/src\<close> and the \<open>seck models\<close> commands
  (\<open>crates/seck-cli/src/models.rs\<close>).  An \<open>f32\<close> is its 32-bit pattern and is compared as IEEE 754
  prescribes (the two zeros are equal, a NaN compares with nothing).  Outside, and parameters: the TOML
  parser, the URL parser, the HTTPS client (what its connection answers), SHA3-256, the hexadecimal
  codec, the file system's answers, and the printing of a float with one decimal.
\<close>

subsection \<open>Floats and the maximum of an iterator\<close>

definition f32_is_nan :: "f32 \<Rightarrow> bool" where
  "f32_is_nan w \<longleftrightarrow> unat w mod 2 ^ 31 > 0x7F800000"

text \<open>Sign and magnitude: the patterns of the numbers in their numeric order.\<close>

definition f32_key :: "f32 \<Rightarrow> int" where
  "f32_key w = (let mag = int (unat w mod 2 ^ 31) in if unat w < 2 ^ 31 then mag else - mag)"

datatype ordering = Less | Equal | Greater

definition f32_partial_cmp :: "f32 \<Rightarrow> f32 \<Rightarrow> ordering option" where
  "f32_partial_cmp a b =
     (if f32_is_nan a \<or> f32_is_nan b then None
      else Some (if f32_key a < f32_key b then Less
                 else if f32_key a = f32_key b then Equal else Greater))"

text \<open>\<open>Iterator::max_by\<close>: the later of two equal elements wins.\<close>

definition max_by :: "('a \<Rightarrow> 'a \<Rightarrow> ordering) \<Rightarrow> 'a list \<Rightarrow> 'a option" where
  "max_by cmp xs =
     (case xs of
        [] \<Rightarrow> None
      | x # ys \<Rightarrow> Some (fold (\<lambda>y acc. if cmp acc y = Greater then acc else y) ys x))"

text \<open>The last of the largest elements under a key.\<close>

definition last_largest :: "('a \<Rightarrow> int) \<Rightarrow> 'a list \<Rightarrow> 'a \<Rightarrow> bool" where
  "last_largest k xs m \<longleftrightarrow>
     (\<exists>pre post. xs = pre @ m # post \<and> (\<forall>x \<in> set pre. k x \<le> k m) \<and> (\<forall>x \<in> set post. k x < k m))"

lemma last_largest_single: "last_largest k [x] x"
  unfolding last_largest_def by (rule exI [of _ "[]"], rule exI [of _ "[]"]) simp

lemma last_largest_snoc:
  assumes "last_largest k xs m"
  shows "last_largest k (xs @ [y]) (if k m > k y then m else y)"
proof -
  from assms obtain pre post where xs: "xs = pre @ m # post" "\<forall>x \<in> set pre. k x \<le> k m"
    "\<forall>x \<in> set post. k x < k m" by (auto simp: last_largest_def)
  show ?thesis
  proof (cases "k m > k y")
    case True
    then have "xs @ [y] = pre @ m # (post @ [y]) \<and> (\<forall>x \<in> set (post @ [y]). k x < k m)"
      using xs by auto
    then show ?thesis using True xs(2) unfolding last_largest_def by fastforce
  next
    case False
    then have "\<forall>x \<in> set xs. k x \<le> k y" using xs by fastforce
    then show ?thesis using False unfolding last_largest_def
      by (intro exI [of _ xs] exI [of _ "[]"]) simp
  qed
qed

lemma fold_last_largest:
  assumes "last_largest k xs m"
    and "\<And>x y. x \<in> set (xs @ ys) \<Longrightarrow> y \<in> set (xs @ ys) \<Longrightarrow> cmp x y = Greater \<longleftrightarrow> k x > k y"
  shows "last_largest k (xs @ ys) (fold (\<lambda>y acc. if cmp acc y = Greater then acc else y) ys m)"
  using assms
proof (induction ys arbitrary: xs m)
  case (Cons y ys)
  have "m \<in> set xs" using Cons.prems(1) by (auto simp: last_largest_def)
  then have "(if cmp m y = Greater then m else y) = (if k m > k y then m else y)"
    using Cons.prems(2) [of m y] by simp
  then have "last_largest k (xs @ [y]) (if cmp m y = Greater then m else y)"
    using last_largest_snoc [OF Cons.prems(1), of y] by simp
  from Cons.IH [OF this] Cons.prems(2) show ?case by simp
qed simp

lemma max_by_last_largest:
  assumes "\<And>x y. x \<in> set xs \<Longrightarrow> y \<in> set xs \<Longrightarrow> cmp x y = Greater \<longleftrightarrow> k x > k y"
  shows "case max_by cmp xs of None \<Rightarrow> xs = [] | Some m \<Rightarrow> last_largest k xs m"
proof (cases xs)
  case (Cons x ys)
  show ?thesis
    using fold_last_largest [OF last_largest_single, of x ys cmp k] assms by (simp add: Cons max_by_def)
qed (simp add: max_by_def)

subsection \<open>The manifest\<close>

record model_entry =
  me_name :: ustr
  base_arch :: ustr
  params_billion :: f32
  gguf_url :: ustr
  me_sha3_256 :: ustr
  recommended_min_ram_gb :: u32
  license :: ustr
  me_source :: ustr

record manifest =
  mf_version :: ustr
  entries :: "model_entry list"

definition list_entries :: "manifest \<Rightarrow> model_entry list" where
  "list_entries m = entries m"

definition cmp_params :: "model_entry \<Rightarrow> model_entry \<Rightarrow> ordering" where
  "cmp_params a b = (case f32_partial_cmp (params_billion a) (params_billion b) of
     Some c \<Rightarrow> c | None \<Rightarrow> Equal)"

definition fits :: "u32 \<Rightarrow> model_entry \<Rightarrow> bool" where
  "fits ram_gb e \<longleftrightarrow> recommended_min_ram_gb e \<le> ram_gb"

definition recommend_for_ram :: "manifest \<Rightarrow> u32 \<Rightarrow> model_entry option" where
  "recommend_for_ram m ram_gb = max_by cmp_params (filter (fits ram_gb) (entries m))"

definition param_key :: "model_entry \<Rightarrow> int" where
  "param_key e = f32_key (params_billion e)"

lemma cmp_params_key:
  "\<not> f32_is_nan (params_billion a) \<Longrightarrow> \<not> f32_is_nan (params_billion b) \<Longrightarrow>
     cmp_params a b = Greater \<longleftrightarrow> param_key a > param_key b"
  by (auto simp: cmp_params_def f32_partial_cmp_def param_key_def)

subsection \<open>Where a model is kept, and its verification\<close>

text \<open>\<open>str::get(..n)\<close>: the first \<open>n\<close> bytes, when they end at a character boundary.\<close>

fun get_to :: "nat \<Rightarrow> ustr \<Rightarrow> ustr option" where
  "get_to n [] = (if n = 0 then Some [] else None)"
| "get_to n (c # s) =
     (if n = 0 then Some []
      else if length (encode_char c) \<le> n then map_option ((#) c) (get_to (n - length (encode_char c)) s)
      else None)"

text \<open>\<open>PathBuf::join\<close> on a Unix path text: an absolute component replaces the path.\<close>

definition path_join :: "ustr \<Rightarrow> ustr \<Rightarrow> ustr" where
  "path_join p s =
     (if starts_with s (lit ''/'') then s
      else if p = [] \<or> last p = 47 then p @ s else p @ lit ''/'' @ s)"

definition cache_root :: "ustr option \<Rightarrow> ustr" where
  "cache_root xdg = (case xdg of Some p \<Rightarrow> p | None \<Rightarrow> lit ''/tmp/seck-models'')"

definition cache_root_windows :: "ustr option \<Rightarrow> ustr" where
  "cache_root_windows localappdata =
     (case map_option (\<lambda>p. win_join (win_join p (lit ''seck'')) (lit ''models'')) localappdata of
        Some p \<Rightarrow> p
      | None \<Rightarrow> lit ''C:'' @ [92] @ lit ''Temp'' @ [92] @ lit ''seck-models'')"

definition store_path :: "ustr option \<Rightarrow> ustr \<Rightarrow> ustr \<Rightarrow> ustr" where
  "store_path xdg sha url =
     (let base = cache_root xdg;
          pre = (case get_to 16 sha of Some p \<Rightarrow> p | None \<Rightarrow> sha);
          basename = last (split_on 47 url)
      in path_join (path_join base pre) basename)"

definition verify_file :: "(bytes \<Rightarrow> bytes) \<Rightarrow> (bytes \<Rightarrow> ustr) \<Rightarrow> (ustr \<Rightarrow> io_error + bytes) \<Rightarrow> ustr \<Rightarrow> ustr \<Rightarrow> bool" where
  "verify_file sha3 hex fs_read p expected =
     (case fs_read p of Inl e \<Rightarrow> False | Inr bs \<Rightarrow> hex (sha3 bs) = to_lowercase expected)"

subsection \<open>The host allowlist and the download\<close>

definition ALLOWED_HOSTS :: "ustr list" where
  "ALLOWED_HOSTS =
     [lit ''huggingface.co'', lit ''cdn-lfs.huggingface.co'', lit ''cdn-lfs-us-1.hf.co'',
      lit ''cdn-lfs-eu-1.hf.co'', lit ''github.com'', lit ''objects.githubusercontent.com'',
      lit ''raw.githubusercontent.com'', lit ''release-assets.githubusercontent.com'']"

definition is_allowed :: "ustr \<Rightarrow> bool" where
  "is_allowed host = list_ex (\<lambda>h. host = h \<or> ends_with host (46 # h)) ALLOWED_HOSTS"

datatype dl_error =
    DisallowedHost ustr
  | DlHashMismatch ustr ustr
  | PlaceholderHash ustr
  | DlHttp ustr
  | DlIo io_error
  | DlUrl ustr

record net_env =
  url_parse :: "ustr \<Rightarrow> ustr + ustr option"
  http_client :: "ustr option"
  http_get :: "ustr \<Rightarrow> ustr + read_answers"
  mkdir_parent :: "io_error option"
  tmp_create :: "io_error option"
  tmp_write :: "nat \<Rightarrow> io_error option"
  tmp_persist :: "io_error option"
  net_sha3 :: "bytes \<Rightarrow> bytes"
  net_hex :: "bytes \<Rightarrow> ustr"

text \<open>The copying loop: what the hasher has been fed, and what the temporary file holds.\<close>

fun dl_loop :: "(nat \<Rightarrow> io_error option) \<Rightarrow> nat \<Rightarrow> read_answers \<Rightarrow> bytes \<Rightarrow> bytes \<Rightarrow> dl_error + bytes \<times> bytes" where
  "dl_loop wr i [] hashed tmp = Inr (hashed, tmp)"
| "dl_loop wr i (Inl e # as) hashed tmp = Inl (DlIo e)"
| "dl_loop wr i (Inr c # as) hashed tmp =
     (if c = [] then Inr (hashed, tmp)
      else let hashed = hashed @ c in
           case wr i of Some e \<Rightarrow> Inl (DlIo e) | None \<Rightarrow> dl_loop wr (Suc i) as hashed (tmp @ c))"

fun check_io :: "io_error option \<Rightarrow> dl_error + unit" where
  "check_io (Some e) = Inl (DlIo e)"
| "check_io None = Inr ()"

definition download_verified :: "net_env \<Rightarrow> ustr \<Rightarrow> ustr \<Rightarrow> bytes option \<Rightarrow> bytes option \<times> (dl_error + unit)" where
  "download_verified env url expected dest =
     (let r =
        (if contains (to_uppercase expected) (lit ''REPLACE_AT_RELEASE'') then Inl (PlaceholderHash expected)
         else
           try_bind (map_err DlUrl (url_parse env url)) (\<lambda>parsed.
           try_bind (ok_or (DlUrl (lit ''no host'')) parsed) (\<lambda>host.
           if \<not> is_allowed host then Inl (DisallowedHost host) else
           try_bind (case http_client env of Some e \<Rightarrow> Inl (DlHttp e) | None \<Rightarrow> Inr ()) (\<lambda>_.
           try_bind (map_err DlHttp (http_get env url)) (\<lambda>resp.
           try_bind (check_io (mkdir_parent env)) (\<lambda>_.
           try_bind (check_io (tmp_create env)) (\<lambda>_.
           try_bind (dl_loop (tmp_write env) 0 resp [] []) (\<lambda>(hashed, tmp).
           let got = net_hex env (net_sha3 env hashed) in
           if got \<noteq> to_lowercase expected then Inl (DlHashMismatch expected got) else
           try_bind (check_io (tmp_persist env)) (\<lambda>_. Inr tmp)))))))))
      in case r of Inl e \<Rightarrow> (dest, Inl e) | Inr tmp \<Rightarrow> (Some tmp, Inr ()))"

text \<open>The labels of a host name; a host belongs to a domain when it ends with the domain's labels.\<close>

definition domain_labels :: "ustr \<Rightarrow> ustr list" where
  "domain_labels h = split_on 46 h"

lemma split_on_join_self: "join [c] (split_on c xs) = xs"
proof (induction xs)
  case (Cons x xs)
  then show ?case
    by (cases "split_on c xs" rule: list.exhaust; cases "tl (split_on c xs)") (auto split: list.splits)
qed simp

lemma join_append: "ys \<noteq> [] \<Longrightarrow> xs \<noteq> [] \<Longrightarrow> join sep (xs @ ys) = join sep xs @ sep @ join sep ys"
proof (induction xs rule: induct_list012)
  case (2 x)
  then show ?case by (cases ys) auto
qed auto

lemma split_on_append_sep: "split_on c (xs @ c # ys) = split_on c xs @ split_on c ys"
proof (induction xs)
  case (Cons x xs)
  then show ?case by (cases "split_on c xs") (auto split: list.splits)
qed simp

lemma domain_suffix_iff:
  "host = h \<or> ends_with host (46 # h) \<longleftrightarrow> suffix (domain_labels h) (domain_labels host)"
proof
  assume "host = h \<or> ends_with host (46 # h)"
  then show "suffix (domain_labels h) (domain_labels host)"
    by (auto simp: ends_with_def suffix_def domain_labels_def split_on_append_sep)
next
  assume "suffix (domain_labels h) (domain_labels host)"
  then obtain pre where p: "split_on 46 host = pre @ split_on 46 h"
    by (auto simp: suffix_def domain_labels_def)
  have host: "host = join [46] (pre @ split_on 46 h)" using split_on_join_self [of 46 host] unfolding p by (rule sym)
  show "host = h \<or> ends_with host (46 # h)"
  proof (cases "pre = []")
    case True
    with host show ?thesis by (simp add: split_on_join_self)
  next
    case False
    with host have "host = join [46] pre @ 46 # h" by (simp add: join_append split_on_join_self)
    then show ?thesis by (simp add: ends_with_def suffix_def)
  qed
qed

lemma is_allowed_labels:
  "is_allowed host \<longleftrightarrow> list_ex (\<lambda>h. suffix (domain_labels h) (domain_labels host)) ALLOWED_HOSTS"
  by (simp only: is_allowed_def domain_suffix_iff)

text \<open>The hasher is fed exactly what is written.\<close>

lemma dl_loop_content:
  "dl_loop wr i as hashed tmp = Inr (h, t) \<Longrightarrow> \<exists>cs. h = hashed @ cs \<and> t = tmp @ cs"
  by (induction wr i as hashed tmp rule: dl_loop.induct) (auto split: if_splits option.splits)

lemma dl_loop_same: "dl_loop wr i as [] [] = Inr (h, t) \<Longrightarrow> h = t"
  using dl_loop_content by fastforce

lemma check_io_Inr [simp]: "check_io e = Inr u \<longleftrightarrow> e = None"
  by (cases e) auto

subsection \<open>The commands\<close>

datatype models_op = ModelsList | ModelsRecommend u32 | ModelsPull ustr bool | ModelsVerify ustr ustr

datatype models_error =
    ManifestParse ustr
  | NoModelFits u32
  | AirgapRefused
  | NoEntry ustr
  | Download ustr dl_error
  | ReadFailed ustr io_error
  | Mismatch ustr ustr

record models_env =
  parse_toml :: "ustr \<Rightarrow> ustr + manifest"
  bundled_manifest :: ustr
  show_f32_1 :: "f32 \<Rightarrow> ustr"
  xdg_cache :: "ustr option"
  net :: net_env
  fs_read :: "ustr \<Rightarrow> io_error + bytes"

definition parse_manifest :: "models_env \<Rightarrow> models_error + manifest" where
  "parse_manifest env = map_err ManifestParse (parse_toml env (bundled_manifest env))"

definition pad_right :: "nat \<Rightarrow> ustr \<Rightarrow> ustr" where
  "pad_right n s = s @ replicate (n - length s) 32"

definition pad_left :: "nat \<Rightarrow> ustr \<Rightarrow> ustr" where
  "pad_left n s = replicate (n - length s) 32 @ s"

definition list_line :: "models_env \<Rightarrow> model_entry \<Rightarrow> ustr" where
  "list_line env e =
     pad_right 32 (me_name e) @ lit ''  '' @ pad_left 6 (show_f32_1 env (params_billion e)) @ lit ''B  ''
       @ pad_left 4 (show_nat (unat (recommended_min_ram_gb e))) @ lit ''GB  '' @ license e"

definition recommend_line :: "models_env \<Rightarrow> model_entry \<Rightarrow> ustr" where
  "recommend_line env e =
     lit ''recommended: '' @ me_name e @ lit '' ('' @ show_nat (unat (recommended_min_ram_gb e))
       @ lit '' GB RAM required, '' @ show_f32_1 env (params_billion e) @ lit ''B params, '' @ license e @ lit '')''"

text \<open>The dash and the arrow of the messages are U+2014 and U+2192.\<close>

definition ok_line :: "ustr \<Rightarrow> ustr" where
  "ok_line p = lit ''OK '' @ [0x2014] @ lit '' '' @ p"

definition models_run :: "models_env \<Rightarrow> models_op \<Rightarrow> (ustr \<Rightarrow> bytes option)
    \<Rightarrow> (ustr \<Rightarrow> bytes option) \<times> ustr list \<times> (models_error + unit)" where
  "models_run env op fs =
     (case parse_manifest env of
        Inl e \<Rightarrow> (fs, [], Inl e)
      | Inr m \<Rightarrow>
         (case op of
            ModelsList \<Rightarrow> (fs, map (list_line env) (list_entries m), Inr ())
          | ModelsRecommend ram_gb \<Rightarrow>
              (case recommend_for_ram m ram_gb of
                 Some e \<Rightarrow> (fs, [recommend_line env e], Inr ())
               | None \<Rightarrow> (fs, [], Inl (NoModelFits ram_gb)))
          | ModelsPull name airgap \<Rightarrow>
              if airgap then (fs, [], Inl AirgapRefused)
              else
                (case find (\<lambda>e. me_name e = name) (entries m) of
                   None \<Rightarrow> (fs, [], Inl (NoEntry name))
                 | Some e \<Rightarrow>
                     let dest = store_path (xdg_cache env) (me_sha3_256 e) (gguf_url e);
                         (f, r) = download_verified (net env) (gguf_url e) (me_sha3_256 e) (fs dest);
                         fs' = fs(dest := f)
                     in case r of
                          Inl err \<Rightarrow> (fs', [], Inl (Download name err))
                        | Inr _ \<Rightarrow> (fs', [ok_line (me_name e) @ lit '' '' @ [0x2192] @ lit '' '' @ dest], Inr ()))
          | ModelsVerify p hexstr \<Rightarrow>
              (case fs_read env p of
                 Inl e \<Rightarrow> (fs, [], Inl (ReadFailed p e))
               | Inr bs \<Rightarrow>
                   let got = net_hex (net env) (net_sha3 (net env) bs); want = to_lowercase hexstr in
                   if got = want then (fs, [ok_line p], Inr ()) else (fs, [], Inl (Mismatch want got)))))"

text \<open>The \<open>verify\<close> command and \<open>verify_file\<close> accept the same files.\<close>

lemma models_verify_iff:
  assumes "parse_manifest env = Inr m"
  shows "is_ok (snd (snd (models_run env (ModelsVerify p h) fs)))
    \<longleftrightarrow> verify_file (net_sha3 (net env)) (net_hex (net env)) (fs_read env) p h"
  using assms by (auto simp: models_run_def verify_file_def Let_def split: sum.splits)

lemma airgap_pull: "parse_manifest env = Inr m \<Longrightarrow>
    models_run env (ModelsPull name True) fs = (fs, [], Inl AirgapRefused)"
  by (simp add: models_run_def)

text \<open>Joining plain components stays below the root.\<close>

lemma path_join_prefix: "\<not> starts_with s (lit ''/'') \<Longrightarrow> prefix p (path_join p s)"
  by (simp add: path_join_def)

lemma basename_plain: "\<not> starts_with (last (split_on 47 url)) (lit ''/'')"
proof -
  have "47 \<notin> set (last (split_on 47 url))"
    by (rule split_on_no_sep [OF last_in_set]) simp
  then show ?thesis by (auto simp: starts_with_def prefix_def)
qed

lemma get_to_Some: "get_to n s = Some p \<Longrightarrow> prefix p s \<and> length (utf8_encode p) = n"
  by (induction n s arbitrary: p rule: get_to.induct) (auto split: if_splits)

lemma store_path_below:
  assumes "\<not> starts_with sha (lit ''/'')"
  shows "prefix (cache_root xdg) (store_path xdg sha url)"
proof -
  define pre where "pre = (case get_to 16 sha of Some p \<Rightarrow> p | None \<Rightarrow> sha)"
  have "prefix pre sha" using get_to_Some by (auto simp: pre_def split: option.splits)
  then have "\<not> starts_with pre (lit ''/'')"
    using assms by (auto simp: starts_with_def prefix_def)
  then show ?thesis
    using path_join_prefix [of pre] path_join_prefix [OF basename_plain]
    by (auto simp: store_path_def pre_def Let_def intro: prefix_order.trans)
qed

section \<open>Properties\<close>

text \<open>On a manifest whose parameter counts are numbers, the recommendation is the largest model among
  those that fit the memory, the last one listed when several are equally large; there is none exactly when no
  model fits.\<close>

theorem recommend_spec:
  assumes "list_all (\<lambda>e. \<not> f32_is_nan (params_billion e)) (entries m)"
  shows "case recommend_for_ram m ram of
      None \<Rightarrow> list_all (\<lambda>e. ram < recommended_min_ram_gb e) (entries m)
    | Some e \<Rightarrow> last_largest param_key (filter (fits ram) (entries m)) e"
proof -
  have "case recommend_for_ram m ram of None \<Rightarrow> filter (fits ram) (entries m) = []
    | Some e \<Rightarrow> last_largest param_key (filter (fits ram) (entries m)) e"
    unfolding recommend_for_ram_def
    by (rule max_by_last_largest) (use assms in \<open>auto simp: list_all_iff cmp_params_key\<close>)
  then show ?thesis
    by (auto simp: filter_empty_conv fits_def list_all_iff not_le split: option.splits)
qed

definition sample_entry :: "ustr \<Rightarrow> f32 \<Rightarrow> u32 \<Rightarrow> model_entry" where
  "sample_entry n p r = \<lparr>me_name = n, base_arch = [], params_billion = p, gguf_url = [], me_sha3_256 = [],
     recommended_min_ram_gb = r, license = [], me_source = []\<rparr>"

text \<open>1.5, 8 and 30 billion parameters.\<close>

definition sample_manifest :: manifest where
  "sample_manifest = \<lparr>mf_version = [], entries = [sample_entry [1] 0x3FC00000 4,
     sample_entry [2] 0x41000000 12, sample_entry [3] 0x41F00000 24]\<rparr>"

lemma sample_recommend: "recommend_for_ram sample_manifest 16 = Some (sample_entry [2] 0x41000000 12)"
  by (simp add: recommend_for_ram_def sample_manifest_def sample_entry_def fits_def max_by_def cmp_params_def
      f32_partial_cmp_def f32_is_nan_def f32_key_def)

text \<open>A parameter count that is not a number compares as equal, and a small model can then win.\<close>

lemma nan_recommends_small:
  "recommend_for_ram \<lparr>mf_version = [], entries = [sample_entry [3] 0x41F00000 4, sample_entry [0] 0x7FC00000 4,
     sample_entry [1] 0x3FC00000 4]\<rparr> 16 = Some (sample_entry [1] 0x3FC00000 4)"
  by (simp add: recommend_for_ram_def sample_entry_def fits_def max_by_def cmp_params_def
      f32_partial_cmp_def f32_is_nan_def f32_key_def)

theorem recommend_spec_witness:
  "last_largest param_key (filter (fits 16) (entries sample_manifest)) (sample_entry [2] 0x41000000 12)"
proof -
  have "list_all (\<lambda>e. \<not> f32_is_nan (params_billion e)) (entries sample_manifest)"
    by (simp add: sample_manifest_def sample_entry_def f32_is_nan_def)
  from recommend_spec [OF this, of 16] show ?thesis by (simp add: sample_recommend)
qed

text \<open>C26: whatever the network and the file system answer, a download that reports success came from a URL
  whose host is one of the allowed domains or below one, label by label, with a hash that is not a placeholder,
  and the destination holds exactly bytes of that hash; a download that fails leaves the destination as it was.\<close>

theorem download_verified_safe:
  "case download_verified env url expected dest of
     (dest', Inl e) \<Rightarrow> dest' = dest
   | (dest', Inr u) \<Rightarrow>
       (\<exists>body host. dest' = Some body \<and> net_hex env (net_sha3 env body) = to_lowercase expected
          \<and> url_parse env url = Inr (Some host)
          \<and> list_ex (\<lambda>h. suffix (domain_labels h) (domain_labels host)) ALLOWED_HOSTS
          \<and> \<not> contains (to_uppercase expected) (lit ''REPLACE_AT_RELEASE''))"
  by (auto simp: download_verified_def Let_def is_allowed_labels ok_or_Inr_iff simp del: lit_Cons
      dest: dl_loop_same split: sum.splits if_splits)

end
