(* ===== verification/Sandbox.thy ===== *)
theory Sandbox
  imports Models Orchestrator WindowsHost
begin

section \<open>\<open>seck-sandbox\<close>: lockdown and the container backend\<close>

text \<open>
  \<open>crates/seck-sandbox/src\<close> (Linux, macOS, the fallback and the container backend).  What the kernel and
  the container runtimes answer is a parameter; \<open>lock_state\<close> says which restrictions the kernel has put on the
  process.  A system call changes it by its answer alone; what the code does with the answer is its own step,
  so that the order of the steps, the checks and the early returns show.  The calls of the Windows backend are
  in \<open>WindowsHost\<close>.
\<close>

subsection \<open>Profiles and backends\<close>

datatype platform_os = Linux | MacOS | Windows | OtherOs

record profile_files =
  seccomp_toml :: bytes
  landlock_toml :: bytes
  seatbelt_sb :: bytes
  dockerfile :: bytes
  build_sh :: bytes

definition bundled_profile_hash :: "(bytes \<Rightarrow> bytes) \<Rightarrow> profile_files \<Rightarrow> platform_os \<Rightarrow> bytes" where
  "bundled_profile_hash sha3 pf os =
     sha3 (case os of
        Linux \<Rightarrow> seccomp_toml pf @ landlock_toml pf
      | MacOS \<Rightarrow> seatbelt_sb pf
      | Windows \<Rightarrow> blit ''windows-appcontainer-v1''
      | OtherOs \<Rightarrow> [])"

record sandbox_backend =
  sb_name :: ustr
  sb_profile :: bytes

text \<open>The Windows backend hashes more than \<open>bundled_profile_hash\<close> does.\<close>

definition windows_profile_hash :: "(bytes \<Rightarrow> bytes) \<Rightarrow> bytes" where
  "windows_profile_hash sha3 =
     sha3 (blit ''windows-appcontainer-v1'' @ blit ''Seck.Analyzer''
           @ blit ''acg|cig|dep|aslr|eaf|strict-handle|syscall-disable'')"

text \<open>\<open>new\<close> of each backend computes the hash that \<open>profile_sha3_256\<close> returns.\<close>

definition linux_new :: "(bytes \<Rightarrow> bytes) \<Rightarrow> profile_files \<Rightarrow> bytes" where
  "linux_new sha3 pf = bundled_profile_hash sha3 pf Linux"

definition linux_sandbox :: "bytes \<Rightarrow> sandbox_backend" where
  "linux_sandbox profile_hash = \<lparr>sb_name = lit ''linux-landlock-prctl'', sb_profile = profile_hash\<rparr>"

definition macos_new :: "(bytes \<Rightarrow> bytes) \<Rightarrow> profile_files \<Rightarrow> bytes" where
  "macos_new sha3 pf = bundled_profile_hash sha3 pf MacOS"

definition macos_sandbox :: "bytes \<Rightarrow> sandbox_backend" where
  "macos_sandbox profile_hash = \<lparr>sb_name = lit ''macos-seatbelt'', sb_profile = profile_hash\<rparr>"

definition windows_sandbox :: "bytes \<Rightarrow> sandbox_backend" where
  "windows_sandbox profile_hash = \<lparr>sb_name = lit ''windows-appcontainer'', sb_profile = profile_hash\<rparr>"

definition fallback_new :: "(bytes \<Rightarrow> bytes) \<Rightarrow> profile_files \<Rightarrow> bytes" where
  "fallback_new sha3 pf = bundled_profile_hash sha3 pf OtherOs"

definition fallback_sandbox :: "bytes \<Rightarrow> sandbox_backend" where
  "fallback_sandbox profile_hash = \<lparr>sb_name = lit ''stub-non-linux'', sb_profile = profile_hash\<rparr>"

definition default_backend :: "(bytes \<Rightarrow> bytes) \<Rightarrow> profile_files \<Rightarrow> platform_os \<Rightarrow> sandbox_backend" where
  "default_backend sha3 pf os =
     (case os of
        Linux \<Rightarrow> linux_sandbox (linux_new sha3 pf)
      | MacOS \<Rightarrow> macos_sandbox (macos_new sha3 pf)
      | Windows \<Rightarrow> windows_sandbox (windows_profile_hash sha3)
      | OtherOs \<Rightarrow> fallback_sandbox (fallback_new sha3 pf))"

definition container_sandbox :: "(bytes \<Rightarrow> bytes) \<Rightarrow> profile_files \<Rightarrow> sandbox_backend" where
  "container_sandbox sha3 pf =
     \<lparr>sb_name = lit ''container-podman'', sb_profile = sha3 (dockerfile pf @ build_sh pf)\<rparr>"

subsection \<open>Self lockdown\<close>

datatype lockdown_error =
    NoNewPrivsErr io_error
  | TscErr io_error
  | LandlockErr ustr
  | LandlockNotEnforced
  | NulInPath
  | SeatbeltErr ustr
  | WindowsErr win_error
  | NoBackend

datatype ruleset_status = FullyEnforced | PartiallyEnforced | NotEnforced

text \<open>\<open>landlock_ruleset\<close> is the status the kernel gives the ruleset this process restricted itself with,
  if it did; \<open>win_process\<close> holds the mitigation policies set on Windows.\<close>

record lock_state =
  no_new_privs :: bool
  tsc_blocked :: bool
  landlock_ruleset :: "ruleset_status option"
  seccomp_loaded :: bool
  seatbelt_on :: bool
  win_process :: win

definition unlocked :: lock_state where
  "unlocked = \<lparr>no_new_privs = False, tsc_blocked = False, landlock_ruleset = None, seccomp_loaded = False,
     seatbelt_on = False,
     win_process = \<lparr>handles = [], attr_lists = [], sids = 0, policies = [], children = [], job_limits = [],
                    job_members = []\<rparr>\<rparr>"

definition landlocked :: "lock_state \<Rightarrow> bool" where
  "landlocked s \<longleftrightarrow> landlock_ruleset s \<in> {Some FullyEnforced, Some PartiallyEnforced}"

record linux_kernel =
  set_no_new_privs :: "io_error option"
  prctl_tsc :: "io_error option"
  landlock_restrict :: "ustr + ruleset_status"

text \<open>The three calls: each changes the process exactly when the kernel reports that it did.\<close>

definition sys_no_new_privs :: "linux_kernel \<Rightarrow> lock_state \<Rightarrow> lock_state \<times> io_error option" where
  "sys_no_new_privs k s =
     (case set_no_new_privs k of None \<Rightarrow> (s\<lparr>no_new_privs := True\<rparr>, None) | Some e \<Rightarrow> (s, Some e))"

definition sys_set_tsc :: "linux_kernel \<Rightarrow> lock_state \<Rightarrow> lock_state \<times> io_error option" where
  "sys_set_tsc k s = (case prctl_tsc k of None \<Rightarrow> (s\<lparr>tsc_blocked := True\<rparr>, None) | Some e \<Rightarrow> (s, Some e))"

definition sys_restrict_self :: "linux_kernel \<Rightarrow> lock_state \<Rightarrow> lock_state \<times> (ustr + ruleset_status)" where
  "sys_restrict_self k s =
     (case landlock_restrict k of
        Inl e \<Rightarrow> (s, Inl e)
      | Inr status \<Rightarrow> (s\<lparr>landlock_ruleset := Some status\<rparr>, Inr status))"

definition linux_lockdown :: "linux_kernel \<Rightarrow> bool \<Rightarrow> lock_state \<Rightarrow> lock_state \<times> (lockdown_error + unit)" where
  "linux_lockdown k x86_64 s =
     (case sys_no_new_privs k s of
        (s, Some e) \<Rightarrow> (s, Inl (NoNewPrivsErr e))
      | (s, None) \<Rightarrow>
          st_bind
            (if x86_64
             then (case sys_set_tsc k s of (s, Some e) \<Rightarrow> (s, Inl (TscErr e)) | (s, None) \<Rightarrow> (s, Inr ()))
             else (s, Inr ()))
            (\<lambda>_ s.
              case sys_restrict_self k s of
                (s, Inl e) \<Rightarrow> (s, Inl (LandlockErr e))
              | (s, Inr status) \<Rightarrow> if status = NotEnforced then (s, Inl LandlockNotEnforced) else (s, Inr ())))"

text \<open>\<open>CString::new\<close> refuses an interior NUL; \<open>seatbelt\<close> is \<open>sandbox_init_with_parameters\<close>.\<close>

definition cstring :: "bytes \<Rightarrow> lockdown_error + bytes" where
  "cstring bs = (if 0 \<in> set bs then Inl NulInPath else Inr bs)"

definition sandbox_init :: "(bytes \<Rightarrow> (bytes \<times> bytes) list \<Rightarrow> bytes option option) \<Rightarrow> bytes \<Rightarrow> (bytes \<times> bytes) list
    \<Rightarrow> lock_state \<Rightarrow> lock_state \<times> bytes option option" where
  "sandbox_init seatbelt cprofile params s =
     (case seatbelt cprofile params of
        None \<Rightarrow> (s\<lparr>seatbelt_on := True\<rparr>, None)
      | Some errbuf \<Rightarrow> (s, Some errbuf))"

definition macos_lockdown :: "(bytes \<Rightarrow> (bytes \<times> bytes) list \<Rightarrow> bytes option option) \<Rightarrow> profile_files \<Rightarrow> bytes \<Rightarrow> bytes
    \<Rightarrow> lock_state \<Rightarrow> lock_state \<times> (lockdown_error + unit)" where
  "macos_lockdown seatbelt pf model_dir infer_bin s =
     (case cstring (seatbelt_sb pf) of
        Inl e \<Rightarrow> (s, Inl e)
      | Inr cprofile \<Rightarrow>
     (case cstring model_dir of
        Inl e \<Rightarrow> (s, Inl e)
      | Inr cmodel \<Rightarrow>
     (case cstring infer_bin of
        Inl e \<Rightarrow> (s, Inl e)
      | Inr cinfer \<Rightarrow>
     (case sandbox_init seatbelt cprofile [(blit ''MODEL_DIR'', cmodel), (blit ''INFER_BIN'', cinfer)] s of
        (s, Some None) \<Rightarrow> (s, Inl (SeatbeltErr (lit ''unknown sandbox error (errbuf was NULL)'')))
      | (s, Some (Some msg)) \<Rightarrow> (s, Inl (SeatbeltErr (utf8_lossy msg)))
      | (s, None) \<Rightarrow> (s, Inr ())))))"

record lockdown_env =
  lk_os :: platform_os
  lk_x86_64 :: bool
  lk_linux :: linux_kernel
  lk_seatbelt :: "bytes \<Rightarrow> (bytes \<times> bytes) list \<Rightarrow> bytes option option"
  lk_windows :: win_env
  lk_model_dir :: "bytes option"
  lk_infer_bin :: "bytes option"
  lk_profiles :: profile_files

definition apply_self_lockdown :: "lockdown_env \<Rightarrow> lock_state \<Rightarrow> lock_state \<times> (lockdown_error + unit)" where
  "apply_self_lockdown env s =
     (case lk_os env of
        Linux \<Rightarrow> linux_lockdown (lk_linux env) (lk_x86_64 env) s
      | MacOS \<Rightarrow>
          macos_lockdown (lk_seatbelt env) (lk_profiles env)
            (case lk_model_dir env of Some d \<Rightarrow> d | None \<Rightarrow> blit ''/tmp'')
            (case lk_infer_bin env of Some b \<Rightarrow> b | None \<Rightarrow> blit ''/usr/bin/true'') s
      | Windows \<Rightarrow>
          (case windows_lockdown (lk_windows env) (win_process s) of
             (w, res) \<Rightarrow> (s\<lparr>win_process := w\<rparr>, map_err WindowsErr res))
      | OtherOs \<Rightarrow> (s, Inl NoBackend))"

text \<open>The fallback backend has a lockdown of its own, which always fails.\<close>

definition fallback_lockdown :: "lock_state \<Rightarrow> lock_state \<times> (ustr + unit)" where
  "fallback_lockdown s =
     (s, Inl (lit ''Linux sandbox not available on this platform; see Plan 02 for macOS Seatbelt''))"

subsection \<open>The container backend\<close>

datatype runtime = Podman ustr | RootlessDocker ustr | RootfulDocker ustr

datatype detect_error = NoRuntime | OnlyRootfulDocker | DetectIo io_error

text \<open>\<open>which\<close>: the first directory of the search path with a file of that name.\<close>

definition which :: "ustr option \<Rightarrow> (ustr \<Rightarrow> bool) \<Rightarrow> ustr \<Rightarrow> ustr option" where
  "which path_var is_file prog =
     (case path_var of
        None \<Rightarrow> None
      | Some p \<Rightarrow> find is_file (map (\<lambda>dir. path_join dir prog) (split_on 58 p)))"

record runtime_env =
  path_var :: "ustr option"
  is_file :: "ustr \<Rightarrow> bool"
  podman_info :: "ustr \<Rightarrow> io_error + (bool \<times> bytes)"
  docker_info :: "ustr \<Rightarrow> io_error + (bool \<times> bytes)"

definition try_docker :: "runtime_env \<Rightarrow> bool \<Rightarrow> detect_error + runtime" where
  "try_docker env allow =
     (case which (path_var env) (is_file env) (lit ''docker'') of
        None \<Rightarrow> Inl NoRuntime
      | Some p \<Rightarrow>
          try_bind (map_err DetectIo (docker_info env p)) (\<lambda>(success, out).
          if contains (utf8_lossy out) (lit ''rootless'') then Inr (RootlessDocker p)
          else if allow then Inr (RootfulDocker p)
          else Inl OnlyRootfulDocker))"

definition detect_runtime :: "runtime_env \<Rightarrow> bool \<Rightarrow> detect_error + runtime" where
  "detect_runtime env allow =
     (case which (path_var env) (is_file env) (lit ''podman'') of
        None \<Rightarrow> try_docker env allow
      | Some p \<Rightarrow>
          try_bind (map_err DetectIo (podman_info env p)) (\<lambda>(success, out).
          if success \<and> starts_with out (blit ''true'') then Inr (Podman p)
          else try_docker env allow))"

definition build_args :: "runtime \<Rightarrow> ustr \<Rightarrow> ustr list" where
  "build_args rt model_dir =
     [lit ''run'', lit ''--rm'', lit ''--network=none'', lit ''--read-only'', lit ''--cap-drop=ALL'',
      lit ''--security-opt=no-new-privileges'', lit ''--tmpfs=/tmp:noexec,nosuid,size=64m'', lit ''--memory=2g'',
      lit ''--pids-limit=64'', lit ''--no-healthcheck'', lit ''--hostname=seck-sandbox'', lit ''--ipc=none'',
      lit ''--cpus=1.0'', lit ''--volume='' @ model_dir @ lit '':/models:ro'', lit ''--userns=auto'', lit ''-i'',
      lit ''localhost/seck-reader:0.1.0'']"

section \<open>\<open>seck-host-unsafe\<close> and \<open>seck-portal\<close>: opening the target\<close>

text \<open>
  \<open>crates/seck-host-unsafe/src\<close> and \<open>crates/seck-portal/src/main.rs\<close>.  The system calls answer an error
  number or a descriptor.  \<open>path_bytes\<close> of \<open>Fileset\<close> is the text handed to them.
\<close>

definition O_RDONLY :: u64 where "O_RDONLY = 0"
definition O_CLOEXEC :: u64 where "O_CLOEXEC = 0x80000"
definition O_NOFOLLOW :: u64 where "O_NOFOLLOW = 0x20000"
definition RESOLVE_NO_SYMLINKS :: u64 where "RESOLVE_NO_SYMLINKS = 0x04"
definition RESOLVE_NO_MAGICLINKS :: u64 where "RESOLVE_NO_MAGICLINKS = 0x02"
definition RESOLVE_NO_XDEV :: u64 where "RESOLVE_NO_XDEV = 0x01"

record open_how =
  how_flags :: u64
  how_mode :: u64
  how_resolve :: u64

definition target_how :: open_how where
  "target_how = \<lparr>how_flags = or (or O_RDONLY O_CLOEXEC) O_NOFOLLOW, how_mode = 0,
     how_resolve = or (or RESOLVE_NO_SYMLINKS RESOLVE_NO_MAGICLINKS) RESOLVE_NO_XDEV\<rparr>"

definition ELOOP :: nat where "ELOOP = 40"
definition EXDEV :: nat where "EXDEV = 18"

definition linux_open_target :: "(open_how \<Rightarrow> bytes \<Rightarrow> nat + nat) \<Rightarrow> path \<Rightarrow> resolve_error + nat" where
  "linux_open_target openat2 p =
     (if 0 \<in> set (path_bytes p) then Inl EscapeErr
      else case openat2 target_how (path_bytes p) of
        Inr fd \<Rightarrow> Inr fd
      | Inl err \<Rightarrow> Inl (if err = ELOOP then SymlinkErr else if err = EXDEV then EscapeErr
                       else ResolveIo (OsError err)))"

definition MAC_ELOOP :: nat where "MAC_ELOOP = 62"

text \<open>\<open>Path::parent\<close>.\<close>

definition parent :: "path \<Rightarrow> path option" where
  "parent p = (if p = [] \<or> p = [RootDir] then None else Some (butlast p))"

record mac_kernel =
  mac_open :: "path \<Rightarrow> nat + nat"
  canonicalize :: "path \<Rightarrow> path option"

definition macos_open_target :: "mac_kernel \<Rightarrow> path \<Rightarrow> resolve_error + nat" where
  "macos_open_target k p =
     (if 0 \<in> set (path_bytes p) then Inl EscapeErr
      else case mac_open k p of
        Inl err \<Rightarrow> Inl (if err = MAC_ELOOP then SymlinkErr else ResolveIo (OsError err))
      | Inr owned \<Rightarrow>
         (case canonicalize k p of
            None \<Rightarrow> Inr owned
          | Some canon \<Rightarrow>
             (case (Option.bind (parent p) (canonicalize k), parent canon) of
                (Some want, Some got) \<Rightarrow> if got \<noteq> want then Inl RealpathMismatch else Inr owned
              | _ \<Rightarrow> Inr owned)))"

definition stub_open_target :: "path \<Rightarrow> resolve_error + nat" where
  "stub_open_target p =
     Inl (ResolveIo (OtherIo (lit ''open_target not implemented on this platform; see Plan 02 for macOS'')))"

text \<open>On Windows the resolver opens nothing and has a type of its own.\<close>

datatype windows_resolve_error = UnsupportedPlatform | WindowsResolveIo io_error

definition windows_open_target :: "path \<Rightarrow> windows_resolve_error + unit" where
  "windows_open_target p = Inl UnsupportedPlatform"

text \<open>
  The portal.  A descriptor has an object and its close-on-exec flag.  \<open>open_target\<close> takes the lowest free
  number and sets the flag; \<open>dup2\<close> onto another number clears it and onto the same number changes nothing;
  \<open>exec\<close> closes the flagged ones.
\<close>

type_synonym cfdtab = "(nat \<times> bool) option list"

definition cdup2 :: "nat \<Rightarrow> nat \<Rightarrow> cfdtab \<Rightarrow> io_error + cfdtab" where
  "cdup2 old new t =
     (case fd_get t old of
        None \<Rightarrow> Inl (OsError 9)
      | Some (ob, cloexec) \<Rightarrow> if old = new then Inr t else Inr (fd_set new (ob, False) t))"

definition exec_table :: "cfdtab \<Rightarrow> cfdtab" where
  "exec_table t = map (\<lambda>e. case e of Some (ob, True) \<Rightarrow> None | _ \<Rightarrow> e) t"

definition portal_command :: "ustr option \<Rightarrow> command" where
  "portal_command exe =
     \<lparr>program = (case exe of Some p \<Rightarrow> p | None \<Rightarrow> lit ''/usr/local/bin/seck''),
      cmd_args = [lit ''analyze'', lit ''--fd=3''], cmd_env = []\<rparr>"

text \<open>The portal's own \<open>which\<close>.\<close>

definition portal_which :: "ustr option \<Rightarrow> (ustr \<Rightarrow> bool) \<Rightarrow> ustr \<Rightarrow> ustr option" where
  "portal_which pv isf prog =
     Option.bind pv (\<lambda>p. find isf (map (\<lambda>d. path_join d prog) (split_on 58 p)))"

lemma portal_which_is_which: "portal_which = which"
  by (auto simp: fun_eq_iff portal_which_def which_def split: option.split)

text \<open>One call: the portal's table afterwards, and the command with the table it starts with.\<close>

definition analyze_path :: "(path \<Rightarrow> resolve_error + nat) \<Rightarrow> ustr option \<Rightarrow> (ustr \<Rightarrow> bool) \<Rightarrow> io_error option
    \<Rightarrow> path \<Rightarrow> cfdtab \<Rightarrow> cfdtab \<times> (resolve_error + io_error + (command \<times> cfdtab))" where
  "analyze_path open_target pv isf spawn_err p t =
     (case open_target p of
        Inl e \<Rightarrow> (t, Inl e)
      | Inr ob \<Rightarrow>
          let (raw, t') = fd_alloc (ob, True) t;
              cmd = portal_command (portal_which pv isf (lit ''seck'')) in
          (case spawn_err of
             Some e \<Rightarrow> (t', Inr (Inl e))
           | None \<Rightarrow>
              (case cdup2 raw 3 t' of
                 Inl e \<Rightarrow> (t', Inr (Inl e))
               | Inr child \<Rightarrow> (t', Inr (Inr (cmd, exec_table child))))))"

section \<open>Lemmas\<close>

lemma fd_get_exec: "fd_get (exec_table t) n = (case fd_get t n of Some (ob, True) \<Rightarrow> None | e \<Rightarrow> e)"
  by (auto simp: fd_get_def exec_table_def split: option.splits bool.splits)

lemma find_SomeD: "find P xs = Some x \<Longrightarrow> P x \<and> x \<in> set xs"
  by (induction xs) (auto split: if_splits)

lemma landlocked_iff: "landlocked s \<longleftrightarrow> (\<exists>st. landlock_ruleset s = Some st \<and> st \<noteq> NotEnforced)"
  by (auto simp: landlocked_def intro: ruleset_status.exhaust)

lemma landlock_off:
  "(landlock_ruleset s = None \<or> landlock_ruleset s = Some NotEnforced) \<longleftrightarrow> \<not> landlocked s"
  by (cases "landlock_ruleset s") (auto simp: landlocked_iff)

lemmas linux_calls = sys_no_new_privs_def sys_set_tsc_def sys_restrict_self_def

lemma lockdown_keeps:
  "linux_lockdown k x s = (s', r) \<Longrightarrow> seccomp_loaded s' = seccomp_loaded s \<and> seatbelt_on s' = seatbelt_on s"
  by (auto simp: linux_lockdown_def linux_calls split: option.splits if_splits sum.splits ruleset_status.splits)

lemma linux_locked:
  "linux_lockdown k x unlocked = (s, r) \<Longrightarrow>
     (case r of Inr u \<Rightarrow> no_new_privs s \<and> landlocked s \<and> tsc_blocked s = x \<and> \<not> seccomp_loaded s
      | Inl e \<Rightarrow> \<not> landlocked s \<and> \<not> seatbelt_on s \<and> \<not> seccomp_loaded s)"
  by (cases "set_no_new_privs k"; cases x; cases "prctl_tsc k"; cases "landlock_restrict k")
    (auto simp: linux_lockdown_def linux_calls unlocked_def landlocked_iff split: if_splits)

lemma macos_locked:
  "macos_lockdown sb pf d b unlocked = (s, r) \<Longrightarrow>
     (case r of Inr u \<Rightarrow> seatbelt_on s \<and> \<not> seccomp_loaded s
      | Inl e \<Rightarrow> \<not> landlocked s \<and> \<not> seatbelt_on s \<and> \<not> seccomp_loaded s)"
  by (auto simp: macos_lockdown_def sandbox_init_def unlocked_def landlocked_def split: sum.splits option.splits)

lemma windows_locked:
  "windows_lockdown we (win_process unlocked) = (w, Inr u) \<Longrightarrow>
     set (map fst (policies w)) = {DynamicCodePolicy, SignaturePolicy, StrictHandleCheckPolicy,
        ImageLoadPolicy, ExtensionPointDisablePolicy, SystemCallDisablePolicy}
     \<and> list_all (\<lambda>(p, flags). flags = 0) (policies w)"
  by (auto simp: windows_lockdown_def apply_mitigations_def set_policy_def unlocked_def split: option.splits)

text \<open>The attested profile covers the seccomp allowlist although no filter is ever loaded.\<close>

lemma seccomp_never_loaded:
  "seccomp_loaded (fst (apply_self_lockdown env unlocked)) = False"
  using lockdown_keeps [of "lk_linux env" "lk_x86_64 env" unlocked]
  by (cases "linux_lockdown (lk_linux env) (lk_x86_64 env) unlocked")
    (auto simp: apply_self_lockdown_def macos_lockdown_def sandbox_init_def unlocked_def
      split: platform_os.splits sum.splits option.splits prod.splits)

lemma which_is_file: "which pv isf prog = Some p \<Longrightarrow> isf p"
  by (auto simp: which_def dest: find_SomeD split: option.splits)

text \<open>What a detected runtime has shown.\<close>

definition runtime_checked :: "runtime_env \<Rightarrow> bool \<Rightarrow> runtime \<Rightarrow> bool" where
  "runtime_checked env allow r =
     (case r of
        Podman p \<Rightarrow> is_file env p \<and> (\<exists>out. podman_info env p = Inr (True, out) \<and> starts_with out (blit ''true''))
      | RootlessDocker p \<Rightarrow> is_file env p
          \<and> (\<exists>ok out. docker_info env p = Inr (ok, out) \<and> contains (utf8_lossy out) (lit ''rootless''))
      | RootfulDocker p \<Rightarrow> is_file env p \<and> allow)"

lemma try_docker_checked:
  "try_docker env allow = Inr r \<Longrightarrow> runtime_checked env allow r"
  "try_docker env allow = Inl OnlyRootfulDocker \<Longrightarrow> \<not> allow"
  by (auto simp: try_docker_def runtime_checked_def try_bind_Inl_iff map_err_Inl_iff simp del: lit_Cons
      dest: which_is_file split: option.splits if_splits)

lemma detect_checked:
  assumes "detect_runtime env allow = Inr r"
  shows "runtime_checked env allow r"
proof (cases "\<exists>p. r = Podman p")
  case True
  then show ?thesis using assms try_docker_checked(1) [of env allow r]
    by (auto simp: detect_runtime_def runtime_checked_def simp del: blit_Cons lit_Cons
        dest: which_is_file split: option.splits if_splits)
next
  case False
  then have "try_docker env allow = Inr r" using assms
    by (auto simp: detect_runtime_def simp del: blit_Cons lit_Cons split: option.splits if_splits)
  then show ?thesis by (rule try_docker_checked(1))
qed

lemma detect_only_rootful: "detect_runtime env allow = Inl OnlyRootfulDocker \<Longrightarrow> \<not> allow"
  using try_docker_checked(2) [of env allow]
  by (auto simp: detect_runtime_def try_bind_Inl_iff map_err_Inl_iff simp del: blit_Cons lit_Cons
      split: option.splits if_splits)

text \<open>The attested hash and the backend's own hash agree everywhere but on Windows.\<close>

lemma profile_hash_agrees: "os \<noteq> Windows \<Longrightarrow> sb_profile (default_backend sha3 pf os) = bundled_profile_hash sha3 pf os"
  by (cases os) (simp_all add: default_backend_def linux_new_def linux_sandbox_def macos_new_def macos_sandbox_def
      fallback_new_def fallback_sandbox_def)

text \<open>There is one mount, it is read-only, and the container has no network.\<close>

lemma container_args:
  "filter (\<lambda>a. starts_with a (lit ''--volume='')) (build_args rt d) = [lit ''--volume='' @ d @ lit '':/models:ro'']"
  "lit ''--network=none'' \<in> set (build_args rt d)" "lit ''--cap-drop=ALL'' \<in> set (build_args rt d)"
  "lit ''--read-only'' \<in> set (build_args rt d)" "ends_with (lit ''--volume='' @ d @ lit '':/models:ro'') (lit '':ro'')"
  by (simp_all add: build_args_def starts_with_def ends_with_def suffix_def)

section \<open>Properties\<close>

text \<open>C34: a lockdown that reports success on Linux has set no-new-privileges, blocked the time-stamp counter on
  x86-64, and has a Landlock ruleset that the kernel enforces, fully or in part; on macOS it has entered
  Seatbelt; on Windows it has set the six mitigation policies, each with a flag word of zero, so that none is
  switched on; on other systems it never reports success.  No seccomp filter is loaded, whatever the result, and after
  a failure neither Landlock nor Seatbelt restricts the process.\<close>

theorem lockdown_success_means_locked:
  "case apply_self_lockdown env unlocked of
     (s, Inr u) \<Rightarrow>
       (case lk_os env of
          Linux \<Rightarrow> no_new_privs s \<and> landlock_ruleset s \<in> {Some FullyEnforced, Some PartiallyEnforced}
            \<and> tsc_blocked s = lk_x86_64 env
        | MacOS \<Rightarrow> seatbelt_on s
        | Windows \<Rightarrow> set (map fst (policies (win_process s))) = {DynamicCodePolicy, SignaturePolicy,
              StrictHandleCheckPolicy, ImageLoadPolicy, ExtensionPointDisablePolicy, SystemCallDisablePolicy}
            \<and> list_all (\<lambda>(p, flags). flags = 0) (policies (win_process s))
        | OtherOs \<Rightarrow> False)
       \<and> \<not> seccomp_loaded s
   | (s, Inl e) \<Rightarrow> landlock_ruleset s \<in> {None, Some NotEnforced} \<and> \<not> seatbelt_on s \<and> \<not> seccomp_loaded s"
proof -
  obtain s r where res: "apply_self_lockdown env unlocked = (s, r)" by fastforce
  show ?thesis
  proof (cases "lk_os env")
    case Linux
    with res have "linux_lockdown (lk_linux env) (lk_x86_64 env) unlocked = (s, r)"
      by (simp add: apply_self_lockdown_def)
    from linux_locked [OF this] Linux res show ?thesis
      by (simp add: landlock_off landlocked_def split: sum.splits)
  next
    case MacOS
    with res have "\<exists>d b. macos_lockdown (lk_seatbelt env) (lk_profiles env) d b unlocked = (s, r)"
      by (simp add: apply_self_lockdown_def del: blit_Cons) blast
    with macos_locked have "case r of Inr u \<Rightarrow> seatbelt_on s \<and> \<not> seccomp_loaded s
      | Inl e \<Rightarrow> \<not> landlocked s \<and> \<not> seatbelt_on s \<and> \<not> seccomp_loaded s" by blast
    with MacOS res show ?thesis by (simp add: landlock_off split: sum.splits)
  next
    case Windows
    obtain w q where w: "windows_lockdown (lk_windows env) (win_process unlocked) = (w, q)" by fastforce
    with res Windows have s: "s = unlocked\<lparr>win_process := w\<rparr>" "r = map_err WindowsErr q"
      by (simp_all add: apply_self_lockdown_def)
    show ?thesis
      using windows_locked [of "lk_windows env" w] w Windows unfolding res s
      by (cases q) (simp_all add: unlocked_def)
  next
    case OtherOs
    with res show ?thesis by (auto simp: apply_self_lockdown_def unlocked_def)
  qed
qed

text \<open>A rootful Docker is chosen only when it was allowed; a chosen podman has reported itself rootless, and
  whatever is chosen is a file on the search path.\<close>

theorem runtime_is_rootless:
  "case detect_runtime env allow of
     Inl e \<Rightarrow> (e = OnlyRootfulDocker) \<le> (\<not> allow)
   | Inr (Podman p) \<Rightarrow> is_file env p \<and> (\<exists>out. podman_info env p = Inr (True, out) \<and> starts_with out (blit ''true''))
   | Inr (RootlessDocker p) \<Rightarrow> is_file env p
       \<and> (\<exists>ok out. docker_info env p = Inr (ok, out) \<and> contains (utf8_lossy out) (lit ''rootless''))
   | Inr (RootfulDocker p) \<Rightarrow> is_file env p \<and> allow"
proof (cases "detect_runtime env allow")
  case (Inl e)
  then show ?thesis using detect_only_rootful [of env allow] by auto
next
  case (Inr r)
  from detect_checked [OF Inr] show ?thesis unfolding Inr runtime_checked_def by simp
qed

text \<open>What \<open>open\<close> with \<open>O_NOFOLLOW\<close> and \<open>realpath\<close> document: when the opened name is not a symbolic link,
  the canonical form of the path is the canonical form of its parent with that name.\<close>

definition realpath_law :: "mac_kernel \<Rightarrow> bool" where
  "realpath_law k \<longleftrightarrow> (\<forall>p n fd d. mac_open k (p @ [Normal n]) = Inr fd \<longrightarrow> canonicalize k p = Some d \<longrightarrow>
     canonicalize k (p @ [Normal n]) = Some (d @ [Normal n]))"

text \<open>on macOS the check that compares the canonical parent with the canonical form of the parent can
  never fail for a named file: an intermediate symbolic link is followed and the file is opened.\<close>

theorem realpath_check_is_vacuous:
  assumes "realpath_law k"
  shows "macos_open_target k (p @ [Normal n]) =
    (if 0 \<in> set (path_bytes (p @ [Normal n])) then Inl EscapeErr
     else map_err (\<lambda>err. if err = MAC_ELOOP then SymlinkErr else ResolveIo (OsError err)) (mac_open k (p @ [Normal n])))"
proof (cases "mac_open k (p @ [Normal n])")
  case (Inl e)
  then show ?thesis by (simp add: macos_open_target_def)
next
  case (Inr fd)
  have par: "parent (d @ [Normal n]) = Some d" for d by (simp add: parent_def)
  show ?thesis
  proof (cases "canonicalize k p")
    case None
    then show ?thesis using Inr par by (auto simp: macos_open_target_def split: option.splits)
  next
    case (Some d)
    then have "canonicalize k (p @ [Normal n]) = Some (d @ [Normal n])"
      using assms Inr by (simp add: realpath_law_def)
    then show ?thesis using Inr Some par by (simp add: macos_open_target_def)
  qed
qed

text \<open>A file \<open>/r/f\<close>, and \<open>/l\<close> a symbolic link to \<open>/r\<close>.\<close>

definition link_kernel :: mac_kernel where
  "link_kernel =
     \<lparr>mac_open = (\<lambda>p. if p = [RootDir, Normal [108], Normal [102]] then Inr 7 else Inl 2),
      canonicalize = (\<lambda>p. if p = [RootDir, Normal [108]] then Some [RootDir, Normal [114]]
                          else if p = [RootDir, Normal [108], Normal [102]] then Some [RootDir, Normal [114], Normal [102]]
                          else None)\<rparr>"

theorem realpath_check_is_vacuous_witness:
  "macos_open_target link_kernel [RootDir, Normal [108], Normal [102]] = Inr 7"
proof -
  have "realpath_law link_kernel" by (auto simp: realpath_law_def link_kernel_def)
  from realpath_check_is_vacuous [OF this, of "[RootDir, Normal [108]]" "[102]"]
  show ?thesis by (simp add: link_kernel_def path_bytes_def)
qed

text \<open>C35: the command the portal starts finds the target on descriptor 3 exactly when the descriptor the portal
  opened had another number: onto itself, \<open>dup2\<close> leaves the close-on-exec flag set.  In every case the portal
  keeps its own descriptor open.\<close>

theorem portal_hands_over:
  "case analyze_path open_target pv isf None p t of
     (t', Inl e) \<Rightarrow> open_target p = Inl e \<and> t' = t
   | (t', Inr (Inl e)) \<Rightarrow> False
   | (t', Inr (Inr (cmd, child))) \<Rightarrow>
       \<exists>ob. open_target p = Inr ob
         \<and> fd_get child 3 = (if lowest_free t = 3 then None else Some (ob, False))
         \<and> fd_get t' (lowest_free t) = Some (ob, True)
         \<and> cmd_args cmd = [lit ''analyze'', lit ''--fd=3'']"
  by (auto simp: analyze_path_def fd_alloc_def cdup2_def fd_get_exec portal_command_def Let_def
      simp del: lit_Cons split: sum.split)

end
