(* ===== verification/Cli.thy ===== *)
theory Cli
  imports Reader Sandbox Pair
begin

section \<open>\<open>seck-cli\<close>: analyze, pair and verify-proof\<close>

text \<open>
  \<open>crates/seck-cli/src/main.rs\<close>, \<open>pair.rs\<close> and \<open>verify_proof.rs\<close>.  The argument parser is outside: its
  result is a record.  \<open>analyze\<close> composes the walker, the file set, the orchestrator and the renderer; its
  surroundings (the file system, the child programs, the JSON text) are \<open>analyze_env\<close>.  The commands
  \<open>models\<close>, \<open>mcp\<close>, \<open>web\<close>, \<open>tui\<close> and \<open>audit\<close> are in the theories of their crates.
\<close>

subsection \<open>Analyze\<close>

record analyze_args =
  arg_path :: path
  arg_fd :: "nat option"
  arg_mode :: ustr
  arg_output :: ustr
  arg_airgap :: bool
  arg_fips :: bool

record analyze_env =
  an_tree :: "path \<Rightarrow> read_answers fnode"
  an_fd_data :: "nat \<Rightarrow> read_answers"
  an_fd_len :: "nat \<Rightarrow> u64 option"
  an_exe :: "io_error + ustr"
  an_sibling_dir :: "ustr \<Rightarrow> ustr option"
  an_exists :: "ustr \<Rightarrow> bool"
  an_host :: host_env
  an_fds :: fdtab
  an_kernel :: kernel
  an_reader :: child
  an_bytes :: bytes_child
  an_priv :: child
  an_from_slice :: "bytes \<Rightarrow> json option"
  an_pretty :: "json \<Rightarrow> ustr"

datatype analyze_error =
    WalkFailed walk_error
  | FilesetFailed fileset_error
  | ExeFailed io_error
  | NoSibling
  | ReaderNotFound ustr
  | PrivNotFound ustr
  | ModeFailed orchestrator_error
  | UnknownMode ustr
  | ReportParse
  | ReportShape

definition fd_entry :: "analyze_env \<Rightarrow> nat \<Rightarrow> read_answers entry" where
  "fd_entry env raw_fd =
     \<lparr>entry_relative = [Normal (blit ''fd_input'')], entry_fd = an_fd_data env raw_fd,
      entry_size = (case an_fd_len env raw_fd of Some n \<Rightarrow> n | None \<Rightarrow> 0)\<rparr>"

definition analyze_entries :: "analyze_env \<Rightarrow> analyze_args \<Rightarrow> analyze_error + read_answers entry list" where
  "analyze_entries env args =
     (case arg_fd args of
        Some raw_fd \<Rightarrow> Inr [fd_entry env raw_fd]
      | None \<Rightarrow> map_err WalkFailed (walk (arg_path args) (an_tree env (arg_path args)) default_limits))"

definition analyze_run :: "analyze_env \<Rightarrow> analyze_args \<Rightarrow> file_entry list \<Rightarrow> ustr \<Rightarrow> ustr \<Rightarrow> analyze_error + bytes" where
  "analyze_run env args fileset sib reader =
     (if arg_mode args = lit ''a'' then
        map_err ModeFailed (run_sandboxed (an_host env) (an_fds env) (an_kernel env) (an_reader env) fileset reader)
      else if arg_mode args = lit ''b'' then
        (let reader_priv = path_join sib (lit ''seck-reader-priv'') in
         if \<not> an_exists env reader_priv then Inl (PrivNotFound reader_priv)
         else map_err ModeFailed (run_sandboxed_mode_b (an_host env) (an_fds env) (an_kernel env) (an_bytes env)
                (an_priv env) fileset reader reader_priv))
      else Inl (UnknownMode (arg_mode args)))"

definition analyze_output :: "analyze_env \<Rightarrow> analyze_args \<Rightarrow> json \<Rightarrow> analyze_error + ustr" where
  "analyze_output env args v =
     (if arg_output args = lit ''json'' then Inr (an_pretty env v @ [10])
      else ok_or ReportShape (map_option render_terminal (report_from_json v)))"

text \<open>The FIPS flag of the process and the text on standard output.\<close>

definition analyze :: "analyze_env \<Rightarrow> analyze_args \<Rightarrow> bool \<Rightarrow> bool \<times> (analyze_error + ustr)" where
  "analyze env args fips_flag =
     (if arg_fips args then True else fips_flag,
      try_bind (analyze_entries env args) (\<lambda>entries.
      try_bind (map_err FilesetFailed (build_fileset entries)) (\<lambda>fileset.
      try_bind (map_err ExeFailed (an_exe env)) (\<lambda>exe.
      try_bind (ok_or NoSibling (an_sibling_dir env exe)) (\<lambda>sib.
      let reader = path_join sib (lit ''seck-reader'') in
      if \<not> an_exists env reader then Inl (ReaderNotFound reader) else
      try_bind (analyze_run env args fileset sib reader) (\<lambda>report_bytes.
      try_bind (ok_or ReportParse (an_from_slice env report_bytes)) (\<lambda>v.
      analyze_output env args v)))))))"

definition is_wsl2 :: "bool \<Rightarrow> ustr option \<Rightarrow> bool" where
  "is_wsl2 linux proc_version =
     (if linux then (case proc_version of
          Some s \<Rightarrow> contains s (lit ''microsoft-standard'') \<or> contains s (lit ''WSL2'') | None \<Rightarrow> False)
      else False)"

subsection \<open>Pair\<close>

datatype pair_cmd_error = BindNotParseable | BundleFailed pair_error | BundleJson

definition pair_run :: "(ustr \<Rightarrow> socket_addr option) \<Rightarrow> (nat \<Rightarrow> bytes) \<Rightarrow> (key32 \<Rightarrow> key32) \<Rightarrow> (ustr \<Rightarrow> ip_addr option)
    \<Rightarrow> (bytes \<Rightarrow> bytes) \<Rightarrow> (bytes \<Rightarrow> ustr) \<Rightarrow> (pairing_bundle \<Rightarrow> ustr) \<Rightarrow> (ustr \<Rightarrow> ustr) \<Rightarrow> ustr option \<Rightarrow> ustr
    \<Rightarrow> pair_cmd_error + ustr list" where
  "pair_run parse_sock rng x25519 parse_ip sha3 hex to_json qr env_lan_ip bind_text =
     try_bind (ok_or BindNotParseable (parse_sock bind_text)) (\<lambda>bind.
     let ep = new_random rng x25519 bind in
     try_bind (map_err BundleFailed (build_bundle parse_ip sha3 hex env_lan_ip ep)) (\<lambda>bundle.
     Inr [qr (to_json bundle), [], lit ''Fingerprint: '' @ format_fingerprint (fingerprint_sha3_256 bundle),
          lit ''Confirm this fingerprint matches on your mobile device.'',
          lit ''Endpoint: '' @ host_endpoint bundle, [],
          lit ''(The MCP-over-WG service will be launched in a follow-up; this CLI ships pairing.)'']))"

subsection \<open>Verify-proof\<close>

record proof_env =
  pf_exe :: "io_error + path"
  pf_is_file :: "path \<Rightarrow> bool"
  pf_lake :: "path \<Rightarrow> io_error + bool"
  pf_read :: "path \<Rightarrow> io_error + ustr"

datatype proof_error =
    ProofExe io_error
  | ProofNotFound
  | LakeSpawn io_error
  | LakeFailed
  | ProofRead io_error
  | ContainsSorry path nat

text \<open>The loop that walks up from the binary.\<close>

function find_proof_dir :: "(path \<Rightarrow> bool) \<Rightarrow> path \<Rightarrow> path option" where
  "find_proof_dir isf probe =
     (case parent probe of
        None \<Rightarrow> None
      | Some p \<Rightarrow>
          let cand = p @ [Normal (blit ''proof'')] in
          if isf (cand @ [Normal (blit ''lakefile.toml'')]) then Some cand else find_proof_dir isf p)"
  by pat_completeness auto
termination
  by (relation "measure (\<lambda>(f, p). length p)") (auto simp: parent_def split: if_splits)

declare find_proof_dir.simps [simp del]

definition LOAD_BEARING :: "path list" where
  "LOAD_BEARING =
     [[Normal (blit ''Seck''), Normal (blit ''IOBoundary.lean'')],
      [Normal (blit ''Seck''), Normal (blit ''Correspondence.lean'')],
      [Normal (blit ''Seck''), Normal (blit ''HostModel.lean'')],
      [Normal (blit ''Seck''), Normal (blit ''ReaderModel.lean'')]]"

definition bad_line :: "ustr \<Rightarrow> bool" where
  "bad_line line \<longleftrightarrow>
     \<not> starts_with (trim_start line) (lit ''--'') \<and> (contains line (lit ''so'' @ lit ''rry'') \<or> contains line (lit ''admit''))"

text \<open>The number (from one) of the first line that is refused.\<close>

fun first_bad :: "nat \<Rightarrow> ustr list \<Rightarrow> nat option" where
  "first_bad lineno [] = None"
| "first_bad lineno (l # ls) = (if bad_line l then Some (lineno + 1) else first_bad (lineno + 1) ls)"

fun check_files :: "proof_env \<Rightarrow> path \<Rightarrow> path list \<Rightarrow> proof_error + unit" where
  "check_files env dir [] = Inr ()"
| "check_files env dir (rel # rels) =
     try_bind (map_err ProofRead (pf_read env (dir @ rel))) (\<lambda>body.
     case first_bad 0 (lines body) of
       Some n \<Rightarrow> Inl (ContainsSorry (dir @ rel) n)
     | None \<Rightarrow> check_files env dir rels)"

definition verify_proof :: "proof_env \<Rightarrow> proof_error + unit" where
  "verify_proof env =
     try_bind (map_err ProofExe (pf_exe env)) (\<lambda>exe.
     try_bind (ok_or ProofNotFound (find_proof_dir (pf_is_file env) exe)) (\<lambda>dir.
     try_bind (map_err LakeSpawn (pf_lake env dir)) (\<lambda>success.
     if \<not> success then Inl LakeFailed else check_files env dir LOAD_BEARING)))"

section \<open>Lemmas\<close>

text \<open>The air gap is a log line.\<close>

lemma airgap_changes_nothing: "analyze env (args\<lparr>arg_airgap := b\<rparr>) f = analyze env args f"
proof -
  have e: "analyze_entries env (args\<lparr>arg_airgap := b\<rparr>) = analyze_entries env args"
    by (simp add: analyze_entries_def split: option.split)
  have r: "analyze_run env (args\<lparr>arg_airgap := b\<rparr>) = analyze_run env args"
    by (simp add: fun_eq_iff analyze_run_def)
  have w: "analyze_output env (args\<lparr>arg_airgap := b\<rparr>) = analyze_output env args"
    by (simp add: fun_eq_iff analyze_output_def)
  show ?thesis unfolding analyze_def e r w by simp
qed

lemma fd_without_length: "an_fd_len env n = None \<Longrightarrow> build_fileset [fd_entry env n] = Inr fs \<Longrightarrow>
    map (\<lambda>f. tainted_inner (fe_bytes f)) fs = [[]]"
  using build_fileset_Inr [of "[fd_entry env n]" fs] by (auto simp: list_all2_Cons1 fd_entry_def)

lemma first_bad_Some:
  "first_bad k ls = Some n \<Longrightarrow> k < n \<and> n \<le> k + length ls \<and> bad_line (ls ! (n - k - 1))
     \<and> (\<forall>j < n - k - 1. \<not> bad_line (ls ! j))"
proof (induction k ls rule: first_bad.induct)
  case (2 k l ls)
  show ?case
  proof (cases "bad_line l")
    case False
    with 2 have i: "k + 1 < n" "n \<le> k + 1 + length ls" "bad_line (ls ! (n - (k + 1) - 1))"
      "\<forall>j < n - (k + 1) - 1. \<not> bad_line (ls ! j)" by auto
    then have e: "n - k - 1 = Suc (n - (k + 1) - 1)" by simp
    have "\<not> bad_line ((l # ls) ! j)" if "j < n - k - 1" for j
      using that False i(4) e by (cases j) auto
    then show ?thesis using i e by simp
  qed (use 2 in auto)
qed simp

lemma first_bad_None: "first_bad k ls = None \<longleftrightarrow> list_all (\<lambda>l. \<not> bad_line l) ls"
  by (induction k ls rule: first_bad.induct) auto

lemma check_files_Inr:
  "check_files env dir rels = Inr () \<longleftrightarrow>
     list_all (\<lambda>rel. \<exists>body. pf_read env (dir @ rel) = Inr body \<and> list_all (\<lambda>l. \<not> bad_line l) (lines body)) rels"
proof (induction rels)
  case (Cons rel rels)
  then show ?case
    by (cases "pf_read env (dir @ rel)") (auto split: option.splits simp flip: first_bad_None [of 0])
qed simp

lemma check_files_refuses:
  "check_files env dir rels = Inl (ContainsSorry p n) \<Longrightarrow>
     \<exists>rel \<in> set rels. \<exists>body. p = dir @ rel \<and> pf_read env p = Inr body \<and> first_bad 0 (lines body) = Some n"
proof (induction rels)
  case (Cons rel rels)
  then show ?case
    by (cases "pf_read env (dir @ rel)") (auto split: option.splits)
qed simp

lemma find_proof_dir_Some:
  "find_proof_dir f probe = Some d \<Longrightarrow> f (d @ [Normal (blit ''lakefile.toml'')])"
  by (induction f probe rule: find_proof_dir.induct)
    (auto simp: find_proof_dir.simps [of _ "_ :: path"] Let_def simp del: blit_Cons split: option.splits if_splits)

subsection \<open>Mode A from end to end\<close>

text \<open>The reader program as the process the orchestrator starts: it reads descriptor 3 and writes descriptor 5.\<close>

definition reader_process :: "reader_env \<Rightarrow> child" where
  "reader_process renv cmd tab inp =
     (if fd_get tab 3 = Some (PipeR 0) \<and> fd_get tab 5 = Some (PipeW 1) then
        (let o' = reader_main renv UnexpectedEof (program cmd # cmd_args cmd) inp
         in ([Inr (out_report o')], Inr (out_error o' = None)))
      else ([], Inr False))"

text \<open>A host on which no system call fails and every write is accepted at least in part.\<close>

definition healthy :: "analyze_env \<Rightarrow> bool" where
  "healthy env \<longleftrightarrow> env_pipe (an_host env) = (\<lambda>i. None) \<and> env_spawn (an_host env) = (\<lambda>i. None)
     \<and> std_open (an_fds env) \<and> (\<forall>i. \<exists>n. k_policy (an_kernel env) i = Inr (Suc n))
     \<and> k_out (an_kernel env) = (\<lambda>fd. []) \<and> an_exists env = (\<lambda>p. True)
     \<and> (\<exists>exe sib. an_exe env = Inr exe \<and> an_sibling_dir env exe = Some sib)"

definition delivered_frames :: "read_answers entry list \<Rightarrow> frame list" where
  "delivered_frames es = map (\<lambda>e. \<lparr>relative_path = to_string_lossy (entry_relative e),
     frame_bytes = take (unat (entry_size e)) (content (entry_fd e))\<rparr>) es"

definition mode_a_report :: "reader_env \<Rightarrow> frame list \<Rightarrow> json" where
  "mode_a_report renv frames =
     report_json renv (lit ''A'') (r_hex renv (r_sha3 renv (r_nonce renv))) (map (input_json renv) frames) stub_text"

lemma reader_process_report:
  assumes "read_frames UnexpectedEof inp = Inr (frames, r)"
    and "fd_get tab 3 = Some (PipeR 0)" and "fd_get tab 5 = Some (PipeW 1)"
  shows "reader_process renv (reader_command b) tab inp
    = ([Inr (utf8_encode (r_to_text renv (mode_a_report renv frames)))], Inr True)"
proof -
  have "parse_mode [b, lit ''--protocol-version=1''] = Inr Analyze"
    by (simp add: parse_mode_def)
  then show ?thesis using assms
    by (simp add: reader_process_def reader_command_def reader_main_def analyze_frames_def stub_inference_text
        mode_a_report_def Let_def del: lit_Cons)
qed

lemma run_sandboxed_reader:
  assumes h: "healthy env" and f: "\<And>fd k'. write_fileset_protocol fd fileset (an_kernel env) = (k', Inr ()) \<Longrightarrow>
      read_frames UnexpectedEof (k_out k' (sandbox_raw fd)) = Inr (frames, [])"
  shows "run_sandboxed (an_host env) (an_fds env) (an_kernel env) (reader_process renv) fileset b
    = Inr (utf8_encode (r_to_text renv (mode_a_report renv frames)))"
proof -
  obtain r0 w0 t1 where p0: "sys_pipe 0 (an_fds env) = (r0, w0, t1)" by (cases "sys_pipe 0 (an_fds env)") auto
  obtain r1 w1 t2 where p1: "sys_pipe 1 t1 = (r1, w1, t2)" by (cases "sys_pipe 1 t1") auto
  obtain c where c: "pre_exec_a r0 w1 t2 = Inr c" "fd_get c 3 = Some (PipeR 0)" "fd_get c 5 = Some (PipeW 1)"
    using mode_a_fds [OF _ p0 p1] h by (auto simp: healthy_def)
  obtain k' where k: "write_fileset_protocol (SandboxFd w0) fileset (an_kernel env) = (k', Inr ())"
    using write_fileset_total h by (metis healthy_def)
  have fr: "read_frames UnexpectedEof (k_out k' w0) = Inr (frames, [])" using f [OF k] by simp
  have e: "env_pipe (an_host env) i = None" "env_spawn (an_host env) i = None" for i
    using h by (auto simp: healthy_def)
  show ?thesis
    by (simp add: run_sandboxed_def try_pipe_def try_spawn_def e p0 p1 c k reader_process_report [OF fr c(2,3)]
        del: One_nat_def)
qed

section \<open>Properties\<close>

text \<open>C3: \<open>seck analyze\<close> in mode A, from the file tree to standard output: when the walk and the reading of the
  files succeed, the files still have their walked length and the paths fit, the command prints the report of
  the reader, whose inputs are exactly the regular files of the tree, in directory order, each with its lossy
  path, the hash of its bytes and its size.\<close>

theorem analyze_mode_a:
  assumes "healthy env" and "an_reader env = reader_process renv"
    and "arg_fd args = None" and "arg_mode args = lit ''a''" and "arg_output args = lit ''json''"
    and "walk (arg_path args) (an_tree env (arg_path args)) default_limits = Inr es" and "build_fileset es = Inr fs"
    and "\<forall>e \<in> set es. unat (entry_size e) \<le> length (content (entry_fd e)) \<and> path_fits (entry_relative e)"
    and "\<And>v. an_from_slice env (utf8_encode (r_to_text renv v)) = Some v"
  shows "map entry_view es = files_of (arg_path args) (arg_path args) (an_tree env (arg_path args))
    \<and> analyze env args flag = (if arg_fips args then True else flag,
        Inr (an_pretty env (mode_a_report renv (delivered_frames es)) @ [10]))"
proof
  show "map entry_view es = files_of (arg_path args) (arg_path args) (an_tree env (arg_path args))"
    by (rule walk_Inr(1) [OF assms(6)])
  obtain exe sib where x: "an_exe env = Inr exe" "an_sibling_dir env exe = Some sib" "an_exists env = (\<lambda>p. True)"
    using assms(1) by (auto simp: healthy_def)
  have f: "read_frames UnexpectedEof (k_out k' (sandbox_raw fd)) = Inr (delivered_frames es, [])"
    if "write_fileset_protocol fd fs (an_kernel env) = (k', Inr ())" for fd k'
  proof -
    have "k_out (an_kernel env) (sandbox_raw fd) = []" using assms(1) by (simp add: healthy_def)
    from delivery [OF assms(6,7) _ _ that this] assms(8) show ?thesis by (simp add: delivered_frames_def)
  qed
  note run = run_sandboxed_reader [OF assms(1) f, where renv = renv]
  show "analyze env args flag = (if arg_fips args then True else flag,
        Inr (an_pretty env (mode_a_report renv (delivered_frames es)) @ [10]))"
    using assms(2-7,9) x
    by (simp add: analyze_def analyze_entries_def analyze_run_def analyze_output_def run Let_def del: lit_Cons)
qed

definition sample_analyze_env :: analyze_env where
  "sample_analyze_env =
     \<lparr>an_tree = (\<lambda>p. sample_tree), an_fd_data = (\<lambda>n. []), an_fd_len = (\<lambda>n. None),
      an_exe = Inr (lit ''/bin/seck''), an_sibling_dir = (\<lambda>exe. Some (lit ''/bin'')), an_exists = (\<lambda>p. True),
      an_host = \<lparr>env_pipe = (\<lambda>i. None), env_spawn = (\<lambda>i. None), env_model_path = None\<rparr>,
      an_fds = [Some (OtherObj 0), Some (OtherObj 1), Some (OtherObj 2)], an_kernel = sample_kernel,
      an_reader = reader_process sample_reader_env, an_bytes = (\<lambda>c t i. ([], Inr False)),
      an_priv = (\<lambda>c t i. ([], Inr False)), an_from_slice = (\<lambda>bs. Option.bind (utf8_decode bs) json_of_text),
      an_pretty = json_text\<rparr>"

definition sample_args :: analyze_args where
  "sample_args = \<lparr>arg_path = [Normal [114]], arg_fd = None, arg_mode = lit ''a'', arg_output = lit ''json'',
     arg_airgap = True, arg_fips = False\<rparr>"

theorem analyze_mode_a_witness:
  "analyze sample_analyze_env sample_args False
    = (False, Inr (json_text (mode_a_report sample_reader_env
        [\<lparr>relative_path = [97], frame_bytes = [1, 2]\<rparr>, \<lparr>relative_path = [99, 47, 100], frame_bytes = [7]\<rparr>]) @ [10]))"
proof -
  have h: "healthy sample_analyze_env"
    by (simp add: healthy_def sample_analyze_env_def sample_kernel_def std_open_def fd_get_def numeral_eq_Suc less_Suc_eq)
  obtain fs where b: "build_fileset sample_entries = Inr fs" using sample_built by blast
  have w: "walk (arg_path sample_args) (an_tree sample_analyze_env (arg_path sample_args)) default_limits = Inr sample_entries"
    using sample_walk by (simp add: sample_args_def sample_analyze_env_def)
  have t: "an_from_slice sample_analyze_env (utf8_encode (r_to_text sample_reader_env v)) = Some v" for v
    using good_text_laws(4) [OF sample_reader_good, of v]
    by (simp add: sample_analyze_env_def utf8_decode_encode) (simp add: sample_reader_env_def json_of_text)
  have d: "delivered_frames sample_entries
      = [\<lparr>relative_path = [97], frame_bytes = [1, 2]\<rparr>, \<lparr>relative_path = [99, 47, 100], frame_bytes = [7]\<rparr>]"
    by (simp add: delivered_frames_def sample_entries_def sample_names)
  have a: "an_reader sample_analyze_env = reader_process sample_reader_env" "an_pretty sample_analyze_env = json_text"
    by (simp_all add: sample_analyze_env_def)
  have g: "arg_fd sample_args = None" "arg_mode sample_args = lit ''a''" "arg_output sample_args = lit ''json''"
    "arg_fips sample_args = False"
    by (simp_all add: sample_args_def)
  show ?thesis
    using analyze_mode_a [OF h a(1) g(1-3) w b sample_ready t, of False] unfolding d a(2) g(4) by simp
qed

text \<open>C38: the proof check succeeds only when the proof builds and no line of the four load-bearing files that is
  not a comment line mentions a proof placeholder, and when it refuses one it names the first such line.\<close>

theorem verify_proof_spec:
  "case verify_proof env of
     Inr u \<Rightarrow> \<exists>exe dir. pf_exe env = Inr exe \<and> find_proof_dir (pf_is_file env) exe = Some dir
        \<and> pf_lake env dir = Inr True
        \<and> list_all (\<lambda>rel. \<exists>body. pf_read env (dir @ rel) = Inr body \<and> list_all (\<lambda>l. \<not> bad_line l) (lines body)) LOAD_BEARING
   | Inl (ContainsSorry p n) \<Rightarrow> \<exists>body. pf_read env p = Inr body \<and> 1 \<le> n \<and> n \<le> length (lines body)
        \<and> bad_line (lines body ! (n - 1)) \<and> list_all (\<lambda>l. \<not> bad_line l) (take (n - 1) (lines body))
   | Inl e \<Rightarrow> True"
proof (cases "verify_proof env")
  case (Inr u)
  then have "\<exists>exe dir. pf_exe env = Inr exe \<and> find_proof_dir (pf_is_file env) exe = Some dir
      \<and> pf_lake env dir = Inr True \<and> check_files env dir LOAD_BEARING = Inr ()"
    by (auto simp: verify_proof_def ok_or_Inr_iff split: if_splits)
  then show ?thesis unfolding Inr check_files_Inr by simp
next
  case (Inl e)
  show ?thesis
  proof (cases e)
    case (ContainsSorry p n)
    from Inl obtain dir where "check_files env dir LOAD_BEARING = Inl (ContainsSorry p n)"
      unfolding ContainsSorry
      by (auto simp: verify_proof_def try_bind_Inl_iff map_err_Inl_iff ok_or_def split: if_splits option.splits)
    then obtain body where b: "pf_read env p = Inr body" "first_bad 0 (lines body) = Some n"
      using check_files_refuses by blast
    from first_bad_Some [OF b(2)] b(1) show ?thesis unfolding Inl ContainsSorry
      by (auto simp: list_all_length)
  qed (use Inl in simp_all)
qed

end
