(* ===== verification/Spawns.thy ===== *)
theory Spawns
  imports Processes Cli
begin

section \<open>What the host spawns in modes A and B\<close>

text \<open>
  The programs of \<open>Processes\<close> for the two modes: when the parsers of the readers stop on an input that still grows,
  the readers as stages, the descriptor tables the spawns of \<open>crates/seck-host/src/orchestrator.rs\<close> leave in the
  host and its children, and that a complete stream stops each parser exactly at its end.
\<close>

subsection \<open>Parsers of a growing input\<close>

text \<open>A parser that, but for running out of input, does not look beyond what it has consumed.\<close>

locale incremental =
  fixes short :: 'e and dec :: "bytes \<Rightarrow> 'e + ('a \<times> bytes)"
  assumes ext_ok: "dec s = Inr (x, r) \<Longrightarrow> dec (s @ t) = Inr (x, r @ t)"
    and ext_err: "dec s = Inl e \<Longrightarrow> e \<noteq> short \<Longrightarrow> dec (s @ t) = Inl e"
begin

lemma short_before_end:
  assumes "dec S = Inr (x, [])" and "strict_prefix s S"
  shows "dec s = Inl short"
proof -
  from assms(2) obtain t where t: "S = s @ t" "t \<noteq> []" by (auto simp: strict_prefix_def prefix_def)
  show ?thesis
  proof (cases "dec s")
    case (Inl e)
    with ext_err [OF Inl, of t] assms(1) t show ?thesis by auto
  next
    case (Inr y)
    obtain x' r' where "y = (x', r')" by (cases y)
    with ext_ok [of s x' r' t] Inr assms(1) t show ?thesis by auto
  qed
qed

lemma error_before_error:
  assumes "dec S = Inl e" and "prefix s S"
  shows "dec s = Inl short \<or> dec s = Inl e"
proof -
  from assms(2) obtain t where t: "S = s @ t" by (auto simp: prefix_def)
  show ?thesis
  proof (cases "dec s")
    case (Inl e')
    with ext_err [OF Inl, of t] assms(1) t show ?thesis by auto
  next
    case (Inr y)
    obtain x' r' where "y = (x', r')" by (cases y)
    with ext_ok [of s x' r' t] Inr assms(1) t show ?thesis by auto
  qed
qed

end

text \<open>Such parsers compose.\<close>

definition grows :: "'e \<Rightarrow> (bytes \<Rightarrow> 'e + ('a \<times> bytes)) \<Rightarrow> bool" where
  "grows short dec \<longleftrightarrow> incremental short dec"

lemma grows_iff: "grows short dec \<longleftrightarrow>
    (\<forall>s t. case dec s of Inr (x, r) \<Rightarrow> dec (s @ t) = Inr (x, r @ t) | Inl e \<Rightarrow> e \<noteq> short \<longrightarrow> dec (s @ t) = Inl e)"
  by (auto simp: grows_def incremental_def split: sum.splits)

named_theorems growing

lemma grows_return [growing]: "grows short (\<lambda>s. Inr (x, s))"
  by (simp add: grows_iff)

lemma grows_fail [growing]: "grows short (\<lambda>s. Inl e)"
  by (simp add: grows_iff)

lemma grows_bind [growing]:
  assumes "grows short d" and "\<And>x. grows short (f x)"
  shows "grows short (\<lambda>s. try_bind (d s) (\<lambda>(x, r). f x r))"
  unfolding grows_iff
proof (intro allI)
  fix s t
  show "case try_bind (d s) (\<lambda>(x, r). f x r) of
      Inl e \<Rightarrow> e \<noteq> short \<longrightarrow> try_bind (d (s @ t)) (\<lambda>(x, r). f x r) = Inl e
    | Inr (x, r) \<Rightarrow> try_bind (d (s @ t)) (\<lambda>(x, r). f x r) = Inr (x, r @ t)"
  proof (cases "d s")
    case (Inl e)
    with assms(1) [unfolded grows_iff, rule_format, of s t] show ?thesis by auto
  next
    case (Inr y)
    obtain x r where y: "y = (x, r)" by (cases y)
    with Inr assms(1) [unfolded grows_iff, rule_format, of s t] have "d (s @ t) = Inr (x, r @ t)" by simp
    with Inr y assms(2) [of x, unfolded grows_iff, rule_format, of r t] show ?thesis by (auto split: sum.splits)
  qed
qed

lemma grows_const [growing]: "(\<And>x. grows short (f x)) \<Longrightarrow> grows short (\<lambda>s. try_bind c (\<lambda>x. f x s))"
  by (cases c) (simp_all add: growing)

lemma grows_if [growing]: "grows short f \<Longrightarrow> grows short g \<Longrightarrow> grows short (\<lambda>s. if b then f s else g s)"
  by (cases b) simp_all

lemma grows_exact [growing]: "grows (ProtoIo eof) (\<lambda>s. map_err ProtoIo (read_exact eof n s))"
  by (auto simp: grows_iff read_exact_def)

lemma grows_many: "grows short dec \<Longrightarrow> grows short (read_many dec n)"
proof (induction n)
  case 0
  have "read_many dec 0 = (\<lambda>s. Inr ([], s))" by (simp add: fun_eq_iff)
  then show ?case by (simp add: grows_return)
next
  case (Suc n)
  have "read_many dec (Suc n) =
      (\<lambda>s. try_bind (dec s) (\<lambda>(x, r). try_bind (read_many dec n r) (\<lambda>(xs, r'). Inr (x # xs, r'))))"
    by (simp add: fun_eq_iff)
  then show ?case by (simp only:) (intro growing Suc)
qed

lemma grows_frame [growing]: "grows (ProtoIo eof) (read_frame eof)"
  unfolding read_frame_def Let_def by (intro growing)

lemma grows_frames: "grows (ProtoIo eof) (read_frames eof)"
  unfolding read_frames_def Let_def by (intro growing grows_many)

interpretation frames: incremental "ProtoIo eof" "read_frames eof" for eof
  using grows_frames by (simp add: grows_def)

subsection \<open>The readers as stages\<close>

text \<open>
  \<open>read_frames\<close> returns without the input having ended unless it runs short; the line reader of the inference
  process returns at \<open>EndFiles\<close> or at a bad line.  What a reader then writes and how it exits is that of its
  \<open>main\<close> on what it has read; the buffered reader may have read more, which \<open>main\<close> does not look at.
\<close>

definition frames_decided :: "bytes \<Rightarrow> bool" where
  "frames_decided s \<longleftrightarrow> (case read_frames UnexpectedEof s of Inl e \<Rightarrow> e \<noteq> ProtoIo UnexpectedEof | Inr y \<Rightarrow> True)"

function ipc_decided :: "reader_env \<Rightarrow> bytes \<Rightarrow> bool" where
  "ipc_decided env r =
     (if 10 \<notin> set r then False
      else case utf8_decode (fst (read_line r)) of
        None \<Rightarrow> True
      | Some line \<Rightarrow>
          let trimmed = trim_end line; r' = snd (read_line r) in
          if trimmed = [] then ipc_decided env r'
          else (case Option.bind (r_from_text env trimmed) message_from_json of
             None \<Rightarrow> True
           | Some m \<Rightarrow> m = EndFiles \<or> ipc_decided env r'))"
  by pat_completeness auto
termination
  by (relation "measure (\<lambda>(env, r). length r)") (auto intro!: read_line_shorter)

declare ipc_decided.simps [simp del]

definition bytes_output :: "reader_env \<Rightarrow> ustr list \<Rightarrow> bytes \<Rightarrow> bytes \<times> bool" where
  "bytes_output renv argv s = (let o' = reader_main renv UnexpectedEof argv s in (out_ipc o', out_error o' = None))"

definition reader_output :: "reader_env \<Rightarrow> ustr list \<Rightarrow> bytes \<Rightarrow> bytes \<times> bool" where
  "reader_output renv argv s = (let o' = reader_main renv UnexpectedEof argv s in (out_report o', out_error o' = None))"

definition priv_output :: "reader_env \<Rightarrow> bytes \<Rightarrow> bytes \<times> bool" where
  "priv_output renv s = (let o' = priv_main renv s in (out_report o', out_error o' = None))"

definition stage_of :: "nat \<Rightarrow> nat \<Rightarrow> (bytes \<Rightarrow> bool) \<Rightarrow> (bytes \<Rightarrow> bytes \<times> bool) \<Rightarrow> stage" where
  "stage_of i o' decided output =
     \<lparr>st_in = i, st_out = o', st_dec = (\<lambda>s. if decided s then Some (output s) else None), st_fin = output\<rparr>"

definition argv_of :: "command \<Rightarrow> ustr list" where
  "argv_of cmd = program cmd # cmd_args cmd"

definition mode_a_stages :: "reader_env \<Rightarrow> ustr \<Rightarrow> stage list" where
  "mode_a_stages renv bin = [stage_of 3 5 frames_decided (reader_output renv (argv_of (reader_command bin)))]"

definition mode_b_stages :: "reader_env \<Rightarrow> reader_env \<Rightarrow> ustr \<Rightarrow> stage list" where
  "mode_b_stages benv penv bin =
     [stage_of 3 7 frames_decided (bytes_output benv (argv_of (bytes_command bin))),
      stage_of 3 5 (ipc_decided penv) (priv_output penv)]"

text \<open>The programs as the children of the sequential model.\<close>

definition bytes_process :: "reader_env \<Rightarrow> bytes_child" where
  "bytes_process renv cmd tab inp = (case bytes_output renv (argv_of cmd) inp of (out, ok) \<Rightarrow> (out, Inr ok))"

definition priv_process :: "reader_env \<Rightarrow> child" where
  "priv_process renv cmd tab inp = (case priv_output renv inp of (out, ok) \<Rightarrow> ([Inr out], Inr ok))"

text \<open>The host's descriptors: no pipe is open before, and the ends the children use are dropped after the spawns.\<close>

definition no_pipes :: "fdtab \<Rightarrow> bool" where
  "no_pipes t \<longleftrightarrow> (\<forall>i. Some (PipeR i) \<notin> set t \<and> Some (PipeW i) \<notin> set t)"

record mode_a_setup =
  ma_w :: nat
  ma_r :: nat
  ma_host :: fdtab
  ma_child :: fdtab

definition mode_a_spawn :: "fdtab \<Rightarrow> io_error + mode_a_setup" where
  "mode_a_spawn t =
     (let (stdin_r, stdin_w, t1) = sys_pipe 0 t; (report_r, report_w, t2) = sys_pipe 1 t1 in
      try_bind (pre_exec_a stdin_r report_w t2) (\<lambda>c.
      Inr \<lparr>ma_w = stdin_w, ma_r = report_r, ma_host = fd_close report_w (fd_close stdin_r t2), ma_child = c\<rparr>))"

record mode_b_setup =
  mb_w :: nat
  mb_r :: nat
  mb_host :: fdtab
  mb_bytes :: fdtab
  mb_priv :: fdtab

definition mode_b_spawn :: "fdtab \<Rightarrow> io_error + mode_b_setup" where
  "mode_b_spawn t =
     (let (h2b_r, h2b_w, t1) = sys_pipe 0 t; (b2p_r, b2p_w, t2) = sys_pipe 1 t1; (p2h_r, p2h_w, t3) = sys_pipe 2 t2 in
      try_bind (pre_exec_bytes h2b_r b2p_w t3) (\<lambda>b.
      try_bind (pre_exec_priv b2p_r p2h_w t3) (\<lambda>p.
      Inr \<lparr>mb_w = h2b_w, mb_r = p2h_r,
           mb_host = fd_close p2h_w (fd_close b2p_w (fd_close b2p_r (fd_close h2b_r t3))), mb_bytes = b, mb_priv = p\<rparr>)))"

definition mode_a_run :: "mode_a_setup \<Rightarrow> file_entry list \<Rightarrow> phase net" where
  "mode_a_run m fs = chain_start (ma_host m) (wire_chunks fs) [ma_child m]"

definition mode_b_run :: "mode_b_setup \<Rightarrow> file_entry list \<Rightarrow> phase net" where
  "mode_b_run m fs = chain_start (mb_host m) (wire_chunks fs) [mb_bytes m, mb_priv m]"

subsection \<open>The tables\<close>

lemma no_pipes_get: "no_pipes t \<Longrightarrow> fd_get t n \<noteq> Some (PipeR i) \<and> fd_get t n \<noteq> Some (PipeW i)"
  by (auto simp: no_pipes_def dest: fd_get_set_mem)

lemma not_mem_iff: "Some ob \<notin> set t \<longleftrightarrow> (\<forall>n. fd_get t n \<noteq> Some ob)"
  using mem_fd_get fd_get_set_mem by metis

text \<open>
  What \<open>spawn\<close> leaves: the host has the write end of the first pipe and the read end of the last, and no write
  end of the last.  Every child has inherited the host's ends: it holds the write end of the pipe it reads.
\<close>

lemma mode_a_tables:
  assumes "std_open t" and "no_pipes t"
  obtains m where "mode_a_spawn t = Inr m"
    "fd_get (ma_host m) (ma_w m) = Some (PipeW 0)" "fd_get (ma_host m) (ma_r m) = Some (PipeR 1)"
    "Some (PipeW 1) \<notin> set (ma_host m)"
    "fd_get (ma_child m) 3 = Some (PipeR 0)" "fd_get (ma_child m) 5 = Some (PipeW 1)"
proof -
  obtain r0 w0 t1 where p0: "sys_pipe 0 t = (r0, w0, t1)" by (cases "sys_pipe 0 t") auto
  obtain r1 w1 t2 where p1: "sys_pipe 1 t1 = (r1, w1, t2)" by (cases "sys_pipe 1 t1") auto
  obtain c where c: "pre_exec_a r0 w1 t2 = Inr c" "fd_get c 3 = Some (PipeR 0)" "fd_get c 5 = Some (PipeW 1)"
    using mode_a_fds [OF assms(1) p0 p1] by blast
  note f0 = sys_pipe_fresh [OF p0 assms(1) [unfolded std_open_def]]
  then have b0: "\<forall>m < Suc w0. fd_get t1 m \<noteq> None" by blast
  note f1 = sys_pipe_fresh [OF p1 b0]
  define th where "th = fd_close w1 (fd_close r0 t2)"
  have "fd_get th w0 = Some (PipeW 0)" "fd_get th r1 = Some (PipeR 1)"
    using f0 f1 by (auto simp: th_def)
  moreover have "Some (PipeW 1) \<notin> set th"
    using f0 f1 no_pipes_get [OF assms(2)] by (auto simp: th_def not_mem_iff)
  moreover have "mode_a_spawn t = Inr \<lparr>ma_w = w0, ma_r = r1, ma_host = th, ma_child = c\<rparr>"
    by (simp add: mode_a_spawn_def p0 p1 c th_def del: One_nat_def)
  ultimately show ?thesis using c that by force
qed

lemma mode_b_tables:
  assumes "std_open t" and "no_pipes t"
  obtains m where "mode_b_spawn t = Inr m"
    "fd_get (mb_host m) (mb_w m) = Some (PipeW 0)" "fd_get (mb_host m) (mb_r m) = Some (PipeR 2)"
    "Some (PipeW 2) \<notin> set (mb_host m)"
    "fd_get (mb_bytes m) 3 = Some (PipeR 0)" "fd_get (mb_bytes m) 7 = Some (PipeW 1)"
    "fd_get (mb_priv m) 3 = Some (PipeR 1)" "fd_get (mb_priv m) 5 = Some (PipeW 2)"
proof -
  obtain r0 w0 t1 where p0: "sys_pipe 0 t = (r0, w0, t1)" by (cases "sys_pipe 0 t") auto
  obtain r1 w1 t2 where p1: "sys_pipe 1 t1 = (r1, w1, t2)" by (cases "sys_pipe 1 t1") auto
  obtain r2 w2 t3 where p2: "sys_pipe 2 t2 = (r2, w2, t3)" by (cases "sys_pipe 2 t2") auto
  obtain b p where c: "pre_exec_bytes r0 w1 t3 = Inr b" "pre_exec_priv r1 w2 t3 = Inr p"
      "fd_get b 3 = Some (PipeR 0)" "fd_get b 7 = Some (PipeW 1)" "fd_get p 3 = Some (PipeR 1)" "fd_get p 5 = Some (PipeW 2)"
    using mode_b_fds [OF assms(1) p0 p1 p2] by blast
  note f0 = sys_pipe_fresh [OF p0 assms(1) [unfolded std_open_def]]
  then have b0: "\<forall>m < Suc w0. fd_get t1 m \<noteq> None" by blast
  note f1 = sys_pipe_fresh [OF p1 b0]
  then have b1: "\<forall>m < Suc w1. fd_get t2 m \<noteq> None" by blast
  note f2 = sys_pipe_fresh [OF p2 b1]
  define th where "th = fd_close w2 (fd_close w1 (fd_close r1 (fd_close r0 t3)))"
  have "fd_get th w0 = Some (PipeW 0)" "fd_get th r2 = Some (PipeR 2)"
    using f0 f1 f2 by (auto simp: th_def)
  moreover have "Some (PipeW 2) \<notin> set th"
    using f0 f1 f2 no_pipes_get [OF assms(2)] by (auto simp: th_def not_mem_iff)
  moreover have "mode_b_spawn t = Inr \<lparr>mb_w = w0, mb_r = r2, mb_host = th, mb_bytes = b, mb_priv = p\<rparr>"
    by (simp add: mode_b_spawn_def p0 p1 p2 c th_def del: One_nat_def)
  ultimately show ?thesis using c that by force
qed

lemma first_pipe_numbers:
  assumes "std_open t" and "fd_get t 3 = None" and "fd_get t 4 = None" and "sys_pipe i t = (r, w, t')"
  shows "r = 3 \<and> w = 4"
proof -
  note f = sys_pipe_fresh [OF assms(4) assms(1) [unfolded std_open_def]]
  have r: "r = lowest_free t" and w: "w = lowest_free (fd_set r (PipeR i) t)"
    using assms(4) by (auto simp: sys_pipe_def fd_alloc_def Let_def)
  have "r \<le> 3" using lowest_free_least [of 3 t] assms(2) r by (meson not_le_imp_less)
  moreover have "3 \<le> r" using f by blast
  ultimately have r3: "r = 3" by simp
  have "w \<le> 4" using lowest_free_least [of 4 "fd_set r (PipeR i) t"] assms(3) w r3 by (auto simp: not_less [symmetric])
  moreover have "r < w" using f by blast
  ultimately show ?thesis using r3 by simp
qed

lemma mode_a_own_writer:
  assumes "std_open t" and "fd_get t 3 = None" and "fd_get t 4 = None" and "mode_a_spawn t = Inr m"
  shows "Some (PipeW 0) \<in> set (ma_child m)"
proof -
  obtain r0 w0 t1 where p0: "sys_pipe 0 t = (r0, w0, t1)" by (cases "sys_pipe 0 t") auto
  obtain r1 w1 t2 where p1: "sys_pipe 1 t1 = (r1, w1, t2)" by (cases "sys_pipe 1 t1") auto
  note n = first_pipe_numbers [OF assms(1-3) p0]
  note f0 = sys_pipe_fresh [OF p0 assms(1) [unfolded std_open_def]]
  then have b0: "\<forall>m < Suc w0. fd_get t1 m \<noteq> None" by blast
  note f1 = sys_pipe_fresh [OF p1 b0]
  have "fd_get t2 4 = Some (PipeW 0)" "fd_get t2 r0 = Some (PipeR 0)" "fd_get t2 w1 = Some (PipeW 1)" "w1 \<noteq> 3"
    using f0 f1 n by auto
  then have "fd_get (ma_child m) 4 = Some (PipeW 0)"
    using assms(4) n by (auto simp: mode_a_spawn_def p0 p1 pre_exec_a_def dup2_def simp del: One_nat_def)
  then show ?thesis by (rule fd_get_set_mem)
qed

lemma mode_b_own_writer:
  assumes "std_open t" and "fd_get t 3 = None" and "fd_get t 4 = None" and "mode_b_spawn t = Inr m"
  shows "Some (PipeW 0) \<in> set (mb_bytes m)"
proof -
  obtain r0 w0 t1 where p0: "sys_pipe 0 t = (r0, w0, t1)" by (cases "sys_pipe 0 t") auto
  obtain r1 w1 t2 where p1: "sys_pipe 1 t1 = (r1, w1, t2)" by (cases "sys_pipe 1 t1") auto
  obtain r2 w2 t3 where p2: "sys_pipe 2 t2 = (r2, w2, t3)" by (cases "sys_pipe 2 t2") auto
  note n = first_pipe_numbers [OF assms(1-3) p0]
  note f0 = sys_pipe_fresh [OF p0 assms(1) [unfolded std_open_def]]
  then have b0: "\<forall>m < Suc w0. fd_get t1 m \<noteq> None" by blast
  note f1 = sys_pipe_fresh [OF p1 b0]
  then have b1: "\<forall>m < Suc w1. fd_get t2 m \<noteq> None" by blast
  note f2 = sys_pipe_fresh [OF p2 b1]
  have "fd_get t3 4 = Some (PipeW 0)" "fd_get t3 r0 = Some (PipeR 0)" "fd_get t3 w1 = Some (PipeW 1)"
    "fd_get t3 r1 = Some (PipeR 1)" "fd_get t3 w2 = Some (PipeW 2)" "w1 \<noteq> 3" "w2 \<noteq> 3"
    using f0 f1 f2 n by auto
  then have "fd_get (mb_bytes m) 4 = Some (PipeW 0)"
    using assms(4) n
    by (auto simp: mode_b_spawn_def p0 p1 p2 pre_exec_bytes_def pre_exec_priv_def dup2_def simp del: One_nat_def)
  then show ?thesis by (rule fd_get_set_mem)
qed

lemma mode_b_keeps_writer:
  assumes "std_open t" and "mode_b_spawn t = Inr m"
  shows "Some (PipeW 1) \<in> set (mb_priv m)"
proof -
  obtain r0 w0 t1 where p0: "sys_pipe 0 t = (r0, w0, t1)" by (cases "sys_pipe 0 t") auto
  obtain r1 w1 t2 where p1: "sys_pipe 1 t1 = (r1, w1, t2)" by (cases "sys_pipe 1 t1") auto
  obtain r2 w2 t3 where p2: "sys_pipe 2 t2 = (r2, w2, t3)" by (cases "sys_pipe 2 t2") auto
  obtain p where p: "pre_exec_priv r1 w2 t3 = Inr p" using mode_b_fds [OF assms(1) p0 p1 p2] by blast
  then have "mb_priv m = p" using assms(2) by (simp add: mode_b_spawn_def p0 p1 p2 try_bind_Inr_iff del: One_nat_def) auto
  with mode_b_inherited [OF assms(1) p0 p1 p2 p] show ?thesis by (auto dest: fd_get_set_mem)
qed

subsection \<open>Complete streams\<close>

lemma frames_decided_exact:
  assumes "read_frames UnexpectedEof S = Inr (frames, [])"
  shows "frames_decided S" "strict_prefix s S \<Longrightarrow> \<not> frames_decided s"
  using assms frames.short_before_end [OF assms] by (auto simp: frames_decided_def)

lemma write_message_ends:
  assumes "good_text env"
  shows "\<exists>a. write_message env m = a @ [10] \<and> 10 \<notin> set a"
  using good_text_laws(5) [OF assms] by (auto simp: write_message_def)

lemma ipc_decided_message:
  assumes "good_text env"
  shows "ipc_decided env (write_message env m @ r) \<longleftrightarrow> m = EndFiles \<or> ipc_decided env r"
proof -
  note g = good_text_laws [OF assms, of "message_to_json m"]
  let ?t = "r_to_text env (message_to_json m)"
  have "utf8_encode ?t @ [10] = utf8_encode (?t @ [10])" by (simp add: encode_char_def byte_of_def)
  then have d: "utf8_decode (utf8_encode ?t @ [10]) = Some (?t @ [10])"
    using utf8_decode_encode [of "?t @ [10]"] g(4) by (simp add: is_scalar_def)
  have l: "read_line (write_message env m @ r) = (utf8_encode ?t @ [10], r)"
    using read_line_append [OF g(5)] by (simp add: write_message_def)
  have "10 \<in> set (write_message env m @ r)" by (simp add: write_message_def)
  then show ?thesis
    by (subst ipc_decided.simps) (simp add: l d trim_end_newline g(1-3) Let_def message_round)
qed

lemma ipc_undecided_part: "10 \<notin> set r \<Longrightarrow> \<not> ipc_decided env r"
  by (subst ipc_decided.simps) simp

lemma ipc_decided_exact:
  assumes "good_text env" and "EndFiles \<notin> set ms"
  shows "ipc_decided env (concat (map (write_message env) (ms @ [EndFiles])))
    \<and> (strict_prefix s (concat (map (write_message env) (ms @ [EndFiles]))) \<longrightarrow> \<not> ipc_decided env s)"
  using assms(2)
proof (induction ms arbitrary: s)
  case Nil
  obtain a where a: "write_message env EndFiles = a @ [10]" "10 \<notin> set a" using write_message_ends [OF assms(1)] by blast
  have "10 \<notin> set s" if "strict_prefix s (a @ [10])"
    using that a(2) by (auto simp: strict_prefix_def dest: set_mono_prefix)
  then show ?case using ipc_decided_message [OF assms(1), of EndFiles "[]"] a ipc_undecided_part by auto
next
  case (Cons m ms)
  obtain a where a: "write_message env m = a @ [10]" "10 \<notin> set a" using write_message_ends [OF assms(1)] by blast
  define rest where "rest = concat (map (write_message env) (ms @ [EndFiles]))"
  note IH = Cons.IH [folded rest_def]
  have e: "concat (map (write_message env) ((m # ms) @ [EndFiles])) = write_message env m @ rest"
    by (simp add: rest_def)
  have "\<not> ipc_decided env s" if "strict_prefix s (write_message env m @ rest)"
  proof (cases "prefix (write_message env m) s")
    case True
    then obtain s' where s: "s = write_message env m @ s'" by (auto simp: prefix_def)
    with that have "strict_prefix s' rest" by (auto simp: strict_prefix_def)
    with IH Cons.prems s show ?thesis using ipc_decided_message [OF assms(1), of m s'] by auto
  next
    case False
    with that have "prefix s (write_message env m)" "s \<noteq> write_message env m"
      by (auto simp: strict_prefix_def prefix_append)
    then have "prefix s (a @ [10])" "s \<noteq> a @ [10]" by (simp_all add: a)
    then have "10 \<notin> set s" using a(2) by (auto dest: set_mono_prefix)
    then show ?thesis by (rule ipc_undecided_part)
  qed
  then show ?case unfolding e using IH Cons.prems ipc_decided_message [OF assms(1), of m rest] by auto
qed

lemma complete_stream_nonempty: "read_frames UnexpectedEof S = Inr y \<Longrightarrow> S \<noteq> []"
  by (auto simp: read_frames_def read_exact_def)

end
