(* ===== verification/ModeRuns.thy ===== *)
theory ModeRuns
  imports Stopping Spawns
begin

section \<open>Modes A and B as interleaved runs\<close>

text \<open>
  The chains of \<open>Processes\<close> with the descriptor tables \<open>Orchestrator\<close> computes and the readers of \<open>Reader\<close>.
  When the readers stop exactly at the end of their input the chain contract of \<open>Processes\<close> holds and every
  run ends as \<open>run_sandboxed\<close> and \<open>run_sandboxed_mode_b\<close> say.  When a reader is left waiting it waits for ever,
  because it holds the write end of the pipe it reads.
\<close>

subsection \<open>The contract holds for both modes\<close>

text \<open>
  What flows through the pipes when every reader gets all: the frame stream, then each reader's output.  The
  three guards make the interpretations hold for all parameters; they are the identity on the inputs the
  properties below are about.
\<close>

fun carried :: "stage list \<Rightarrow> bytes \<Rightarrow> nat \<Rightarrow> bytes" where
  "carried sts s 0 = s"
| "carried sts s (Suc j) = fst (st_fin (sts ! j) (carried sts s j))"

definition statuses :: "stage list \<Rightarrow> bytes \<Rightarrow> nat \<Rightarrow> bool" where
  "statuses sts s i = snd (st_fin (sts ! (i - 1)) (carried sts s (i - 1)))"

definition plain_table :: "fdtab \<Rightarrow> fdtab" where
  "plain_table t = (if std_open t \<and> no_pipes t then t else [Some (OtherObj 0), Some (OtherObj 1), Some (OtherObj 2)])"

definition sendable :: "file_entry list \<Rightarrow> file_entry list" where
  "sendable fs = (if \<exists>frames. read_frames UnexpectedEof (concat (wire_chunks fs)) = Inr (frames, []) then fs else [])"

definition text_env :: "reader_env \<Rightarrow> reader_env" where
  "text_env renv = (if good_text renv then renv else sample_reader_env)"

definition setup_a :: "fdtab \<Rightarrow> mode_a_setup" where
  "setup_a t = projr (mode_a_spawn (plain_table t))"

definition setup_b :: "fdtab \<Rightarrow> mode_b_setup" where
  "setup_b t = projr (mode_b_spawn (plain_table t))"

lemma plain_table_ok: "std_open (plain_table t)" "no_pipes (plain_table t)"
  by (auto simp: plain_table_def std_open_def no_pipes_def fd_get_def numeral_eq_Suc less_Suc_eq)

lemma text_env_ok: "good_text (text_env renv)"
  by (simp add: text_env_def sample_reader_good)

lemma sendable_ok: "\<exists>frames. read_frames UnexpectedEof (concat (wire_chunks (sendable fs))) = Inr (frames, [])"
proof -
  have "concat (wire_chunks []) = stream_wire [0, 0] []"
    using wire_chunks_stream [of "[]"] by (simp add: frames_of_def)
  then have "read_frames UnexpectedEof (concat (wire_chunks [])) = Inr ([], [])"
    using read_frames_wire [of "[]" "[0, 0]" UnexpectedEof "[]"] by simp
  then show ?thesis by (auto simp: sendable_def)
qed

lemma stage_of_simps [simp]:
  "st_in (stage_of i o' d out) = i" "st_out (stage_of i o' d out) = o'" "st_fin (stage_of i o' d out) = out"
  "st_dec (stage_of i o' d out) s = (if d s then Some (out s) else None)"
  by (simp_all add: stage_of_def)

lemma bytes_argv: "parse_mode (argv_of (bytes_command bin)) = Inr BytesToIpc"
  by (simp add: parse_mode_def argv_of_def bytes_command_def)

lemma bytes_output_ipc:
  assumes "read_frames UnexpectedEof s = Inr (frames, r)"
  shows "bytes_output renv (argv_of (bytes_command bin)) s = (emit_ipc renv frames, True)"
  using assms by (simp add: bytes_output_def reader_main_def bytes_argv Let_def)

lemma emitted_end: "\<exists>ms. emitted renv frames = ms @ [EndFiles] \<and> EndFiles \<notin> set ms"
proof (intro exI conjI)
  let ?ms = "Header (r_hex renv (r_nonce renv)) IPC_SYSTEM_PROMPT IPC_TASK_PROMPT
     # map (\<lambda>f. File (relative_path f) (r_b64 renv (frame_bytes f)) (of_nat (length (frame_bytes f)))) frames"
  show "emitted renv frames = ?ms @ [EndFiles]" by (simp add: emitted_def)
  show "EndFiles \<notin> set ?ms" by auto
qed

lemma emit_ipc_exact:
  assumes "good_text renv"
  shows "ipc_decided renv (emit_ipc renv frames)" "strict_prefix s (emit_ipc renv frames) \<Longrightarrow> \<not> ipc_decided renv s"
    "emit_ipc renv frames \<noteq> []"
proof -
  obtain ms where "emitted renv frames = ms @ [EndFiles]" "EndFiles \<notin> set ms" using emitted_end by blast
  with ipc_decided_exact [OF assms, of ms] show "ipc_decided renv (emit_ipc renv frames)"
    "strict_prefix s (emit_ipc renv frames) \<Longrightarrow> \<not> ipc_decided renv s"
    by (simp_all add: emit_ipc_def)
  show "emit_ipc renv frames \<noteq> []" by (simp add: emit_ipc_def emitted_def write_message_def)
qed

interpretation mode_a: relay "Suc cap" "ma_w (setup_a t)" "ma_r (setup_a t)" "ma_host (setup_a t)"
  "wire_chunks (sendable fs)" "mode_a_stages renv bin" "[ma_child (setup_a t)]"
  "carried (mode_a_stages renv bin) (concat (wire_chunks (sendable fs)))"
  "statuses (mode_a_stages renv bin) (concat (wire_chunks (sendable fs)))" for cap t fs renv bin
proof -
  obtain m where m: "mode_a_spawn (plain_table t) = Inr m"
    "fd_get (ma_host m) (ma_w m) = Some (PipeW 0)" "fd_get (ma_host m) (ma_r m) = Some (PipeR 1)"
    "Some (PipeW 1) \<notin> set (ma_host m)"
    "fd_get (ma_child m) 3 = Some (PipeR 0)" "fd_get (ma_child m) 5 = Some (PipeW 1)"
    using mode_a_tables [OF plain_table_ok] .
  then have s: "setup_a t = m" by (simp add: setup_a_def)
  obtain frames where f: "read_frames UnexpectedEof (concat (wire_chunks (sendable fs))) = Inr (frames, [])"
    using sendable_ok by blast
  show "relay (Suc cap) (ma_w (setup_a t)) (ma_r (setup_a t)) (ma_host (setup_a t)) (wire_chunks (sendable fs))
      (mode_a_stages renv bin) [ma_child (setup_a t)] (carried (mode_a_stages renv bin) (concat (wire_chunks (sendable fs))))
      (statuses (mode_a_stages renv bin) (concat (wire_chunks (sendable fs))))"
    unfolding s
    by unfold_locales
      (use m(2-6) frames_decided_exact [OF f] complete_stream_nonempty [OF f] in
        \<open>auto simp: mode_a_stages_def statuses_def\<close>)
qed

interpretation mode_b: relay "Suc cap" "mb_w (setup_b t)" "mb_r (setup_b t)" "mb_host (setup_b t)"
  "wire_chunks (sendable fs)" "mode_b_stages (text_env renv) (text_env renv) bin" "[mb_bytes (setup_b t), mb_priv (setup_b t)]"
  "carried (mode_b_stages (text_env renv) (text_env renv) bin) (concat (wire_chunks (sendable fs)))"
  "statuses (mode_b_stages (text_env renv) (text_env renv) bin) (concat (wire_chunks (sendable fs)))" for cap t fs renv bin
proof -
  obtain m where m: "mode_b_spawn (plain_table t) = Inr m"
    "fd_get (mb_host m) (mb_w m) = Some (PipeW 0)" "fd_get (mb_host m) (mb_r m) = Some (PipeR 2)"
    "Some (PipeW 2) \<notin> set (mb_host m)"
    "fd_get (mb_bytes m) 3 = Some (PipeR 0)" "fd_get (mb_bytes m) 7 = Some (PipeW 1)"
    "fd_get (mb_priv m) 3 = Some (PipeR 1)" "fd_get (mb_priv m) 5 = Some (PipeW 2)"
    using mode_b_tables [OF plain_table_ok] .
  then have s: "setup_b t = m" by (simp add: setup_b_def)
  obtain frames where f: "read_frames UnexpectedEof (concat (wire_chunks (sendable fs))) = Inr (frames, [])"
    using sendable_ok by blast
  let ?sts = "mode_b_stages (text_env renv) (text_env renv) bin" and ?S = "concat (wire_chunks (sendable fs))"
  have two: "j = 0 \<or> j = 1" if "j < length ?sts" for j using that by (auto simp: mode_b_stages_def)
  have c1: "carried ?sts ?S 1 = emit_ipc (text_env renv) frames"
    using bytes_output_ipc [OF f] by (simp add: mode_b_stages_def)
  note ex = emit_ipc_exact [OF text_env_ok [of renv], where frames = frames]
  show "relay (Suc cap) (mb_w (setup_b t)) (mb_r (setup_b t)) (mb_host (setup_b t)) (wire_chunks (sendable fs)) ?sts
      [mb_bytes (setup_b t), mb_priv (setup_b t)] (carried ?sts ?S) (statuses ?sts ?S)"
    unfolding s
  proof (unfold_locales, goal_cases)
    case (7 j)
    from two [OF this] m(5,7) show ?case by (auto simp: mode_b_stages_def)
  next
    case (8 j)
    from two [OF this] m(6,8) show ?case by (auto simp: mode_b_stages_def numeral_2_eq_2)
  next
    case (10 j)
    from two [OF this] show ?case
    proof
      assume j: "j = 1"
      have "st_dec (?sts ! 1) (carried ?sts ?S 1) = Some (priv_output (text_env renv) (carried ?sts ?S 1))"
        using ex(1) unfolding c1 by (simp add: mode_b_stages_def)
      moreover have "st_fin (?sts ! 1) = priv_output (text_env renv)" by (simp add: mode_b_stages_def)
      ultimately show ?thesis unfolding j by (simp add: statuses_def)
    qed (use frames_decided_exact [OF f] in \<open>simp add: mode_b_stages_def statuses_def\<close>)
  next
    case (11 j x)
    from two [OF this(1)] show ?case
    proof
      assume "j = 1"
      with 11(2) ex(2) [of x] show ?thesis unfolding c1 [symmetric] by (simp add: mode_b_stages_def)
    qed (use 11(2) frames_decided_exact [OF f] in \<open>simp add: mode_b_stages_def\<close>)
  next
    case (12 j)
    from two [OF this] show ?case
    proof
      assume "j = 1"
      with ex(3) show ?thesis unfolding c1 [symmetric] by simp
    qed (use complete_stream_nonempty [OF f] in simp)
  qed (use m in \<open>simp_all add: mode_b_stages_def numeral_2_eq_2\<close>)
qed

text \<open>Every run is finite, and when nothing can move any more the host has returned \<open>res\<close>.\<close>

definition always_ends :: "nat \<Rightarrow> (nat \<Rightarrow> phase \<Rightarrow> phase action) \<Rightarrow> phase net \<Rightarrow> orchestrator_error + bytes \<Rightarrow> bool" where
  "always_ends cap prog n0 res \<longleftrightarrow> wfP (\<lambda>b a. net_step cap prog a b)
     \<and> (\<forall>n. (net_step cap prog)\<^sup>*\<^sup>* n0 n \<and> stuck cap prog n \<longrightarrow> (\<exists>tab. procs n ! 0 = Running tab (HostEnd res)))"

text \<open>Every run is finite, and the host returns in none: all of them end in a deadlock.\<close>

definition never_ends :: "nat \<Rightarrow> (nat \<Rightarrow> phase \<Rightarrow> phase action) \<Rightarrow> phase net \<Rightarrow> bool" where
  "never_ends cap prog n0 \<longleftrightarrow> wfP (\<lambda>b a. net_step cap prog a b)
     \<and> (\<forall>n. (net_step cap prog)\<^sup>*\<^sup>* n0 n \<longrightarrow> (\<forall>tab res. procs n ! 0 \<noteq> Running tab (HostEnd res)))"

text \<open>Every run is finite, and when nothing can move any more the host has returned one of \<open>R\<close>.\<close>

definition ends_in :: "nat \<Rightarrow> (nat \<Rightarrow> phase \<Rightarrow> phase action) \<Rightarrow> phase net \<Rightarrow> (orchestrator_error + bytes) set \<Rightarrow> bool" where
  "ends_in cap prog n0 R \<longleftrightarrow> wfP (\<lambda>b a. net_step cap prog a b)
     \<and> (\<forall>n. (net_step cap prog)\<^sup>*\<^sup>* n0 n \<and> stuck cap prog n \<longrightarrow> (\<exists>tab res. procs n ! 0 = Running tab (HostEnd res) \<and> res \<in> R))"

lemma mode_a_outcome:
  assumes "std_open t" and "mode_a_spawn t = Inr m"
    and "env_pipe env = (\<lambda>i. None)" and "env_spawn env = (\<lambda>i. None)"
    and "write_fileset_protocol (SandboxFd (ma_w m)) fs k = (k', Inr ())" and "k_out k (ma_w m) = []"
  shows "run_sandboxed env t k (reader_process renv) fs bin =
    (if statuses (mode_a_stages renv bin) (concat (wire_chunks fs)) 1
     then Inr (carried (mode_a_stages renv bin) (concat (wire_chunks fs)) 1) else Inl ReaderFailed)"
proof -
  obtain r0 w0 t1 where p0: "sys_pipe 0 t = (r0, w0, t1)" by (cases "sys_pipe 0 t") auto
  obtain r1 w1 t2 where p1: "sys_pipe 1 t1 = (r1, w1, t2)" by (cases "sys_pipe 1 t1") auto
  obtain c where c: "pre_exec_a r0 w1 t2 = Inr c" "fd_get c 3 = Some (PipeR 0)" "fd_get c 5 = Some (PipeW 1)"
    using mode_a_fds [OF assms(1) p0 p1] by blast
  have w: "ma_w m = w0" using assms(2) by (simp add: mode_a_spawn_def p0 p1 c(1) del: One_nat_def) auto
  have S: "k_out k' w0 = concat (wire_chunks fs)" using write_fileset_sent [OF assms(5)] assms(6) w by simp
  have e: "env_pipe env i = None" "env_spawn env i = None" for i using assms(3,4) by simp_all
  define o' where "o' = reader_main renv UnexpectedEof (argv_of (reader_command bin)) (concat (wire_chunks fs))"
  have r: "reader_process renv (reader_command bin) c (k_out k' w0) = ([Inr (out_report o')], Inr (out_error o' = None))"
    using c(2,3) by (simp add: reader_process_def o'_def S argv_of_def Let_def)
  have "run_sandboxed env t k (reader_process renv) fs bin =
      (if out_error o' = None then Inr (out_report o') else Inl ReaderFailed)"
    using assms(5) unfolding w
    by (simp add: run_sandboxed_def try_pipe_def try_spawn_def e p0 p1 c r del: One_nat_def)
  then show ?thesis
    by (simp add: statuses_def mode_a_stages_def reader_output_def o'_def Let_def)
qed

lemma mode_b_outcome:
  assumes "std_open t" and "mode_b_spawn t = Inr m"
    and "env_pipe env = (\<lambda>i. None)" and "env_spawn env = (\<lambda>i. None)"
    and "write_fileset_protocol (SandboxFd (mb_w m)) fs k = (k', Inr ())" and "k_out k (mb_w m) = []"
  shows "run_sandboxed_mode_b env t k (bytes_process benv) (priv_process penv) fs bin pbin =
    (if statuses (mode_b_stages benv penv bin) (concat (wire_chunks fs)) 1
        \<and> statuses (mode_b_stages benv penv bin) (concat (wire_chunks fs)) 2
     then Inr (carried (mode_b_stages benv penv bin) (concat (wire_chunks fs)) 2) else Inl ReaderFailed)"
proof -
  obtain r0 w0 t1 where p0: "sys_pipe 0 t = (r0, w0, t1)" by (cases "sys_pipe 0 t") auto
  obtain r1 w1 t2 where p1: "sys_pipe 1 t1 = (r1, w1, t2)" by (cases "sys_pipe 1 t1") auto
  obtain r2 w2 t3 where p2: "sys_pipe 2 t2 = (r2, w2, t3)" by (cases "sys_pipe 2 t2") auto
  obtain b p where c: "pre_exec_bytes r0 w1 t3 = Inr b" "pre_exec_priv r1 w2 t3 = Inr p"
    using mode_b_fds [OF assms(1) p0 p1 p2] by blast
  have w: "mb_w m = w0" using assms(2) by (simp add: mode_b_spawn_def p0 p1 p2 c del: One_nat_def) auto
  have S: "k_out k' w0 = concat (wire_chunks fs)" using write_fileset_sent [OF assms(5)] assms(6) w by simp
  have e: "env_pipe env i = None" "env_spawn env i = None" for i using assms(3,4) by simp_all
  obtain ipc ok1 where b1: "bytes_output benv (argv_of (bytes_command bin)) (concat (wire_chunks fs)) = (ipc, ok1)" by fastforce
  obtain out ok2 where b2: "priv_output penv ipc = (out, ok2)" by fastforce
  have "run_sandboxed_mode_b env t k (bytes_process benv) (priv_process penv) fs bin pbin =
      (if ok1 \<and> ok2 then Inr out else Inl ReaderFailed)"
    using assms(5) unfolding w
    by (simp add: run_sandboxed_mode_b_def try_pipe_def try_spawn_def e p0 p1 p2 c S bytes_process_def priv_process_def
        b1 b2 del: One_nat_def)
  then show ?thesis
    by (simp add: statuses_def mode_b_stages_def b1 b2 numeral_2_eq_2)
qed

lemma frames_undecided:
  assumes "read_frames UnexpectedEof S = Inl (ProtoIo UnexpectedEof)" and "prefix s S"
  shows "\<not> frames_decided s"
  using frames.error_before_error [OF assms] by (auto simp: frames_decided_def)

lemma starving_a:
  assumes "std_open t" and "no_pipes t" and "fd_get t 3 = None" and "fd_get t 4 = None" and "mode_a_spawn t = Inr m"
    and "read_frames UnexpectedEof S = Inl (ProtoIo UnexpectedEof)"
  shows "starvable (ma_w m) (ma_r m) (ma_host m) S (mode_a_stages renv bin) [ma_child m]"
proof -
  obtain m' where "mode_a_spawn t = Inr m'"
    "fd_get (ma_host m') (ma_w m') = Some (PipeW 0)" "fd_get (ma_host m') (ma_r m') = Some (PipeR 1)"
    "fd_get (ma_child m') 3 = Some (PipeR 0)" "fd_get (ma_child m') 5 = Some (PipeW 1)"
    using mode_a_tables [OF assms(1,2)] by metis
  then show ?thesis
    using assms(5) mode_a_own_writer [OF assms(1,3,4,5)] frames_undecided [OF assms(6)]
    by (simp add: starvable_def mode_a_stages_def)
qed

lemma starving_b:
  assumes "std_open t" and "no_pipes t" and "fd_get t 3 = None" and "fd_get t 4 = None" and "mode_b_spawn t = Inr m"
    and "read_frames UnexpectedEof S = Inl (ProtoIo UnexpectedEof)"
  shows "starvable (mb_w m) (mb_r m) (mb_host m) S (mode_b_stages benv penv bin) [mb_bytes m, mb_priv m]"
proof -
  obtain m' where "mode_b_spawn t = Inr m'"
    "fd_get (mb_host m') (mb_w m') = Some (PipeW 0)" "fd_get (mb_host m') (mb_r m') = Some (PipeR 2)"
    "fd_get (mb_bytes m') 3 = Some (PipeR 0)" "fd_get (mb_bytes m') 7 = Some (PipeW 1)"
    "fd_get (mb_priv m') 3 = Some (PipeR 1)" "fd_get (mb_priv m') 5 = Some (PipeW 2)"
    using mode_b_tables [OF assms(1,2)] by metis
  then show ?thesis
    using assms(5) mode_b_own_writer [OF assms(1,3,4,5)] frames_undecided [OF assms(6)]
    by (auto simp: starvable_def mode_b_stages_def less_Suc_eq numeral_2_eq_2)
qed

subsection \<open>A concrete run\<close>

definition std_table :: fdtab where
  "std_table = [Some (OtherObj 0), Some (OtherObj 1), Some (OtherObj 2)]"

definition quiet_env :: host_env where
  "quiet_env = \<lparr>env_pipe = (\<lambda>i. None), env_spawn = (\<lambda>i. None), env_model_path = None\<rparr>"

lemma std_table_ok: "std_open std_table" "no_pipes std_table" "fd_get std_table 3 = None" "fd_get std_table 4 = None"
  by (auto simp: std_table_def std_open_def no_pipes_def fd_get_def numeral_eq_Suc less_Suc_eq)

text \<open>A stream the reader of mode A refuses before its end.\<close>

lemma mode_a_host_reader:
  assumes "std_open t" and "no_pipes t" and "mode_a_spawn t = Inr m"
  shows "Some (PipeR 0) \<notin> set (ma_host m)"
proof -
  obtain r0 w0 t1 where p0: "sys_pipe 0 t = (r0, w0, t1)" by (cases "sys_pipe 0 t") auto
  obtain r1 w1 t2 where p1: "sys_pipe 1 t1 = (r1, w1, t2)" by (cases "sys_pipe 1 t1") auto
  note f0 = sys_pipe_fresh [OF p0 assms(1) [unfolded std_open_def]]
  then have b0: "\<forall>m < Suc w0. fd_get t1 m \<noteq> None" by blast
  note f1 = sys_pipe_fresh [OF p1 b0]
  have "ma_host m = fd_close w1 (fd_close r0 t2)"
    using assms(3) by (auto simp: mode_a_spawn_def p0 p1 try_bind_Inr_iff simp del: One_nat_def)
  then show ?thesis using f0 f1 no_pipes_get [OF assms(2)] by (auto simp: not_mem_iff)
qed

lemma reader_argv: "parse_mode (argv_of (reader_command bin)) = Inr Analyze"
  by (simp add: parse_mode_def argv_of_def reader_command_def)

text \<open>A reader that does not run short decides as its parser does on the whole stream.\<close>

lemma deciding_a:
  assumes "std_open t" and "no_pipes t" and "mode_a_spawn t = Inr m"
    and long: "read_frames UnexpectedEof S \<noteq> Inl (ProtoIo UnexpectedEof)"
    and out: "reader_output renv (argv_of (reader_command bin)) S = (out, ok)"
  shows "deciding (ma_w m) (ma_r m) (ma_host m) S
    (stage_of 3 5 frames_decided (reader_output renv (argv_of (reader_command bin)))) (ma_child m) out ok"
proof -
  obtain m' where "mode_a_spawn t = Inr m'"
    "fd_get (ma_host m') (ma_w m') = Some (PipeW 0)" "fd_get (ma_host m') (ma_r m') = Some (PipeR 1)"
    "Some (PipeW 1) \<notin> set (ma_host m')"
    "fd_get (ma_child m') 3 = Some (PipeR 0)" "fd_get (ma_child m') 5 = Some (PipeW 1)"
    using mode_a_tables [OF assms(1,2)] by metis
  moreover have "reader_output renv (argv_of (reader_command bin)) s = (out, ok)" if "prefix s S" "frames_decided s" for s
  proof -
    from that(1) obtain u where "S = s @ u" by (auto simp: prefix_def)
    then show ?thesis
      using that(2) out frames.ext_ok [of UnexpectedEof s _ _ u] frames.ext_err [of UnexpectedEof s _ u]
      by (cases "read_frames UnexpectedEof s")
        (fastforce simp: frames_decided_def reader_output_def reader_main_def reader_argv Let_def)+
  qed
  moreover have "frames_decided S" using long by (auto simp: frames_decided_def split: sum.splits)
  moreover have "\<not> frames_decided []" by (simp add: frames_decided_def read_frames_def read_exact_def)
  ultimately show ?thesis
    using assms(3) mode_a_host_reader [OF assms(1-3)] by (auto simp: deciding_def)
qed

lemma refused_output:
  "read_frames UnexpectedEof S = Inl e \<Longrightarrow> reader_output renv (argv_of (reader_command bin)) S = ([], False)"
  by (simp add: reader_output_def reader_main_def reader_argv Let_def)

text \<open>Whatever is wrong with the stream, the bytes process of mode B writes nothing.\<close>

lemma refusing_b:
  assumes "std_open t" and "no_pipes t" and "mode_b_spawn t = Inr m"
    and "read_frames UnexpectedEof S = Inl e"
  shows "refusing (mb_w m) (mb_r m) (mb_host m) S (stage_of 3 7 frames_decided (bytes_output benv (argv_of (bytes_command bin))))
    (stage_of 3 5 (ipc_decided penv) (priv_output penv)) (mb_bytes m) (mb_priv m)"
proof -
  obtain m' where "mode_b_spawn t = Inr m'"
    "fd_get (mb_host m') (mb_w m') = Some (PipeW 0)" "fd_get (mb_host m') (mb_r m') = Some (PipeR 2)"
    "fd_get (mb_bytes m') 3 = Some (PipeR 0)" "fd_get (mb_bytes m') 7 = Some (PipeW 1)"
    "fd_get (mb_priv m') 3 = Some (PipeR 1)" "fd_get (mb_priv m') 5 = Some (PipeW 2)"
    using mode_b_tables [OF assms(1,2)] by metis
  moreover have "\<exists>e'. read_frames UnexpectedEof s = Inl e'" if "prefix s S" for s
    using frames.error_before_error [OF assms(4) that] by blast
  then have "fst (bytes_output benv (argv_of (bytes_command bin)) s) = []" if "prefix s S" for s
    using that by (force simp: bytes_output_def reader_main_def bytes_argv Let_def)
  ultimately show ?thesis
    using assms(3) mode_b_keeps_writer [OF assms(1,3)] fd_get_set_mem [of "mb_priv m" 5 "PipeW 2"]
    by (auto simp: refusing_def split: prod.splits) (metis fst_conv)
qed

text \<open>When it accepts the stream, at its end or before, it writes the lines of its frames.\<close>

lemma frames_of_prefix:
  assumes "read_frames UnexpectedEof S = Inr (frames, rest)" and "prefix s S" and "frames_decided s"
  shows "\<exists>r. read_frames UnexpectedEof s = Inr (frames, r)"
proof -
  from assms(2) obtain u where "S = s @ u" by (auto simp: prefix_def)
  then show ?thesis
    using assms(1,3) frames.ext_ok [of UnexpectedEof s _ _ u] frames.ext_err [of UnexpectedEof s _ u]
    by (cases "read_frames UnexpectedEof s") (fastforce simp: frames_decided_def)+
qed

lemma mode_b_host_reader:
  assumes "std_open t" and "no_pipes t" and "mode_b_spawn t = Inr m"
  shows "Some (PipeR 0) \<notin> set (mb_host m)"
proof -
  obtain r0 w0 t1 where p0: "sys_pipe 0 t = (r0, w0, t1)" by (cases "sys_pipe 0 t") auto
  obtain r1 w1 t2 where p1: "sys_pipe 1 t1 = (r1, w1, t2)" by (cases "sys_pipe 1 t1") auto
  obtain r2 w2 t3 where p2: "sys_pipe 2 t2 = (r2, w2, t3)" by (cases "sys_pipe 2 t2") auto
  note f0 = sys_pipe_fresh [OF p0 assms(1) [unfolded std_open_def]]
  then have b0: "\<forall>m < Suc w0. fd_get t1 m \<noteq> None" by blast
  note f1 = sys_pipe_fresh [OF p1 b0]
  then have b1: "\<forall>m < Suc w1. fd_get t2 m \<noteq> None" by blast
  note f2 = sys_pipe_fresh [OF p2 b1]
  have "mb_host m = fd_close w2 (fd_close w1 (fd_close r1 (fd_close r0 t3)))"
    using assms(3) by (auto simp: mode_b_spawn_def p0 p1 p2 try_bind_Inr_iff simp del: One_nat_def)
  then show ?thesis using f0 f1 f2 no_pipes_get [OF assms(2)] by (auto simp: not_mem_iff)
qed

lemma forwarding_b:
  assumes "std_open t" and "no_pipes t" and "mode_b_spawn t = Inr m" and good: "good_text renv"
    and S: "read_frames UnexpectedEof S = Inr (frames, rest)" and out: "priv_output renv (emit_ipc renv frames) = (out, ok)"
  shows "forwarding (mb_w m) (mb_r m) (mb_host m) S (stage_of 3 7 frames_decided (bytes_output renv (argv_of (bytes_command bin))))
    (stage_of 3 5 (ipc_decided renv) (priv_output renv)) (mb_bytes m) (mb_priv m) (emit_ipc renv frames) True out ok"
proof -
  obtain m' where "mode_b_spawn t = Inr m'"
    "fd_get (mb_host m') (mb_w m') = Some (PipeW 0)" "fd_get (mb_host m') (mb_r m') = Some (PipeR 2)"
    "Some (PipeW 2) \<notin> set (mb_host m')"
    "fd_get (mb_bytes m') 3 = Some (PipeR 0)" "fd_get (mb_bytes m') 7 = Some (PipeW 1)"
    "fd_get (mb_priv m') 3 = Some (PipeR 1)" "fd_get (mb_priv m') 5 = Some (PipeW 2)"
    using mode_b_tables [OF assms(1,2)] by metis
  moreover have "bytes_output renv (argv_of (bytes_command bin)) s = (emit_ipc renv frames, True)"
    if "prefix s S" "frames_decided s" for s
    using frames_of_prefix [OF S that] bytes_output_ipc by blast
  moreover have "frames_decided S" using S by (simp add: frames_decided_def)
  moreover have "\<not> frames_decided []" by (simp add: frames_decided_def read_frames_def read_exact_def)
  ultimately show ?thesis
    using assms(3) mode_b_host_reader [OF assms(1-3)] emit_ipc_exact [OF good, where frames = frames] out
    by (auto simp: forwarding_def)
qed

definition long_path :: path where
  "long_path = replicate 6 (Normal (replicate 255 255))"

lemma utf8_lossy_255: "utf8_lossy (replicate n 255 @ s) = replicate n 65533 @ utf8_lossy s"
proof (induction n)
  case (Suc n)
  then show ?case by (subst utf8_lossy.simps) (simp add: decode_step_def)
qed simp

lemma utf8_lossy_slash: "utf8_lossy (47 # s) = 47 # utf8_lossy s"
  by (subst utf8_lossy.simps) (simp add: decode_step_def)

lemma length_encode_255: "length (utf8_encode (replicate n 65533 @ s)) = 3 * n + length (utf8_encode s)"
  by (induction n) (simp_all add: encode_char_def)

lemma encode_slash: "utf8_encode (47 # s) = 47 # utf8_encode s"
  by (simp add: encode_char_def byte_of_def)

lemma length_long_join:
  "length (utf8_encode (utf8_lossy (join [47] (replicate (Suc k) (replicate n 255))))) = 3 * n * Suc k + k"
proof (induction k)
  case 0
  show ?case using utf8_lossy_255 [of n "[]"] length_encode_255 [of n "[]"] by (simp add: utf8_lossy.simps)
next
  case (Suc k)
  have "join [47] (replicate (Suc (Suc k)) (replicate n 255))
      = replicate n (255 :: byte) @ 47 # join [47] (replicate (Suc k) (replicate n 255))" by simp
  with Suc show ?case
    by (simp only: utf8_lossy_255 utf8_lossy_slash length_encode_255 encode_slash) simp
qed

lemma long_path_length: "length (utf8_encode (to_string_lossy long_path)) = 4595"
proof -
  have "map comp_bytes long_path = replicate (Suc 5) (replicate 255 255)" by (simp add: long_path_def)
  moreover have "long_path \<noteq> [RootDir]" by (simp add: long_path_def numeral_eq_Suc)
  ultimately have "to_string_lossy long_path = utf8_lossy (join [47] (replicate (Suc 5) (replicate 255 255)))"
    by (simp add: to_string_lossy_def path_bytes_def del: replicate_Suc)
  then show ?thesis by (simp only: length_long_join) simp
qed

lemma long_path_sample:
  obtains f x where "build_fileset [\<lparr>entry_relative = long_path, entry_fd = [Inr [1]], entry_size = 1\<rparr> :: read_answers entry] = Inr [f]"
    "read_frames UnexpectedEof (concat (wire_chunks [f])) = Inl (TooLarge x)"
proof -
  obtain f where f: "build_fileset [\<lparr>entry_relative = long_path, entry_fd = [Inr [1]], entry_size = 1\<rparr> :: read_answers entry] = Inr [f]"
    "untainted_inner (fe_relative f) = long_path" by (auto simp: Let_def untainted_new_def)
  then show thesis
    using that [OF f(1)] long_path_unreadable [of f UnexpectedEof] by (auto simp: path_fits_def long_path_length)
qed

text \<open>A file handed over by descriptor has no limit in the host; the reader refuses what is over its own.\<close>

lemma fd_too_large_refused:
  assumes "an_fd_len env n = Some len" and "MAX_ENTRY_BYTES < len" and "build_fileset [fd_entry env n] = Inr fs"
  shows "read_frames UnexpectedEof (concat (wire_chunks fs)) = Inl (TooLarge len)"
proof -
  from build_fileset_Inr [OF assms(3)] obtain f where f: "fs = [f]"
    "untainted_inner (fe_relative f) = [Normal (blit ''fd_input'')]" "fe_size f = len"
    using assms(1) by (auto simp: list_all2_Cons1 fd_entry_def)
  have "path_fits [Normal (blit ''fd_input'')]"
    by (simp add: path_fits_def to_string_lossy_def path_bytes_def utf8_lossy.simps decode_step_def encode_char_def)
  then show ?thesis using big_file_unreadable [of f UnexpectedEof] assms(2) f by simp
qed

lemma sample_written:
  obtains fs k' frames where "build_fileset sample_entries = Inr fs"
    "write_fileset_protocol (SandboxFd w) fs sample_kernel = (k', Inr ())" "k_out sample_kernel w = []"
    "read_frames UnexpectedEof (concat (wire_chunks fs)) = Inr (frames, [])"
proof -
  obtain fs where b: "build_fileset sample_entries = Inr fs" using sample_built by blast
  obtain k' where s: "write_fileset_protocol (SandboxFd w) fs sample_kernel = (k', Inr ())"
    using write_fileset_total [of sample_kernel "SandboxFd w" fs] by (auto simp: sample_kernel_def)
  have o': "k_out sample_kernel w = []" by (simp add: sample_kernel_def)
  have "read_frames UnexpectedEof (k_out k' (sandbox_raw (SandboxFd w)))
      = Inr (map (\<lambda>e. \<lparr>relative_path = to_string_lossy (entry_relative e),
          frame_bytes = take (unat (entry_size e)) (content (entry_fd e))\<rparr>) sample_entries, [])"
    using delivery [OF sample_walk b _ _ s] sample_ready o' by simp
  with write_fileset_sent [OF s] o' that [OF b s o'] show ?thesis by simp
qed

lemma accepted_output:
  assumes "read_frames UnexpectedEof S = Inr (frames, rest)"
  shows "\<exists>out. reader_output renv (argv_of (reader_command bin)) S = (out, True)"
  using assms by (simp add: reader_output_def reader_main_def reader_argv analyze_frames_def stub_inference_text Let_def)

text \<open>Two files of which the first is emptied after the walk: the second is taken for a frame of its own and more.\<close>

definition forged_entries :: "read_answers entry list" where
  "forged_entries =
     [\<lparr>entry_relative = [Normal [97]], entry_fd = [], entry_size = 13\<rparr>,
      \<lparr>entry_relative = [Normal [98]], entry_fd = [Inr (replicate 12 0 @ MAGIC_TRAILER @ [1])], entry_size = 17\<rparr>]"

lemma le_nat_0: "le_nat n 0 = replicate n 0"
  by (induction n) (simp_all add: byte_of_def)

lemma forged_stream:
  obtains fs frames where "build_fileset forged_entries = Inr fs"
    "read_frames UnexpectedEof (concat (wire_chunks fs)) = Inr (frames, [1] @ MAGIC_TRAILER)"
proof -
  obtain e e' where b: "build_fileset forged_entries = Inr [e, e']"
    "untainted_inner (fe_relative e) = [Normal [97]]" "tainted_inner (fe_bytes e) = []" "fe_size e = 13"
    "untainted_inner (fe_relative e') = [Normal [98]]" "fe_size e' = 17"
    "tainted_inner (fe_bytes e') = replicate 12 0 @ MAGIC_TRAILER @ [1]"
    by (auto simp: forged_entries_def Let_def untainted_new_def new_internal_def)
  have rel: "path_fits [Normal [97]]" "path_fits [Normal [98]]" "to_string_lossy [Normal [98]] = [98]"
    by (simp_all add: path_fits_def to_string_lossy_def path_bytes_def utf8_lossy.simps decode_step_def encode_char_def)
  have len: "length (framing_bytes e') = 13"
    by (simp add: framing_bytes_def b rel(3) untainted_into_inner_def encode_char_def Let_def)
  let ?g = "\<lparr>relative_path = [], frame_bytes = []\<rparr>"
  have g: "frame_wire ?g = replicate 12 0" 
    by (simp add: frame_wire_def u32_le_def u64_le_def le_nat_0 flip: replicate_add)
  have wf: "wf_frame ?g" by (simp add: wf_frame_def valid_str_def)
  have size: "fe_size e = of_nat (length (framing_bytes e'))" by (simp add: b(4) len)
  have bytes: "tainted_inner (fe_bytes e') @ MAGIC_TRAILER = frame_wire ?g @ MAGIC_TRAILER @ [1] @ MAGIC_TRAILER"
    unfolding b(7) g by simp
  show thesis
    by (rule that [OF b(1)], rule shrunk_file_forges [OF b(3) size _ _ bytes wf]) (simp_all add: b(2,5) rel)
qed

text \<open>A refusal in particular is reported, whatever the capacity of the pipes.\<close>

lemma mode_a_refusal_reported:
  assumes "std_open t" and "no_pipes t" and "0 < cap" and "mode_a_spawn t = Inr m"
    and "read_frames UnexpectedEof (concat (wire_chunks fs)) = Inl e" and "e \<noteq> ProtoIo UnexpectedEof"
  shows "ends_in cap (chain_prog (ma_w m) (ma_r m) (mode_a_stages renv bin)) (mode_a_run m fs)
    {Inl ReaderFailed, Inl (OrchFd (FdIo (OsError 32)))}"
proof -
  note d = deciding_a [OF assms(1,2,4) _ refused_output [OF assms(5)]]
  show ?thesis
    using chain.runs_end [of cap] stopping_ends [OF d assms(3)] assms(5,6)
    unfolding ends_in_def mode_a_run_def mode_a_stages_def broken_pipe_def by auto
qed

section \<open>Properties\<close>

text \<open>C6: mode A with real pipes of any positive capacity and any interleaving of the host and the reader: no run
  is infinite and none deadlocks, and the host always returns what the sequential model \<open>run_sandboxed\<close> says,
  whenever the frame stream is complete.\<close>

theorem mode_a_refines_sequential:
  assumes "std_open t" and "no_pipes t" and "0 < cap" and "mode_a_spawn t = Inr m"
    and "read_frames UnexpectedEof (concat (wire_chunks fs)) = Inr (frames, [])"
    and "env_pipe env = (\<lambda>i. None)" and "env_spawn env = (\<lambda>i. None)"
    and "write_fileset_protocol (SandboxFd (ma_w m)) fs k = (k', Inr ())" and "k_out k (ma_w m) = []"
  shows "always_ends cap (chain_prog (ma_w m) (ma_r m) (mode_a_stages renv bin)) (mode_a_run m fs)
    (run_sandboxed env t k (reader_process renv) fs bin)"
proof -
  have t: "plain_table t = t" and fs: "sendable fs = fs" and cap: "Suc (cap - 1) = cap"
    using assms(1-3,5) by (auto simp: plain_table_def sendable_def)
  then have m: "setup_a t = m" using assms(4) by (simp add: setup_a_def)
  have one: "(\<forall>j. 1 \<le> j \<and> j \<le> length (mode_a_stages renv bin) \<longrightarrow> P j) \<longleftrightarrow> P 1" for P
    by (auto simp: mode_a_stages_def le_Suc_eq)
  have o': "mode_a.outcome_of renv bin fs = run_sandboxed env t k (reader_process renv) fs bin"
    unfolding mode_a.outcome_of_def unfolding fs one mode_a_outcome [OF assms(1,4,6,7,8,9)]
    by (simp add: mode_a_stages_def)
  show ?thesis
    unfolding always_ends_def mode_a_run_def o' [unfolded fs, symmetric]
    using chain.runs_end mode_a.completes [of "cap - 1" t renv bin fs, unfolded cap m fs] by blast
qed

theorem mode_a_refines_sequential_witness:
  "\<exists>m fs. mode_a_spawn std_table = Inr m \<and> build_fileset sample_entries = Inr fs
     \<and> always_ends 1 (chain_prog (ma_w m) (ma_r m) (mode_a_stages sample_reader_env (lit ''reader''))) (mode_a_run m fs)
         (run_sandboxed quiet_env std_table sample_kernel (reader_process sample_reader_env) fs (lit ''reader''))"
proof -
  obtain m where m: "mode_a_spawn std_table = Inr m" using mode_a_tables [OF std_table_ok(1,2)] by metis
  obtain fs k' frames where f: "build_fileset sample_entries = Inr fs"
    "write_fileset_protocol (SandboxFd (ma_w m)) fs sample_kernel = (k', Inr ())" "k_out sample_kernel (ma_w m) = []"
    "read_frames UnexpectedEof (concat (wire_chunks fs)) = Inr (frames, [])" by (rule sample_written)
  with m mode_a_refines_sequential [OF std_table_ok(1,2) zero_less_one m f(4) _ _ f(2,3), of quiet_env]
  show ?thesis by (auto simp: quiet_env_def)
qed

text \<open>C7: mode B likewise: with three processes and three pipes, a complete frame stream and JSON text that reads
  back, every run ends and the host returns what \<open>run_sandboxed_mode_b\<close> says.\<close>

theorem mode_b_refines_sequential:
  assumes "std_open t" and "no_pipes t" and "0 < cap" and "mode_b_spawn t = Inr m" and "good_text renv"
    and "read_frames UnexpectedEof (concat (wire_chunks fs)) = Inr (frames, [])"
    and "env_pipe env = (\<lambda>i. None)" and "env_spawn env = (\<lambda>i. None)"
    and "write_fileset_protocol (SandboxFd (mb_w m)) fs k = (k', Inr ())" and "k_out k (mb_w m) = []"
  shows "always_ends cap (chain_prog (mb_w m) (mb_r m) (mode_b_stages renv renv bin)) (mode_b_run m fs)
    (run_sandboxed_mode_b env t k (bytes_process renv) (priv_process renv) fs bin pbin)"
proof -
  have t: "plain_table t = t" and fs: "sendable fs = fs" and cap: "Suc (cap - 1) = cap" and env: "text_env renv = renv"
    using assms(1-3,5,6) by (auto simp: plain_table_def sendable_def text_env_def)
  then have m: "setup_b t = m" using assms(4) by (simp add: setup_b_def)
  have two: "(\<forall>j. 1 \<le> j \<and> j \<le> length (mode_b_stages renv renv bin) \<longrightarrow> P j) \<longleftrightarrow> P 1 \<and> P 2" for P
    by (auto simp: mode_b_stages_def le_Suc_eq numeral_2_eq_2)
  have o': "mode_b.outcome_of renv bin fs = run_sandboxed_mode_b env t k (bytes_process renv) (priv_process renv) fs bin pbin"
    unfolding mode_b.outcome_of_def unfolding fs env two mode_b_outcome [OF assms(1,4,7,8,9,10)]
    by (simp add: mode_b_stages_def numeral_2_eq_2)
  show ?thesis
    unfolding always_ends_def mode_b_run_def o' [unfolded env fs, symmetric]
    using chain.runs_end mode_b.completes [of "cap - 1" t renv bin fs, unfolded cap m fs env] by blast
qed

theorem mode_b_refines_sequential_witness:
  "\<exists>m fs. mode_b_spawn std_table = Inr m \<and> build_fileset sample_entries = Inr fs
     \<and> always_ends 1 (chain_prog (mb_w m) (mb_r m) (mode_b_stages sample_reader_env sample_reader_env (lit ''reader'')))
         (mode_b_run m fs)
         (run_sandboxed_mode_b quiet_env std_table sample_kernel (bytes_process sample_reader_env)
            (priv_process sample_reader_env) fs (lit ''reader'') (lit ''priv''))"
proof -
  obtain m where m: "mode_b_spawn std_table = Inr m" using mode_b_tables [OF std_table_ok(1,2)] by metis
  obtain fs k' frames where f: "build_fileset sample_entries = Inr fs"
    "write_fileset_protocol (SandboxFd (mb_w m)) fs sample_kernel = (k', Inr ())" "k_out sample_kernel (mb_w m) = []"
    "read_frames UnexpectedEof (concat (wire_chunks fs)) = Inr (frames, [])" by (rule sample_written)
  with m mode_b_refines_sequential [OF std_table_ok(1,2) zero_less_one m sample_reader_good f(4) _ _ f(2,3), of quiet_env]
  show ?thesis by (auto simp: quiet_env_def)
qed

text \<open>C9: when the last file of the set shrinks between the walk and the read, the files before it being whole, and
  descriptors 3 and 4 are free when the host makes its pipes, \<open>seck analyze\<close> hangs in both modes: whatever the
  interleaving and the capacity of the pipes the host never returns, because the first reader has inherited the
  write end of the pipe it waits on.  When a file before the last shrinks, the reader takes bytes of the next
  header for its own and the run may end with a forged result instead.\<close>

theorem shrunk_file_hangs:
  assumes "std_open t" and "no_pipes t" and "fd_get t 3 = None" and "fd_get t 4 = None"
    and "mode_a_spawn t = Inr ma" and "mode_b_spawn t = Inr mb"
    and "build_fileset (es @ [e]) = Inr fs" and "length es < 10000"
    and "\<forall>x \<in> set es. unat (entry_size x) \<le> length (content (entry_fd x))"
    and "length (content (entry_fd e)) < unat (entry_size e)"
    and "\<forall>x \<in> set (es @ [e]). path_fits (entry_relative x) \<and> entry_size x \<le> max_bytes_per_file default_limits"
  shows "never_ends cap (chain_prog (ma_w ma) (ma_r ma) (mode_a_stages renv bin)) (mode_a_run ma fs)
    \<and> never_ends cap (chain_prog (mb_w mb) (mb_r mb) (mode_b_stages benv penv bin)) (mode_b_run mb fs)"
proof -
  have S: "read_frames UnexpectedEof (concat (wire_chunks fs)) = Inl (ProtoIo UnexpectedEof)"
    by (rule shrunk_file_fails [OF assms(7-11)])
  show ?thesis
    unfolding never_ends_def mode_a_run_def mode_b_run_def
    using chain.runs_end starved_for_ever [OF starving_a [OF assms(1-5) S]] starved_for_ever [OF starving_b [OF assms(1-4,6) S]]
    by blast
qed

theorem shrunk_file_hangs_witness:
  "\<exists>ma mb fs. mode_a_spawn std_table = Inr ma \<and> mode_b_spawn std_table = Inr mb
     \<and> build_fileset shrunk_entries = Inr fs
     \<and> never_ends 65536 (chain_prog (ma_w ma) (ma_r ma) (mode_a_stages sample_reader_env (lit ''reader''))) (mode_a_run ma fs)
     \<and> never_ends 65536 (chain_prog (mb_w mb) (mb_r mb)
         (mode_b_stages sample_reader_env sample_reader_env (lit ''reader''))) (mode_b_run mb fs)"
proof -
  obtain ma where ma: "mode_a_spawn std_table = Inr ma" using mode_a_tables [OF std_table_ok(1,2)] by metis
  obtain mb where mb: "mode_b_spawn std_table = Inr mb" using mode_b_tables [OF std_table_ok(1,2)] by metis
  obtain fs where b: "build_fileset shrunk_entries = Inr fs" by (simp add: shrunk_entries_def Let_def)
  with ma mb shrunk_file_hangs [OF std_table_ok ma mb b [unfolded shrunk_entries_def]] show ?thesis
    by (auto simp: short_paths_fit default_limits_def)
qed

text \<open>C8: when the stream does not end early and what the reader prints fits its pipe, mode A ends: the reader refuses
  the stream or has its frames, at the end of the stream or before it, and under every interleaving the run is
  finite and the host returns what the reader decides, its report or the failure of its exit status, or else the
  error of a write that finds the reader gone.  Without the bound on the report nothing is claimed: the host reads
  it only after it has written the stream, and a reader that decides early may wait for the host to do so.\<close>

theorem mode_a_ends_unless_short:
  assumes "std_open t" and "no_pipes t" and "mode_a_spawn t = Inr m"
    and "read_frames UnexpectedEof (concat (wire_chunks fs)) \<noteq> Inl (ProtoIo UnexpectedEof)"
    and "reader_output renv (argv_of (reader_command bin)) (concat (wire_chunks fs)) = (out, ok)"
    and "0 < cap" and "length out \<le> cap"
  shows "ends_in cap (chain_prog (ma_w m) (ma_r m) (mode_a_stages renv bin)) (mode_a_run m fs)
    {if ok then Inr out else Inl ReaderFailed, Inl (OrchFd (FdIo (OsError 32)))}"
  using chain.runs_end [of cap] stopping_ends [OF deciding_a [OF assms(1-5)] assms(6,7)]
  unfolding ends_in_def mode_a_run_def mode_a_stages_def broken_pipe_def by blast

theorem mode_a_ends_unless_short_witness:
  "\<exists>m fs out. mode_a_spawn std_table = Inr m \<and> build_fileset forged_entries = Inr fs
     \<and> reader_output sample_reader_env (argv_of (reader_command (lit ''reader''))) (concat (wire_chunks fs)) = (out, True)
     \<and> ends_in (Suc (length out)) (chain_prog (ma_w m) (ma_r m) (mode_a_stages sample_reader_env (lit ''reader'')))
         (mode_a_run m fs) {Inr out, Inl (OrchFd (FdIo (OsError 32)))}"
proof -
  obtain m where m: "mode_a_spawn std_table = Inr m" using mode_a_tables [OF std_table_ok(1,2)] by metis
  obtain fs frames where f: "build_fileset forged_entries = Inr fs"
    "read_frames UnexpectedEof (concat (wire_chunks fs)) = Inr (frames, [1] @ MAGIC_TRAILER)" by (rule forged_stream)
  obtain out where o': "reader_output sample_reader_env (argv_of (reader_command (lit ''reader''))) (concat (wire_chunks fs)) = (out, True)"
    using accepted_output [OF f(2)] by blast
  have "ends_in (Suc (length out)) (chain_prog (ma_w m) (ma_r m) (mode_a_stages sample_reader_env (lit ''reader'')))
      (mode_a_run m fs) {if True then Inr out else Inl ReaderFailed, Inl (OrchFd (FdIo (OsError 32)))}"
    by (rule mode_a_ends_unless_short [OF std_table_ok(1,2) m _ o']) (simp_all add: f(2))
  with m f(1) o' show ?thesis by auto
qed

text \<open>C11: when the bytes process of mode B accepts the stream, at its end or before it, and what the inference
  process prints fits its pipe, mode B ends: under every interleaving of the three processes the run is finite and
  the host returns the report of the inference process on exactly the accepted frames, or the failure of its exit
  status, or the error of a write that finds nobody to read.  The bound is needed as in mode A: the host reads the report
  only after it has written the stream.  With C10, for reports that fit, which stream is accepted decides whether
  mode B ends.\<close>

theorem mode_b_ends_when_accepted:
  assumes "std_open t" and "no_pipes t" and "mode_b_spawn t = Inr m" and "good_text renv"
    and "read_frames UnexpectedEof (concat (wire_chunks fs)) = Inr (frames, rest)"
    and "priv_output renv (emit_ipc renv frames) = (out, ok)" and "0 < cap" and "length out \<le> cap"
  shows "ends_in cap (chain_prog (mb_w m) (mb_r m) (mode_b_stages renv renv bin)) (mode_b_run m fs)
    {if ok then Inr out else Inl ReaderFailed, Inl (OrchFd (FdIo (OsError 32)))}"
  using chain.runs_end [of cap] relaying_ends [OF forwarding_b [OF assms(1-6)] assms(7,8)]
  unfolding ends_in_def mode_b_run_def mode_b_stages_def broken_pipe_def simp_thms by blast

theorem mode_b_ends_when_accepted_witness:
  "\<exists>m fs frames out ok. mode_b_spawn std_table = Inr m \<and> build_fileset forged_entries = Inr fs
     \<and> read_frames UnexpectedEof (concat (wire_chunks fs)) = Inr (frames, [1] @ MAGIC_TRAILER)
     \<and> priv_output sample_reader_env (emit_ipc sample_reader_env frames) = (out, ok)
     \<and> ends_in (Suc (length out))
         (chain_prog (mb_w m) (mb_r m) (mode_b_stages sample_reader_env sample_reader_env (lit ''reader''))) (mode_b_run m fs)
         {if ok then Inr out else Inl ReaderFailed, Inl (OrchFd (FdIo (OsError 32)))}"
proof -
  obtain m where m: "mode_b_spawn std_table = Inr m" using mode_b_tables [OF std_table_ok(1,2)] by metis
  obtain fs frames where f: "build_fileset forged_entries = Inr fs"
    "read_frames UnexpectedEof (concat (wire_chunks fs)) = Inr (frames, [1] @ MAGIC_TRAILER)" by (rule forged_stream)
  obtain out ok where o': "priv_output sample_reader_env (emit_ipc sample_reader_env frames) = (out, ok)" by fastforce
  have "ends_in (Suc (length out))
      (chain_prog (mb_w m) (mb_r m) (mode_b_stages sample_reader_env sample_reader_env (lit ''reader''))) (mode_b_run m fs)
      {if ok then Inr out else Inl ReaderFailed, Inl (OrchFd (FdIo (OsError 32)))}"
    by (rule mode_b_ends_when_accepted [OF std_table_ok(1,2) m sample_reader_good f(2) o']) simp_all
  with m f o' show ?thesis by blast
qed

text \<open>C10: when the bytes process of mode B refuses the frame stream, for whatever reason, the inference process
  waits for its first message for ever and the host, having written the stream, waits for ever for the report: no
  interleaving lets it return anything but the error of a write that finds the bytes process gone.\<close>

theorem refused_stream_hangs_mode_b:
  assumes "std_open t" and "no_pipes t" and "mode_b_spawn t = Inr m"
    and "read_frames UnexpectedEof (concat (wire_chunks fs)) = Inl e"
    and "(net_step cap (chain_prog (mb_w m) (mb_r m) (mode_b_stages benv penv bin)))\<^sup>*\<^sup>* (mode_b_run m fs) n"
  shows "procs n ! 2 = Running (mb_priv m) (StageRead [])
    \<and> (\<forall>tab res. procs n ! 0 = Running tab (HostEnd res) \<longrightarrow> res = Inl (OrchFd (FdIo (OsError 32))))"
  using silent_for_ever [OF refusing_b [OF assms(1-4)] assms(5) [unfolded mode_b_stages_def mode_b_run_def]]
  by (simp add: broken_pipe_def)

theorem refused_stream_hangs_mode_b_witness:
  "\<exists>m fs. mode_b_spawn std_table = Inr m
     \<and> build_fileset [\<lparr>entry_relative = long_path, entry_fd = [Inr [1]], entry_size = 1\<rparr>] = Inr fs
     \<and> (\<forall>n tab res. (net_step 65536 (chain_prog (mb_w m) (mb_r m)
             (mode_b_stages sample_reader_env sample_reader_env (lit ''reader''))))\<^sup>*\<^sup>* (mode_b_run m fs) n
           \<longrightarrow> procs n ! 0 = Running tab (HostEnd res) \<longrightarrow> res = Inl (OrchFd (FdIo (OsError 32))))"
proof -
  obtain m where m: "mode_b_spawn std_table = Inr m" using mode_b_tables [OF std_table_ok(1,2)] by metis
  obtain f x where f: "build_fileset [\<lparr>entry_relative = long_path, entry_fd = [Inr [1]], entry_size = 1\<rparr> :: read_answers entry] = Inr [f]"
    "read_frames UnexpectedEof (concat (wire_chunks [f])) = Inl (TooLarge x)" by (rule long_path_sample)
  with m refused_stream_hangs_mode_b [OF std_table_ok(1,2) m f(2)] show ?thesis by blast
qed

end
