(* ===== verification/EndToEnd.thy ===== *)
theory EndToEnd
  imports ModeRuns
begin

section \<open>\<open>seck analyze\<close> from end to end\<close>

text \<open>
  Mode B of \<open>seck analyze\<close> (\<open>crates/seck-cli/src/main.rs\<close> over \<open>seck-host\<close>, \<open>seck-reader\<close>, \<open>seck-reader-ipc\<close> and
  \<open>seck-reader-priv\<close>), composed as \<open>Cli\<close> composes mode A, and what the text output does with the reports of
  both readers.
\<close>

text \<open>The part of \<open>analyze\<close> around the sandboxed run.\<close>

lemma analyze_around:
  assumes "healthy env" and "arg_fd args = None"
    and "walk (arg_path args) (an_tree env (arg_path args)) default_limits = Inr es" and "build_fileset es = Inr fs"
    and "\<And>sib reader. analyze_run env args fs sib reader = Inr report" and "an_from_slice env report = Some v"
  shows "analyze env args flag = (if arg_fips args then True else flag, analyze_output env args v)"
proof -
  obtain exe sib where "an_exe env = Inr exe" "an_sibling_dir env exe = Some sib" "an_exists env = (\<lambda>p. True)"
    using assms(1) by (auto simp: healthy_def)
  then show ?thesis using assms(2-6) by (simp add: analyze_def analyze_entries_def Let_def del: lit_Cons)
qed

text \<open>What a healthy host delivers, whatever descriptor the pipe has.\<close>

lemma healthy_delivery:
  assumes "healthy env"
    and "walk p (an_tree env p) default_limits = Inr es" and "build_fileset es = Inr fs"
    and "\<forall>e \<in> set es. unat (entry_size e) \<le> length (content (entry_fd e)) \<and> path_fits (entry_relative e)"
    and "write_fileset_protocol fd fs (an_kernel env) = (k', Inr ())"
  shows "read_frames UnexpectedEof (k_out k' (sandbox_raw fd)) = Inr (delivered_frames es, [])"
proof -
  have "k_out (an_kernel env) (sandbox_raw fd) = []" using assms(1) by (simp add: healthy_def)
  from delivery [OF assms(2,3) _ _ assms(5) this] assms(4) show ?thesis by (simp add: delivered_frames_def)
qed

definition mode_b_report :: "reader_env \<Rightarrow> frame list \<Rightarrow> json" where
  "mode_b_report renv frames =
     (let nonce_hex = r_hex renv (r_nonce renv) in
      report_json renv (lit ''B'') (r_hex renv (r_sha3 renv (utf8_encode nonce_hex)))
        (map (\<lambda>f. ipc_input_json renv (relative_path f) (r_b64 renv (frame_bytes f)) (of_nat (length (frame_bytes f)))) frames)
        stub_text)"

lemma priv_output_report:
  assumes "good_text renv"
  shows "priv_output renv (emit_ipc renv frames) = (utf8_encode (r_to_text renv (mode_b_report renv frames)), True)"
proof -
  obtain ms where ms: "emitted renv frames = ms @ [EndFiles]" "EndFiles \<notin> set ms" using emitted_end by blast
  have r: "read_messages renv (emit_ipc renv frames) = Inr (emitted renv frames)"
    using read_messages_written [OF assms ms(2), of "[]"] by (simp add: emit_ipc_def ms(1))
  have st: "pv_inputs (fold (priv_message renv) (emitted renv frames) priv_start)
      = map (\<lambda>f. ipc_input_json renv (relative_path f) (r_b64 renv (frame_bytes f)) (of_nat (length (frame_bytes f)))) frames"
    "pv_nonce (fold (priv_message renv) (emitted renv frames) priv_start) = r_hex renv (r_nonce renv)"
    by (simp_all add: emitted_def priv_files priv_start_def)
  show ?thesis
    by (simp add: priv_output_def priv_main_def r priv_report_def st stub_inference_text mode_b_report_def Let_def del: lit_Cons)
qed

lemma run_sandboxed_b_reader:
  assumes h: "healthy env" and g: "good_text renv"
    and f: "\<And>fd k'. write_fileset_protocol fd fileset (an_kernel env) = (k', Inr ()) \<Longrightarrow>
      read_frames UnexpectedEof (k_out k' (sandbox_raw fd)) = Inr (frames, [])"
  shows "run_sandboxed_mode_b (an_host env) (an_fds env) (an_kernel env) (bytes_process renv) (priv_process renv) fileset b p
    = Inr (utf8_encode (r_to_text renv (mode_b_report renv frames)))"
proof -
  have std: "std_open (an_fds env)" using h by (simp add: healthy_def)
  obtain r0 w0 t1 where p0: "sys_pipe 0 (an_fds env) = (r0, w0, t1)" by (cases "sys_pipe 0 (an_fds env)") auto
  obtain r1 w1 t2 where p1: "sys_pipe 1 t1 = (r1, w1, t2)" by (cases "sys_pipe 1 t1") auto
  obtain r2 w2 t3 where p2: "sys_pipe 2 t2 = (r2, w2, t3)" by (cases "sys_pipe 2 t2") auto
  obtain tb tp where c: "pre_exec_bytes r0 w1 t3 = Inr tb" "pre_exec_priv r1 w2 t3 = Inr tp"
    using mode_b_fds [OF std p0 p1 p2] by blast
  obtain k' where k: "write_fileset_protocol (SandboxFd w0) fileset (an_kernel env) = (k', Inr ())"
    using write_fileset_total h by (metis healthy_def)
  have "read_frames UnexpectedEof (k_out k' w0) = Inr (frames, [])" using f [OF k] by simp
  then have out: "bytes_output renv (argv_of (bytes_command b)) (k_out k' w0) = (emit_ipc renv frames, True)"
    by (rule bytes_output_ipc)
  have e: "env_pipe (an_host env) i = None" "env_spawn (an_host env) i = None" for i
    using h by (auto simp: healthy_def)
  show ?thesis
    by (simp add: run_sandboxed_mode_b_def try_pipe_def try_spawn_def e p0 p1 p2 c k bytes_process_def priv_process_def out
        priv_output_report [OF g] del: One_nat_def)
qed

text \<open>Both modes up to the printing of the report.\<close>

definition readers_run :: "analyze_env \<Rightarrow> reader_env \<Rightarrow> ustr \<Rightarrow> bool" where
  "readers_run env renv m \<longleftrightarrow> healthy env \<and> good_text renv \<and>
     (m = lit ''a'' \<and> an_reader env = reader_process renv
      \<or> m = lit ''b'' \<and> an_bytes env = bytes_process renv \<and> an_priv env = priv_process renv)"

definition mode_report :: "reader_env \<Rightarrow> ustr \<Rightarrow> frame list \<Rightarrow> json" where
  "mode_report renv m frames = (if m = lit ''a'' then mode_a_report renv frames else mode_b_report renv frames)"

lemma analyze_readers:
  assumes r: "readers_run env renv (arg_mode args)" and "arg_fd args = None"
    and w: "walk (arg_path args) (an_tree env (arg_path args)) default_limits = Inr es" "build_fileset es = Inr fs"
      "\<forall>e \<in> set es. unat (entry_size e) \<le> length (content (entry_fd e)) \<and> path_fits (entry_relative e)"
    and t: "\<And>v. an_from_slice env (utf8_encode (r_to_text renv v)) = Some v"
  shows "analyze env args flag = (if arg_fips args then True else flag,
    analyze_output env args (mode_report renv (arg_mode args) (delivered_frames es)))"
proof -
  have h: "healthy env" and g: "good_text renv" and ex: "an_exists env = (\<lambda>p. True)"
    using r by (auto simp: readers_run_def healthy_def)
  note a = run_sandboxed_reader [OF h healthy_delivery [OF h w]]
  note b = run_sandboxed_b_reader [OF h g healthy_delivery [OF h w]]
  have ne: "lit ''b'' \<noteq> lit ''a''" by simp
  have "analyze_run env args fs sib reader
      = Inr (utf8_encode (r_to_text renv (mode_report renv (arg_mode args) (delivered_frames es))))" for sib reader
    using r ex ne by (auto simp: readers_run_def analyze_run_def mode_report_def a b Let_def simp del: lit_Cons)
  from analyze_around [OF h assms(2) w(1,2) this t] show ?thesis .
qed

lemma stub_report_refused_b:
  "r_from_text env stub_text = Some stub_value \<Longrightarrow> report_from_json (mode_b_report env frames) = None"
  unfolding mode_b_report_def Let_def by (rule stub_report_refused)

lemma stub_report_refused_a:
  "r_from_text env stub_text = Some stub_value \<Longrightarrow> report_from_json (mode_a_report env frames) = None"
  unfolding mode_a_report_def by (rule stub_report_refused)

section \<open>Properties\<close>

text \<open>C4: \<open>seck analyze --sandbox-mode b\<close>, from the file tree to standard output, through both readers: the command
  prints a report whose inputs are exactly the regular files of the tree, in directory order, each with its lossy
  path, the hash of its encoded bytes and its size.\<close>

theorem analyze_mode_b:
  assumes "healthy env" and "an_bytes env = bytes_process renv" and "an_priv env = priv_process renv" and "good_text renv"
    and "arg_fd args = None" and "arg_mode args = lit ''b''" and "arg_output args = lit ''json''"
    and "walk (arg_path args) (an_tree env (arg_path args)) default_limits = Inr es" and "build_fileset es = Inr fs"
    and "\<forall>e \<in> set es. unat (entry_size e) \<le> length (content (entry_fd e)) \<and> path_fits (entry_relative e)"
    and "\<And>v. an_from_slice env (utf8_encode (r_to_text renv v)) = Some v"
  shows "map entry_view es = files_of (arg_path args) (arg_path args) (an_tree env (arg_path args))
    \<and> analyze env args flag = (if arg_fips args then True else flag,
        Inr (an_pretty env (mode_b_report renv (delivered_frames es)) @ [10]))"
proof
  show "map entry_view es = files_of (arg_path args) (arg_path args) (an_tree env (arg_path args))"
    by (rule walk_Inr(1) [OF assms(8)])
  have "readers_run env renv (arg_mode args)" using assms(1-4,6) by (simp add: readers_run_def)
  from analyze_readers [OF this assms(5,8-11), of flag]
  show "analyze env args flag = (if arg_fips args then True else flag,
        Inr (an_pretty env (mode_b_report renv (delivered_frames es)) @ [10]))"
    by (simp add: analyze_output_def mode_report_def assms(6,7))
qed

definition sample_env_b :: analyze_env where
  "sample_env_b = sample_analyze_env\<lparr>an_bytes := bytes_process sample_reader_env, an_priv := priv_process sample_reader_env\<rparr>"

lemma sample_env_b_ok:
  "healthy sample_env_b" "an_bytes sample_env_b = bytes_process sample_reader_env"
  "an_priv sample_env_b = priv_process sample_reader_env" "an_reader sample_env_b = reader_process sample_reader_env"
  "walk [Normal [114]] (an_tree sample_env_b p) default_limits = Inr sample_entries"
  "an_from_slice sample_env_b (utf8_encode (r_to_text sample_reader_env v)) = Some v"
  "an_pretty sample_env_b = json_text"
proof -
  show "healthy sample_env_b"
    by (simp add: healthy_def sample_env_b_def sample_analyze_env_def sample_kernel_def std_open_def fd_get_def
        numeral_eq_Suc less_Suc_eq)
  show "walk [Normal [114]] (an_tree sample_env_b p) default_limits = Inr sample_entries"
    using sample_walk by (simp add: sample_env_b_def sample_analyze_env_def)
  show "an_from_slice sample_env_b (utf8_encode (r_to_text sample_reader_env v)) = Some v"
    using good_text_laws(4) [OF sample_reader_good, of v]
    by (simp add: sample_env_b_def sample_analyze_env_def utf8_decode_encode) (simp add: sample_reader_env_def json_of_text)
qed (simp_all add: sample_env_b_def sample_analyze_env_def)

theorem analyze_mode_b_witness:
  "snd (analyze sample_env_b (sample_args\<lparr>arg_mode := lit ''b''\<rparr>) False)
    = Inr (json_text (mode_b_report sample_reader_env (delivered_frames sample_entries)) @ [10])"
proof -
  let ?args = "sample_args\<lparr>arg_mode := lit ''b''\<rparr>"
  obtain fs where b: "build_fileset sample_entries = Inr fs" using sample_built by blast
  have g: "arg_fd ?args = None" "arg_mode ?args = lit ''b''" "arg_output ?args = lit ''json''" "arg_path sample_args = [Normal [114]]"
    by (simp_all add: sample_args_def)
  from analyze_mode_b [OF sample_env_b_ok(1-3) sample_reader_good g(1-3) _ b sample_ready, of False] sample_env_b_ok(5-7)
  show ?thesis by (simp add: g(4))
qed

text \<open>C40: \<open>seck analyze --output text\<close> prints no report of the readers as they are built: in both modes, when
  everything else succeeds, the command ends with the error of a report that does not fit the schema, because the
  finding of the stub backend has no id.\<close>

theorem text_output_refused:
  assumes "readers_run env renv (arg_mode args)" and "r_from_text renv stub_text = Some stub_value"
    and "arg_fd args = None" and "arg_output args \<noteq> lit ''json''"
    and "walk (arg_path args) (an_tree env (arg_path args)) default_limits = Inr es" and "build_fileset es = Inr fs"
    and "\<forall>e \<in> set es. unat (entry_size e) \<le> length (content (entry_fd e)) \<and> path_fits (entry_relative e)"
    and "\<And>v. an_from_slice env (utf8_encode (r_to_text renv v)) = Some v"
  shows "snd (analyze env args flag) = Inl ReportShape"
  unfolding analyze_readers [OF assms(1,3,5-8)]
  using assms(4) stub_report_refused_a [OF assms(2)] stub_report_refused_b [OF assms(2)]
  by (simp add: analyze_output_def mode_report_def ok_or_def del: lit_Cons)

theorem text_output_refused_witness:
  "snd (analyze sample_env_b (sample_args\<lparr>arg_output := lit ''text''\<rparr>) False) = Inl ReportShape
   \<and> snd (analyze sample_env_b (sample_args\<lparr>arg_mode := lit ''b'', arg_output := lit ''text''\<rparr>) False) = Inl ReportShape"
proof -
  let ?a = "sample_args\<lparr>arg_output := lit ''text''\<rparr>" and ?b = "sample_args\<lparr>arg_mode := lit ''b'', arg_output := lit ''text''\<rparr>"
  obtain fs where f: "build_fileset sample_entries = Inr fs" using sample_built by blast
  have s: "r_from_text sample_reader_env stub_text = Some stub_value" by (simp add: sample_reader_env_def)
  have r: "readers_run sample_env_b sample_reader_env (arg_mode ?a)" "readers_run sample_env_b sample_reader_env (arg_mode ?b)"
    using sample_env_b_ok(1-4) sample_reader_good by (simp_all add: readers_run_def sample_args_def)
  have g: "arg_fd ?a = None" "arg_fd ?b = None" "arg_output ?a \<noteq> lit ''json''" "arg_output ?b \<noteq> lit ''json''"
    "arg_path sample_args = [Normal [114]]"
    by (simp_all add: sample_args_def)
  show ?thesis
    using text_output_refused [OF r(1) s g(1,3) _ f sample_ready] text_output_refused [OF r(2) s g(2,4) _ f sample_ready]
      sample_env_b_ok(5,6) by (simp add: g(5))
qed

end
