(* ===== verification/Crypto.thy ===== *)
theory Crypto
  imports ByteIo
begin

section \<open>\<open>seck-crypto\<close>, \<open>seck-mem-hard\<close> and the release tools\<close>

text \<open>
  \<open>crates/seck-crypto/src\<close>, \<open>crates/seck-mem-hard/src/lib.rs\<close>, \<open>crates/seck-release-sign\<close> and
  \<open>crates/seck-verify-release\<close>.  The primitives are third-party crates and parameters: the sponge of
  SHA3-256, Argon2id, the signature schemes, the key encapsulation and the ciphers, each with the checks its
  \<open>from_bytes\<close> makes.  What this code adds is modelled: the streaming hasher, the floors of the key
  derivation, the panics of \<open>expect\<close> (the result \<open>None\<close>), the refusals of the verifiers, the locked buffers
  and the exit codes of the two tools.
\<close>

subsection \<open>Hashing\<close>

text \<open>A digest that absorbs data piece by piece: how the pieces are cut does not matter.\<close>

locale digest =
  fixes init :: 's and update :: "'s \<Rightarrow> bytes \<Rightarrow> 's" and fin :: "'s \<Rightarrow> bytes"
  assumes update_append: "update (update s a) b = update s (a @ b)"
    and update_nil: "update s [] = s"
begin

lemma foldl_update: "foldl update s cs = update s (concat cs)"
  by (induction cs rule: rev_induct) (simp_all add: update_append update_nil)

lemma streaming: "concat cs = concat ds \<Longrightarrow> fin (foldl update init cs) = fin (foldl update init ds)"
  by (simp add: foldl_update)

end

text \<open>The state of \<open>Hasher\<close> is what it has absorbed; \<open>keccak\<close> is the sponge function.\<close>

type_synonym hasher = bytes

definition hasher_new :: hasher where
  "hasher_new = []"

definition hasher_update :: "hasher \<Rightarrow> bytes \<Rightarrow> hasher" where
  "hasher_update h d = h @ d"

definition hasher_finalize :: "(bytes \<Rightarrow> bytes) \<Rightarrow> hasher \<Rightarrow> bytes" where
  "hasher_finalize keccak h = keccak h"

definition sha3_256 :: "(bytes \<Rightarrow> bytes) \<Rightarrow> bytes \<Rightarrow> bytes" where
  "sha3_256 keccak d = (let h = hasher_update hasher_new d in hasher_finalize keccak h)"

interpretation hasher: digest hasher_new hasher_update "hasher_finalize keccak" for keccak
  by unfold_locales (simp_all add: hasher_update_def)

lemma hasher_is_sha3: "hasher_finalize keccak (foldl hasher_update hasher_new cs) = sha3_256 keccak (concat cs)"
  by (simp add: hasher.foldl_update sha3_256_def)

subsection \<open>FIPS mode\<close>

text \<open>The process-wide flag.\<close>

definition enable_fips :: "bool \<Rightarrow> bool" where
  "enable_fips FIPS_MODE = True"

definition is_fips :: "bool \<Rightarrow> bool" where
  "is_fips FIPS_MODE = FIPS_MODE"

definition assert_fips_compatible :: "bool \<Rightarrow> ustr + unit" where
  "assert_fips_compatible FIPS_MODE = (if \<not> is_fips FIPS_MODE then Inr () else Inr ())"

subsection \<open>Key derivation\<close>

definition DEFAULT_M_KIB :: u32 where "DEFAULT_M_KIB = 524288"
definition DEFAULT_T :: u32 where "DEFAULT_T = 4"
definition DEFAULT_P :: u32 where "DEFAULT_P = 4"

text \<open>\<open>kdf\<close> is Argon2id with an output of 32 bytes; \<open>None\<close> where \<open>Params::new\<close> or the hashing fails and
  \<open>expect\<close> panics.\<close>

type_synonym kdf = "bytes \<Rightarrow> bytes \<Rightarrow> u32 \<Rightarrow> u32 \<Rightarrow> u32 \<Rightarrow> bytes option"

definition argon2id :: "kdf \<Rightarrow> bytes \<Rightarrow> bytes \<Rightarrow> u32 \<Rightarrow> u32 \<Rightarrow> u32 \<Rightarrow> bytes option" where
  "argon2id kdf pass salt m_kib t p = kdf pass salt m_kib t p"

definition argon2id_safe :: "kdf \<Rightarrow> bytes \<Rightarrow> bytes \<Rightarrow> u32 \<Rightarrow> u32 \<Rightarrow> u32 \<Rightarrow> bytes option" where
  "argon2id_safe kdf pass salt m_kib t p =
     (let m = max m_kib DEFAULT_M_KIB; t = max t DEFAULT_T; p = max p DEFAULT_P
      in argon2id kdf pass salt m t p)"

subsection \<open>Signatures\<close>

text \<open>A scheme: which byte strings are keys and signatures, the key pair of some randomness, signing
  (which may draw randomness of its own) and verifying.\<close>

record scheme =
  pk_ok :: "bytes \<Rightarrow> bool"
  sk_ok :: "bytes \<Rightarrow> bool"
  sig_ok :: "bytes \<Rightarrow> bool"
  gen :: "nat \<Rightarrow> bytes \<times> bytes"
  detached_sign :: "nat \<Rightarrow> bytes \<Rightarrow> bytes \<Rightarrow> bytes"
  verify_detached :: "bytes \<Rightarrow> bytes \<Rightarrow> bytes \<Rightarrow> bool"

definition slh_dsa_keypair :: "scheme \<Rightarrow> nat \<Rightarrow> bytes \<times> bytes" where
  "slh_dsa_keypair s rnd = (let (pk, sk) = gen s rnd in (pk, sk))"

definition slh_dsa_sign :: "scheme \<Rightarrow> nat \<Rightarrow> bytes \<Rightarrow> bytes \<Rightarrow> bytes option" where
  "slh_dsa_sign s rnd sk msg = (if sk_ok s sk then Some (detached_sign s rnd msg sk) else None)"

definition slh_dsa_verify :: "scheme \<Rightarrow> bytes \<Rightarrow> bytes \<Rightarrow> bytes \<Rightarrow> bool" where
  "slh_dsa_verify s pk msg sig =
     (if \<not> pk_ok s pk then False else if \<not> sig_ok s sig then False else verify_detached s sig msg pk)"

definition ml_dsa_keypair :: "scheme \<Rightarrow> nat \<Rightarrow> bytes \<times> bytes" where
  "ml_dsa_keypair s rnd = (let (pk, sk) = gen s rnd in (pk, sk))"

definition ml_dsa_sign :: "scheme \<Rightarrow> nat \<Rightarrow> bytes \<Rightarrow> bytes \<Rightarrow> bytes option" where
  "ml_dsa_sign s rnd sk msg = (if sk_ok s sk then Some (detached_sign s rnd msg sk) else None)"

definition ml_dsa_verify :: "scheme \<Rightarrow> bytes \<Rightarrow> bytes \<Rightarrow> bytes \<Rightarrow> bool" where
  "ml_dsa_verify s pk msg sig =
     (if \<not> pk_ok s pk then False else if \<not> sig_ok s sig then False else verify_detached s sig msg pk)"

text \<open>What the schemes document: a signature made with the secret key of a pair verifies under its public key.\<close>

definition good_scheme :: "scheme \<Rightarrow> bool" where
  "good_scheme s \<longleftrightarrow> (\<forall>rnd pk sk. gen s rnd = (pk, sk) \<longrightarrow> pk_ok s pk \<and> sk_ok s sk
     \<and> (\<forall>r msg. sig_ok s (detached_sign s r msg sk) \<and> verify_detached s (detached_sign s r msg sk) msg pk))"

lemma sign_verify:
  assumes "good_scheme s" and "slh_dsa_keypair s rnd = (pk, sk)"
  shows "\<exists>sig. slh_dsa_sign s r sk msg = Some sig \<and> slh_dsa_verify s pk msg sig"
  using assms by (auto simp: good_scheme_def slh_dsa_keypair_def slh_dsa_sign_def slh_dsa_verify_def split: prod.splits)

lemma ml_dsa_sign_verify:
  assumes "good_scheme s" and "ml_dsa_keypair s rnd = (pk, sk)"
  shows "\<exists>sig. ml_dsa_sign s r sk msg = Some sig \<and> ml_dsa_verify s pk msg sig"
  using assms by (auto simp: good_scheme_def ml_dsa_keypair_def ml_dsa_sign_def ml_dsa_verify_def split: prod.splits)

subsection \<open>The device key\<close>

record device_key =
  dk_public :: bytes
  dk_secret :: bytes

definition derive_device_key :: "kdf \<Rightarrow> scheme \<Rightarrow> nat \<Rightarrow> bytes \<Rightarrow> bytes \<Rightarrow> device_key option" where
  "derive_device_key kdf mldsa rnd passphrase salt =
     (case argon2id_safe kdf passphrase salt 0 0 0 of
        None \<Rightarrow> None
      | Some _ \<Rightarrow> let (pk, sk) = ml_dsa_keypair mldsa rnd in Some \<lparr>dk_public = pk, dk_secret = sk\<rparr>)"

subsection \<open>Key encapsulation and authenticated encryption\<close>

record kem =
  kem_pk_ok :: "bytes \<Rightarrow> bool"
  kem_sk_ok :: "bytes \<Rightarrow> bool"
  kem_ct_ok :: "bytes \<Rightarrow> bool"
  kem_gen :: "nat \<Rightarrow> bytes \<times> bytes"
  kem_encap :: "nat \<Rightarrow> bytes \<Rightarrow> bytes \<times> bytes"
  kem_decap :: "bytes \<Rightarrow> bytes \<Rightarrow> bytes"

definition mlkem768_keypair :: "kem \<Rightarrow> nat \<Rightarrow> bytes \<times> bytes" where
  "mlkem768_keypair k rnd = (let (pk, sk) = kem_gen k rnd in (pk, sk))"

definition mlkem768_encapsulate :: "kem \<Rightarrow> nat \<Rightarrow> bytes \<Rightarrow> (bytes \<times> bytes) option" where
  "mlkem768_encapsulate k rnd pk =
     (if kem_pk_ok k pk then let (ss, ct) = kem_encap k rnd pk in Some (ss, ct) else None)"

definition mlkem768_decapsulate :: "kem \<Rightarrow> bytes \<Rightarrow> bytes \<Rightarrow> bytes option" where
  "mlkem768_decapsulate k sk ct =
     (if \<not> kem_sk_ok k sk then None else if \<not> kem_ct_ok k ct then None else Some (kem_decap k ct sk))"

datatype sym_error = Aead ustr

record aead =
  aead_encrypt :: "bytes \<Rightarrow> bytes \<Rightarrow> bytes \<Rightarrow> bytes \<Rightarrow> ustr + bytes"
  aead_decrypt :: "bytes \<Rightarrow> bytes \<Rightarrow> bytes \<Rightarrow> bytes \<Rightarrow> ustr + bytes"

text \<open>The wrappers of the two ciphers: AES-256-GCM-SIV with a nonce of 12 bytes, XChaCha20-Poly1305 with one of 24.\<close>

definition aes256gcmsiv_encrypt :: "aead \<Rightarrow> bytes \<Rightarrow> bytes \<Rightarrow> bytes \<Rightarrow> bytes \<Rightarrow> sym_error + bytes" where
  "aes256gcmsiv_encrypt c key nonce pt aad = map_err Aead (aead_encrypt c key nonce pt aad)"

definition aes256gcmsiv_decrypt :: "aead \<Rightarrow> bytes \<Rightarrow> bytes \<Rightarrow> bytes \<Rightarrow> bytes \<Rightarrow> sym_error + bytes" where
  "aes256gcmsiv_decrypt c key nonce ct aad = map_err Aead (aead_decrypt c key nonce ct aad)"

definition xchacha20poly1305_encrypt :: "aead \<Rightarrow> bytes \<Rightarrow> bytes \<Rightarrow> bytes \<Rightarrow> bytes \<Rightarrow> sym_error + bytes" where
  "xchacha20poly1305_encrypt c key nonce pt aad = map_err Aead (aead_encrypt c key nonce pt aad)"

definition xchacha20poly1305_decrypt :: "aead \<Rightarrow> bytes \<Rightarrow> bytes \<Rightarrow> bytes \<Rightarrow> bytes \<Rightarrow> sym_error + bytes" where
  "xchacha20poly1305_decrypt c key nonce ct aad = map_err Aead (aead_decrypt c key nonce ct aad)"

subsection \<open>Locked buffers\<close>

text \<open>
  A vector is its address, its whole buffer (as long as its capacity) and its length.  The kernel keeps the
  address ranges that are locked; \<open>mlock\<close> fails with \<open>mlock_err\<close>.
\<close>

record vec =
  vec_ptr :: nat
  vec_buf :: bytes
  vec_len :: nat

definition vec_data :: "vec \<Rightarrow> bytes" where
  "vec_data v = take (vec_len v) (vec_buf v)"

record mem_state =
  locked_ranges :: "(nat \<times> nat) list"
  dontdump_ranges :: "(nat \<times> nat) list"
  dumpable :: bool

datatype lock_error = Mlock io_error

definition lock_memory :: "io_error option \<Rightarrow> bool \<Rightarrow> nat \<Rightarrow> nat \<Rightarrow> mem_state \<Rightarrow> mem_state \<times> (lock_error + unit)" where
  "lock_memory mlock_err linux ptr len m =
     (if len = 0 then (m, Inr ())
      else case mlock_err of
        Some e \<Rightarrow> (m, Inl (Mlock e))
      | None \<Rightarrow>
          let m = m\<lparr>locked_ranges := (ptr, len) # locked_ranges m\<rparr> in
          (if linux then m\<lparr>dontdump_ranges := (ptr, len) # dontdump_ranges m\<rparr> else m, Inr ()))"

text \<open>Where there is neither Linux nor macOS nothing is locked.\<close>

definition lock_memory_other :: "nat \<Rightarrow> nat \<Rightarrow> mem_state \<Rightarrow> mem_state \<times> (lock_error + unit)" where
  "lock_memory_other ptr len m = (m, Inr ())"

definition munlock :: "nat \<Rightarrow> nat \<Rightarrow> mem_state \<Rightarrow> mem_state" where
  "munlock ptr len m = m\<lparr>locked_ranges := filter (\<lambda>(p, n). \<not> (ptr \<le> p \<and> p + n \<le> ptr + len)) (locked_ranges m)\<rparr>"

definition harden_process :: "bool \<Rightarrow> mem_state \<Rightarrow> mem_state" where
  "harden_process linux m = (if linux then m\<lparr>dumpable := False\<rparr> else m)"

definition locked_bytes_new :: "io_error option \<Rightarrow> bool \<Rightarrow> vec \<Rightarrow> mem_state \<Rightarrow> mem_state \<times> (lock_error + vec)" where
  "locked_bytes_new mlock_err linux v m =
     (if vec_len v \<noteq> 0
      then (case lock_memory mlock_err linux (vec_ptr v) (vec_len v) m of
              (m', Inl e) \<Rightarrow> (m', Inl e)
            | (m', Inr _) \<Rightarrow> (m', Inr v))
      else (m, Inr v))"

text \<open>\<open>Zeroize for Vec\<close>: every byte of the buffer is cleared and the vector is emptied.\<close>

definition vec_zeroize :: "vec \<Rightarrow> vec" where
  "vec_zeroize v = v\<lparr>vec_buf := replicate (length (vec_buf v)) 0, vec_len := 0\<rparr>"

definition locked_bytes_drop :: "vec \<Rightarrow> mem_state \<Rightarrow> vec \<times> mem_state" where
  "locked_bytes_drop v m =
     (let v = vec_zeroize v
      in (v, if vec_len v \<noteq> 0 then munlock (vec_ptr v) (length (vec_buf v)) m else m))"

subsection \<open>Signing and verifying a release\<close>

type_synonym files = "ustr \<Rightarrow> io_error + bytes"

datatype sign_outcome = SignDone | SignError ustr io_error | SignPanic

text \<open>The second component is what the output file holds afterwards, \<open>old\<close> what it held before; \<open>wr\<close> is what happens to
  the write.\<close>

definition release_sign :: "scheme \<Rightarrow> nat \<Rightarrow> files \<Rightarrow> write_outcome \<Rightarrow> bytes option \<Rightarrow> ustr \<Rightarrow> ustr \<Rightarrow> ustr \<Rightarrow> sign_outcome \<times> bytes option" where
  "release_sign slh rnd fs wr old key inp outp =
     (case fs key of
        Inl e \<Rightarrow> (SignError key e, old)
      | Inr sk \<Rightarrow>
         (case fs inp of
            Inl e \<Rightarrow> (SignError inp e, old)
          | Inr msg \<Rightarrow>
             (case slh_dsa_sign slh rnd sk msg of
                None \<Rightarrow> (SignPanic, old)
              | Some sig \<Rightarrow>
                 (case fs_write_file wr sig old of
                    (f, Inl e) \<Rightarrow> (SignError outp e, f)
                  | (f, Inr _) \<Rightarrow> (SignDone, f)))))"

text \<open>The exit code: \<open>real_main\<close> exits itself with 0 or 1, and an error becomes 2.\<close>

definition verify_real_main :: "scheme \<Rightarrow> files \<Rightarrow> ustr \<Rightarrow> ustr \<Rightarrow> ustr \<Rightarrow> (ustr \<times> io_error) + nat" where
  "verify_real_main slh fs pubkey binary sig_file =
     try_bind (map_err (Pair pubkey) (fs pubkey)) (\<lambda>pk.
     try_bind (map_err (Pair binary) (fs binary)) (\<lambda>msg.
     try_bind (map_err (Pair sig_file) (fs sig_file)) (\<lambda>sig.
     Inr (if slh_dsa_verify slh pk msg sig then 0 else 1))))"

definition verify_release :: "scheme \<Rightarrow> files \<Rightarrow> ustr \<Rightarrow> ustr \<Rightarrow> ustr \<Rightarrow> nat" where
  "verify_release slh fs pubkey binary sig_file =
     (case verify_real_main slh fs pubkey binary sig_file of Inl e \<Rightarrow> 2 | Inr code \<Rightarrow> code)"

section \<open>Lemmas\<close>

lemma fips_is_noop: "assert_fips_compatible flag = Inr ()"
  by (simp add: assert_fips_compatible_def)

text \<open>The derived key pair depends on the passphrase only through the derivation not failing.\<close>

lemma device_key_ignores_passphrase:
  assumes "derive_device_key kdf s rnd p1 salt1 = Some k1" and "derive_device_key kdf s rnd p2 salt2 = Some k2"
  shows "k1 = k2"
  using assms by (auto simp: derive_device_key_def split: option.splits prod.splits)

lemma argon2id_safe_at_floor:
  "m \<le> DEFAULT_M_KIB \<Longrightarrow> t \<le> DEFAULT_T \<Longrightarrow> p \<le> DEFAULT_P \<Longrightarrow>
     argon2id_safe kdf pass salt m t p = argon2id kdf pass salt DEFAULT_M_KIB DEFAULT_T DEFAULT_P"
  by (simp add: argon2id_safe_def max_def)

lemma kem_roundtrip:
  assumes "mlkem768_keypair k rnd = (pk, sk)" and "kem_pk_ok k pk" and "kem_sk_ok k sk"
    and "kem_encap k r pk = (ss, ct)" and "kem_ct_ok k ct" and "kem_decap k ct sk = ss"
  shows "mlkem768_encapsulate k r pk = Some (ss, ct) \<and> mlkem768_decapsulate k sk ct = Some ss"
  using assms by (simp add: mlkem768_encapsulate_def mlkem768_decapsulate_def)

lemma verify_release_codes:
  "verify_release slh fs pk b s = 0 \<longleftrightarrow>
     (\<exists>k m sg. fs pk = Inr k \<and> fs b = Inr m \<and> fs s = Inr sg \<and> slh_dsa_verify slh k m sg)"
  "verify_release slh fs pk b s = 1 \<longleftrightarrow>
     (\<exists>k m sg. fs pk = Inr k \<and> fs b = Inr m \<and> fs s = Inr sg \<and> \<not> slh_dsa_verify slh k m sg)"
  by (cases "fs pk"; cases "fs b"; cases "fs s"; simp add: verify_release_def verify_real_main_def)+

section \<open>Properties\<close>

text \<open>However small the requested parameters, the derivation runs Argon2id with at least 512 MiB, four
  passes and four lanes, and never with less than was asked.\<close>

theorem kdf_floors:
  "\<exists>m' t' p'. argon2id_safe kdf pass salt m t p = kdf pass salt m' t' p'
     \<and> 524288 \<le> m' \<and> 4 \<le> t' \<and> 4 \<le> p' \<and> m \<le> m' \<and> t \<le> t' \<and> p \<le> p'"
proof -
  have "argon2id_safe kdf pass salt m t p = kdf pass salt (max m DEFAULT_M_KIB) (max t DEFAULT_T) (max p DEFAULT_P)"
    by (simp add: argon2id_safe_def argon2id_def)
  moreover have "524288 \<le> max m DEFAULT_M_KIB" "4 \<le> max t DEFAULT_T" "4 \<le> max p DEFAULT_P"
    by (simp_all add: DEFAULT_M_KIB_def DEFAULT_T_def DEFAULT_P_def max.coboundedI2)
  moreover have "m \<le> max m DEFAULT_M_KIB" "t \<le> max t DEFAULT_T" "p \<le> max p DEFAULT_P"
    by (rule max.cobounded1)+
  ultimately show ?thesis by blast
qed

text \<open>Hashing a stream piece by piece, as the download and the readers do, gives the hash of the whole,
  however it is cut.\<close>

theorem hasher_streaming:
  "hasher_finalize keccak (foldl hasher_update hasher_new (chunks (Suc n) d)) = sha3_256 keccak d"
  by (simp add: hasher_is_sha3 concat_chunks)

text \<open>dropping a locked buffer clears every byte of it but leaves the kernel's locks as they were: the
  pages that \<open>new\<close> locked stay locked, because the vector is empty when its length is tested.\<close>

theorem drop_never_unlocks:
  "case locked_bytes_new None linux v m of
     (m', Inr lb) \<Rightarrow>
       (case locked_bytes_drop lb m' of
          (dead, m'') \<Rightarrow> set (vec_buf dead) \<subseteq> {0} \<and> vec_data dead = []
            \<and> locked_ranges m'' = (if vec_len v = 0 then [] else [(vec_ptr v, vec_len v)]) @ locked_ranges m)
   | (m', Inl e) \<Rightarrow> False"
  by (auto simp: locked_bytes_new_def locked_bytes_drop_def lock_memory_def vec_zeroize_def vec_data_def Let_def)

text \<open>what the signing tool writes with a generated key the verifying tool accepts with exit code 0; and
  the verifier exits with 0 only when the three files are read and the signature verifies.\<close>

theorem release_roundtrip:
  assumes "good_scheme slh" and "slh_dsa_keypair slh rnd = (pk, sk)"
    and "fs key = Inr sk" and "fs artifact = Inr msg"
    and "fs' pubkey = Inr pk" and "fs' artifact = Inr msg"
  shows "case release_sign slh r fs WriteDone old key artifact sig_file of
     (outcome, Some sig) \<Rightarrow> outcome = SignDone \<and> (fs' sig_file = Inr sig \<longrightarrow> verify_release slh fs' pubkey artifact sig_file = 0)
   | (outcome, None) \<Rightarrow> False"
proof -
  obtain sig where s: "slh_dsa_sign slh r sk msg = Some sig" "slh_dsa_verify slh pk msg sig"
    using sign_verify [OF assms(1,2)] by blast
  then show ?thesis using assms(3-6) by (simp add: release_sign_def verify_release_codes)
qed

text \<open>A toy scheme: the signature is the message under the key.\<close>

definition toy_scheme :: scheme where
  "toy_scheme = \<lparr>pk_ok = (\<lambda>k. length k = 1), sk_ok = (\<lambda>k. length k = 1), sig_ok = (\<lambda>s. s \<noteq> []),
     gen = (\<lambda>n. ([of_nat n], [of_nat n])), detached_sign = (\<lambda>r msg k. k @ msg),
     verify_detached = (\<lambda>s msg k. s = k @ msg)\<rparr>"

theorem release_roundtrip_witness:
  "verify_release toy_scheme ((\<lambda>f. Inl NotFound)([1] := Inr [7], [2] := Inr [9, 9], [3] := Inr [7, 9, 9])) [1] [2] [3] = 0"
proof -
  have g: "good_scheme toy_scheme" by (auto simp: good_scheme_def toy_scheme_def)
  have k: "slh_dsa_keypair toy_scheme 7 = ([7], [7])" by (simp add: slh_dsa_keypair_def toy_scheme_def)
  let ?fs = "(\<lambda>f. Inl NotFound)([1] := Inr [7], [2] := Inr [9, 9], [3] := Inr [7, 9, 9]) :: files"
  have r: "release_sign toy_scheme 0 ?fs WriteDone None [1] [2] [3] = (SignDone, Some [7, 9, 9])"
    by (simp add: release_sign_def slh_dsa_sign_def toy_scheme_def)
  from release_roundtrip [OF g k, where fs = ?fs and fs' = ?fs and key = "[1]" and artifact = "[2]"
      and msg = "[9, 9]" and pubkey = "[1]" and r = 0 and old = None and sig_file = "[3]"] r
  show ?thesis by simp
qed

end
