(* ===== verification/AuditLog.thy ===== *)
theory AuditLog
  imports JsonText Crypto
begin

section \<open>\<open>seck-audit\<close>: the hash-chained, signed log\<close>

text \<open>
  \<open>crates/seck-audit/src\<close> and the \<open>seck audit\<close> commands (\<open>crates/seck-cli/src/audit.rs\<close>).  The hash and
  the signatures are those of \<open>Crypto\<close>; the sponge and the scheme under them, the hexadecimal codec and \<open>serde_json\<close>'s
  reading and writing are third-party code and form \<open>audit_env\<close>.  A log file is its
  bytes, absent or present; \<open>open_log\<close> and \<open>append\<close> say how each operation changes it.
\<close>

record audit_env =
  keccak :: "bytes \<Rightarrow> bytes"
  hex_encode :: "bytes \<Rightarrow> ustr"
  hex_decode :: "ustr \<Rightarrow> bytes option"
  mldsa :: scheme
  to_text :: "json \<Rightarrow> ustr"
  from_text :: "ustr \<Rightarrow> json option"

definition to_vec :: "audit_env \<Rightarrow> json \<Rightarrow> bytes" where
  "to_vec env v = utf8_encode (to_text env v)"

subsection \<open>Records\<close>

record audit_record =
  timestamp :: ustr
  event :: ustr
  rec_fields :: "(ustr \<times> ustr) list"
  prev_sha3_256 :: ustr
  this_sha3_256 :: ustr
  ml_dsa_signature_hex :: ustr

definition fields_json :: "(ustr \<times> ustr) list \<Rightarrow> json" where
  "fields_json fs = JObj (map (\<lambda>(k, v). (k, JStr v)) fs)"

definition record_to_json :: "audit_record \<Rightarrow> json" where
  "record_to_json r = jobj
     [(lit ''timestamp'', JStr (timestamp r)), (lit ''event'', JStr (event r)),
      (lit ''fields'', fields_json (rec_fields r)), (lit ''prev_sha3_256'', JStr (prev_sha3_256 r)),
      (lit ''this_sha3_256'', JStr (this_sha3_256 r)),
      (lit ''ml_dsa_signature_hex'', JStr (ml_dsa_signature_hex r))]"

fun pair_str :: "ustr \<times> json \<Rightarrow> (ustr \<times> ustr) option" where
  "pair_str (k, v) = map_option (Pair k) (jas_str v)"

fun fields_from_json :: "json \<Rightarrow> (ustr \<times> ustr) list option" where
  "fields_from_json (JObj m) = map_option obj_of (traverse pair_str m)"
| "fields_from_json _ = None"

definition audit_record_fields :: "ustr list" where
  "audit_record_fields = [lit ''timestamp'', lit ''event'', lit ''fields'', lit ''prev_sha3_256'',
     lit ''this_sha3_256'', lit ''ml_dsa_signature_hex'']"

definition record_from_json :: "json \<Rightarrow> audit_record option" where
  "record_from_json v =
     Option.bind (struct_fields audit_record_fields v) (\<lambda>m.
     Option.bind (get_str m (lit ''timestamp'')) (\<lambda>ts.
     Option.bind (get_str m (lit ''event'')) (\<lambda>ev.
     Option.bind (Option.bind (m (lit ''fields'')) fields_from_json) (\<lambda>fs.
     Option.bind (get_str m (lit ''prev_sha3_256'')) (\<lambda>pv.
     Option.bind (get_str m (lit ''this_sha3_256'')) (\<lambda>th.
     Option.bind (get_str m (lit ''ml_dsa_signature_hex'')) (\<lambda>sg.
     Some \<lparr>timestamp = ts, event = ev, rec_fields = fs, prev_sha3_256 = pv, this_sha3_256 = th,
           ml_dsa_signature_hex = sg\<rparr>)))))))"

definition read_record :: "audit_env \<Rightarrow> ustr \<Rightarrow> audit_record option" where
  "read_record env l = Option.bind (from_text env l) record_from_json"

subsection \<open>The writer\<close>

definition GENESIS :: ustr where
  "GENESIS = replicate 64 48"

record audit_writer =
  tip :: ustr
  sk :: bytes

definition last_tip :: "audit_env \<Rightarrow> ustr \<Rightarrow> ustr" where
  "last_tip env content =
     (case Option.bind (last_opt (lines content)) (read_record env) of
        Some r \<Rightarrow> this_sha3_256 r
      | None \<Rightarrow> GENESIS)"

text \<open>
  \<open>Writer::open\<close> on a file that is absent or has these bytes.  The three system calls that can fail are the creation
  of the directory, the reading of an existing log and the creation of an absent one.
\<close>

record open_io =
  oi_mkdir :: "io_error option"
  oi_read :: "io_error option"
  oi_create :: "io_error option"

definition open_log :: "audit_env \<Rightarrow> open_io \<Rightarrow> bytes \<Rightarrow> bytes option \<Rightarrow> io_error + (audit_writer \<times> bytes)" where
  "open_log env io key file =
     (case oi_mkdir io of
        Some e \<Rightarrow> Inl e
      | None \<Rightarrow>
      case file of
        None \<Rightarrow> (case oi_create io of
                  Some e \<Rightarrow> Inl e
                | None \<Rightarrow> Inr (\<lparr>tip = GENESIS, sk = key\<rparr>, []))
      | Some bs \<Rightarrow>
          (case oi_read io of
             Some e \<Rightarrow> Inl e
           | None \<Rightarrow>
             case utf8_decode bs of
               None \<Rightarrow> Inl InvalidData
             | Some content \<Rightarrow> Inr (\<lparr>tip = last_tip env content, sk = key\<rparr>, bs)))"

lemma open_log_Inr:
  "open_log env io key file = Inr (w, bs) \<Longrightarrow>
     oi_mkdir io = None \<and> (case file of None \<Rightarrow> oi_create io = None | Some b \<Rightarrow> oi_read io = None)"
  by (auto simp: open_log_def split: option.splits)

definition body_json :: "ustr \<Rightarrow> ustr \<Rightarrow> (ustr \<times> ustr) list \<Rightarrow> ustr \<Rightarrow> json" where
  "body_json ts ev fs prev = jobj
     [(lit ''timestamp'', JStr ts), (lit ''event'', JStr ev), (lit ''fields'', fields_json fs),
      (lit ''prev_sha3_256'', JStr prev)]"

text \<open>\<open>now\<close> is the time of the call, \<open>rnd\<close> the randomness of the signature and \<open>io\<close> what happens to the write of the line.
  A secret key that is none makes \<open>ml_dsa_sign\<close> panic.\<close>

datatype append_error = AppendIo io_error | AppendPanic

definition append :: "audit_env \<Rightarrow> ustr \<Rightarrow> nat \<Rightarrow> write_outcome \<Rightarrow> ustr \<Rightarrow> (ustr \<times> ustr) list
    \<Rightarrow> audit_writer \<times> bytes option \<Rightarrow> (audit_writer \<times> bytes option) \<times> (append_error + unit)" where
  "append env now rnd io ev fs st =
     (let (w, file) = st;
          body_bytes = to_vec env (body_json now ev fs (tip w));
          this_hash = hex_encode env (sha3_256 (keccak env) body_bytes)
      in case ml_dsa_sign (mldsa env) rnd (sk w) body_bytes of
           None \<Rightarrow> ((w, file), Inl AppendPanic)
         | Some sig \<Rightarrow>
             (let rec = \<lparr>timestamp = now, event = ev, rec_fields = fs, prev_sha3_256 = tip w,
                    this_sha3_256 = this_hash, ml_dsa_signature_hex = hex_encode env sig\<rparr>;
                  line = to_text env (record_to_json rec) @ [10]
              in case append_file io (utf8_encode line) file of
                   (file, Inl e) \<Rightarrow> ((w, file), Inl (AppendIo e))
                 | (file, Inr _) \<Rightarrow> ((w\<lparr>tip := this_hash\<rparr>, file), Inr ())))"

subsection \<open>The verifier\<close>

datatype verify_error = ChainBreak nat | HashMismatch nat | BadSig nat | VerifyIo io_error | VerifyParse

fun verify_lines :: "audit_env \<Rightarrow> bytes \<Rightarrow> nat \<Rightarrow> ustr \<Rightarrow> ustr \<Rightarrow> ustr list \<Rightarrow> verify_error + ustr" where
  "verify_lines env pk i prev tp [] = Inr tp"
| "verify_lines env pk i prev tp (line # ls) =
     try_bind (ok_or VerifyParse (read_record env line)) (\<lambda>rec.
     if prev_sha3_256 rec \<noteq> prev then Inl (ChainBreak i) else
     let body_bytes = to_vec env (body_json (timestamp rec) (event rec) (rec_fields rec) prev);
         computed = hex_encode env (sha3_256 (keccak env) body_bytes) in
     if computed \<noteq> this_sha3_256 rec then Inl (HashMismatch i) else
     try_bind (ok_or (BadSig i) (hex_decode env (ml_dsa_signature_hex rec))) (\<lambda>sig.
     if \<not> ml_dsa_verify (mldsa env) pk body_bytes sig then Inl (BadSig i) else
     verify_lines env pk (Suc i) (this_sha3_256 rec) (this_sha3_256 rec) ls))"

definition verify_chain :: "audit_env \<Rightarrow> bytes option \<Rightarrow> bytes \<Rightarrow> verify_error + ustr" where
  "verify_chain env file pk =
     try_bind (ok_or (VerifyIo NotFound) file) (\<lambda>bs.
     try_bind (ok_or (VerifyIo InvalidData) (utf8_decode bs)) (\<lambda>content.
     verify_lines env pk 0 GENESIS GENESIS (lines content)))"

section \<open>What the parameters promise\<close>

text \<open>
  The documented behaviour the log relies on: \<open>hex::decode\<close> inverts \<open>hex::encode\<close>, the keys are a pair of a
  signature scheme whose signatures verify, and JSON text is valid, has no control
  character (they are escaped) and reads back as the value it was written from.
\<close>

definition good_env :: "audit_env \<Rightarrow> bytes \<Rightarrow> bytes \<Rightarrow> bool" where
  "good_env env key pk \<longleftrightarrow>
     (\<forall>b. hex_decode env (hex_encode env b) = Some b)
     \<and> good_scheme (mldsa env) \<and> (\<exists>rnd. ml_dsa_keypair (mldsa env) rnd = (pk, key))
     \<and> (\<forall>v. from_text env (to_text env v) = Some v)
     \<and> (\<forall>v. list_all text_char (to_text env v))"

lemma good_env_laws:
  assumes "good_env env key pk"
  shows "hex_decode env (hex_encode env b) = Some b"
    "\<exists>sig. ml_dsa_sign (mldsa env) r key m = Some sig \<and> ml_dsa_verify (mldsa env) pk m sig"
    "from_text env (to_text env v) = Some v" "valid_str (to_text env v)" "plain_line (to_text env v)"
proof -
  have l: "list_all text_char (to_text env v)" using assms by (simp add: good_env_def)
  show "valid_str (to_text env v)" using l by (auto simp: valid_str_def list_all_iff text_char_def)
  show "\<exists>sig. ml_dsa_sign (mldsa env) r key m = Some sig \<and> ml_dsa_verify (mldsa env) pk m sig"
    using assms ml_dsa_sign_verify unfolding good_env_def by blast
  show "plain_line (to_text env v)" using l by (fastforce simp: plain_line_def list_all_iff text_char_def dest: last_in_set)
qed (use assms in \<open>auto simp: good_env_def\<close>)

lemma traverse_pair_str: "traverse pair_str (map (\<lambda>(k, v). (k, JStr v)) fs) = Some fs"
  by (induction fs) auto

lemma map_of_rev_distinct: "distinct (map fst m) \<Longrightarrow> map_of (rev m) = map_of m"
proof (induction m)
  case (Cons p m)
  then have "map_of (rev m) = map_of m" "map_of m (fst p) = None" by (simp_all add: map_of_eq_None_iff)
  then show ?case by (cases p) (auto simp: map_add_def fun_eq_iff split: option.split)
qed simp

text \<open>A \<open>BTreeMap\<close> iterates in key order, so its list is its own normal form.\<close>

lemma obj_of_id: "obj_sorted fs \<Longrightarrow> obj_of fs = fs"
  using obj_sorted_ext [OF obj_of_sorted, of fs fs] by (simp add: obj_sorted_distinct map_of_rev_distinct)

lemma record_round: "obj_sorted (rec_fields r) \<Longrightarrow> record_from_json (record_to_json r) = Some r"
  by (simp add: record_from_json_def record_to_json_def struct_fields_def jobj_def get_str_def
      fields_json_def traverse_pair_str obj_of_id)


section \<open>Appending keeps the log verifiable\<close>

definition record_ok :: "audit_env \<Rightarrow> bytes \<Rightarrow> ustr \<Rightarrow> audit_record \<Rightarrow> bool" where
  "record_ok env pk prev r \<longleftrightarrow>
     prev_sha3_256 r = prev
     \<and> this_sha3_256 r
         = hex_encode env (sha3_256 (keccak env) (to_vec env (body_json (timestamp r) (event r) (rec_fields r) prev)))
     \<and> (\<exists>sig. hex_decode env (ml_dsa_signature_hex r) = Some sig
          \<and> ml_dsa_verify (mldsa env) pk (to_vec env (body_json (timestamp r) (event r) (rec_fields r) prev)) sig)"

text \<open>The chain as a relation: these lines lead from one hash to another.\<close>

inductive chain :: "audit_env \<Rightarrow> bytes \<Rightarrow> ustr \<Rightarrow> ustr list \<Rightarrow> ustr \<Rightarrow> bool" for env pk where
  chain_Nil: "chain env pk prev [] prev"
| chain_Cons: "read_record env l = Some r \<Longrightarrow> record_ok env pk prev r \<Longrightarrow>
     chain env pk (this_sha3_256 r) ls t \<Longrightarrow> chain env pk prev (l # ls) t"

inductive_simps chain_Nil_iff [simp]: "chain env pk prev [] t"
inductive_simps chain_Cons_iff: "chain env pk prev (l # ls) t"

lemma verify_lines_chain: "verify_lines env pk i prev prev ls = Inr t \<longleftrightarrow> chain env pk prev ls t"
proof (induction ls arbitrary: i prev)
  case Nil
  then show ?case by auto
next
  case (Cons l ls)
  show ?case
  proof (cases "read_record env l")
    case (Some r)
    then show ?thesis using Cons
      by (cases "hex_decode env (ml_dsa_signature_hex r)")
        (auto simp: chain_Cons_iff record_ok_def Let_def)
  qed (simp add: chain_Cons_iff)
qed

lemma chain_append: "chain env pk prev ls m \<Longrightarrow> chain env pk m ks t \<Longrightarrow> chain env pk prev (ls @ ks) t"
  by (induction rule: chain.induct) (auto intro: chain_Cons)

lemma chain_snoc_iff: "chain env pk prev (ls @ [l]) t \<longleftrightarrow>
    (\<exists>r m. chain env pk prev ls m \<and> read_record env l = Some r \<and> record_ok env pk m r \<and> t = this_sha3_256 r)"
  by (induction ls arbitrary: prev) (auto simp: chain_Cons_iff)

text \<open>The state of writer and file that every operation keeps.\<close>

definition log_inv :: "audit_env \<Rightarrow> bytes \<Rightarrow> bytes \<Rightarrow> audit_writer \<times> bytes option \<Rightarrow> bool" where
  "log_inv env key pk st \<longleftrightarrow>
     sk (fst st) = key \<and>
     (\<exists>ls. snd st = Some (utf8_encode (unlines ls)) \<and> valid_str (unlines ls) \<and> list_all plain_line ls
        \<and> chain env pk GENESIS ls (tip (fst st)))"

lemma log_inv_verifies: "log_inv env key pk (w, file) \<Longrightarrow> verify_chain env file pk = Inr (tip w)"
  by (auto simp: log_inv_def verify_chain_def utf8_decode_encode lines_unlines verify_lines_chain)

text \<open>An append that reaches the file adds one line, whose record continues the writer's tip.\<close>

lemma append_line:
  assumes good: "good_env env key pk" and "sk w = key" and fs: "obj_sorted fs"
  obtains l r where "append env now rnd WriteDone ev fs (w, Some bs)
      = ((w\<lparr>tip := this_sha3_256 r\<rparr>, Some (bs @ utf8_encode (l @ [10]))), Inr ())"
    and "read_record env l = Some r" and "record_ok env pk (tip w) r" and "plain_line l" and "valid_str l"
proof -
  define body where "body = to_vec env (body_json now ev fs (tip w))"
  obtain sig where sig: "ml_dsa_sign (mldsa env) rnd key body = Some sig" "ml_dsa_verify (mldsa env) pk body sig"
    using good_env_laws(2) [OF good] by blast
  define r where "r = \<lparr>timestamp = now, event = ev, rec_fields = fs, prev_sha3_256 = tip w,
     this_sha3_256 = hex_encode env (sha3_256 (keccak env) body), ml_dsa_signature_hex = hex_encode env sig\<rparr>"
  define l where "l = to_text env (record_to_json r)"
  show ?thesis
  proof (rule that [of r l])
    show "append env now rnd WriteDone ev fs (w, Some bs)
        = ((w\<lparr>tip := this_sha3_256 r\<rparr>, Some (bs @ utf8_encode (l @ [10]))), Inr ())"
      using sig(1) by (simp add: append_def Let_def r_def l_def body_def assms(2))
    show "read_record env l = Some r"
      using record_round [of r] fs by (simp add: read_record_def l_def good_env_laws(3) [OF good] r_def)
    show "record_ok env pk (tip w) r"
      using sig(2) by (auto simp: record_ok_def r_def body_def good_env_laws(1) [OF good])
  qed (simp_all add: l_def good_env_laws(4,5) [OF good])
qed

lemma append_inv:
  assumes good: "good_env env key pk" and inv: "log_inv env key pk st" and fs: "obj_sorted fs"
    and whole: "not_torn io"
  shows "log_inv env key pk (fst (append env now rnd io ev fs st))"
proof -
  obtain w f where st: "st = (w, f)" by force
  obtain ls where ls: "sk w = key" "f = Some (utf8_encode (unlines ls))" "valid_str (unlines ls)"
    "list_all plain_line ls" "chain env pk GENESIS ls (tip w)"
    using inv by (auto simp: log_inv_def st)
  show ?thesis
  proof (cases io)
    case WriteDone
    obtain l r where l: "append env now rnd WriteDone ev fs (w, Some (utf8_encode (unlines ls)))
        = ((w\<lparr>tip := this_sha3_256 r\<rparr>, Some (utf8_encode (unlines ls) @ utf8_encode (l @ [10]))), Inr ())"
      "read_record env l = Some r" "record_ok env pk (tip w) r" "plain_line l" "valid_str l"
      using append_line [OF good ls(1) fs] .
    moreover have "chain env pk GENESIS (ls @ [l]) (this_sha3_256 r)"
      using ls(5) l(2,3) chain_snoc_iff by blast
    ultimately show ?thesis using ls WriteDone unfolding log_inv_def st
      by (intro conjI exI [of _ "ls @ [l]"]) (simp_all add: is_scalar_def)
  next
    case (OpenFails e)
    then show ?thesis using inv by (simp add: append_def st Let_def split: option.split)
  qed (use whole in simp)
qed

lemma open_inv:
  assumes "good_env env key pk" and "log_inv env key pk (w, file)" and "oi_mkdir io = None" and "oi_read io = None"
  shows "open_log env io key file = Inr (\<lparr>tip = tip w, sk = key\<rparr>, the file)"
proof -
  obtain ls where ls: "file = Some (utf8_encode (unlines ls))" "valid_str (unlines ls)"
    "list_all plain_line ls" "chain env pk GENESIS ls (tip w)"
    using assms(2) by (auto simp: log_inv_def)
  have "last_tip env (unlines ls) = tip w"
    unfolding last_tip_def lines_unlines [OF ls(3)]
    using ls(4) by (cases ls rule: rev_cases) (auto simp: chain_snoc_iff last_opt_def)
  then show ?thesis by (simp add: open_log_def ls(1) utf8_decode_encode ls(2) assms(3,4))
qed

lemma open_fresh: "log_inv env key pk (\<lparr>tip = GENESIS, sk = key\<rparr>, Some [])"
  unfolding log_inv_def by (rule conjI, simp, rule exI [of _ "[]"]) simp

text \<open>A run of a machine's log: restarts of the process and appends, each of which may fail.\<close>

datatype log_event = Restart open_io | Event ustr nat write_outcome ustr "(ustr \<times> ustr) list"

fun audit_step :: "audit_env \<Rightarrow> bytes \<Rightarrow> audit_writer \<times> bytes option \<Rightarrow> log_event \<Rightarrow> audit_writer \<times> bytes option" where
  "audit_step env key st (Restart io) =
     (case open_log env io key (snd st) of Inl e \<Rightarrow> st | Inr (w, bs) \<Rightarrow> (w, Some bs))"
| "audit_step env key st (Event now rnd io ev fs) = fst (append env now rnd io ev (obj_of fs) st)"

text \<open>The events in which no write stops in the middle of a line.\<close>

fun whole_write :: "log_event \<Rightarrow> bool" where
  "whole_write (Restart io) \<longleftrightarrow> True"
| "whole_write (Event now rnd io ev fs) \<longleftrightarrow> not_torn io"

lemma audit_step_inv:
  assumes good: "good_env env key pk" and inv: "log_inv env key pk st" and whole: "whole_write op"
  shows "log_inv env key pk (audit_step env key st op)"
proof (cases op)
  case (Restart io)
  obtain w f where st: "st = (w, f)" by force
  have "sk w = key" using inv by (auto simp: st log_inv_def)
  obtain bs where f: "f = Some bs" using inv by (auto simp: st log_inv_def)
  have "audit_step env key st (Restart io) = st"
  proof (cases "open_log env io key f")
    case (Inr p)
    then have "oi_mkdir io = None" "oi_read io = None" using open_log_Inr [of env io key f "fst p" "snd p"] f by auto
    then show ?thesis using open_inv [OF good, of w f io] inv \<open>sk w = key\<close> f by (simp add: st)
  qed (simp add: st)
  then show ?thesis using Restart inv by simp
next
  case (Event now rnd io ev fs)
  then show ?thesis using append_inv [OF good inv obj_of_sorted] whole by simp
qed

interpretation history: guarded_stepper "audit_step env key" "\<lambda>st. good_env env key pk \<longrightarrow> log_inv env key pk st" whole_write
  for env key pk
  by unfold_locales (simp add: audit_step_inv)

lemma audit_run_inv: "good_env env key pk \<Longrightarrow> list_all whole_write ops \<Longrightarrow> log_inv env key pk st \<Longrightarrow>
    log_inv env key pk (run_steps (audit_step env key) st ops)"
  using history.run_inv [of ops env key pk st] by simp

text \<open>
  \<open>Writer::open\<close> reads the tip once and takes no lock.  Two processes that open the same log and then
  each append a record leave a log that no longer verifies, although nobody tampered with it.
\<close>

lemma verify_lines_break:
  "chain env pk prev ls t \<Longrightarrow> read_record env l = Some r \<Longrightarrow> prev_sha3_256 r \<noteq> t \<Longrightarrow>
     verify_lines env pk i prev prev (ls @ l # ks) = Inl (ChainBreak (i + length ls))"
  by (induction arbitrary: i rule: chain.induct) (auto simp: record_ok_def Let_def)

lemma two_writers_break_the_chain:
  assumes good: "good_env env key pk" and inv: "log_inv env key pk (w, file)"
    and open1: "open_log env io1 key file = Inr (w1, bs)" and open2: "open_log env io2 key file = Inr (w2, bs)"
    and fs: "obj_sorted fs1" "obj_sorted fs2"
    and first: "append env t1 n1 WriteDone e1 fs1 (w1, Some bs) = ((w1', file1), Inr ())" and "tip w1' \<noteq> tip w"
  shows "\<exists>n. verify_chain env (snd (fst (append env t2 n2 WriteDone e2 fs2 (w2, file1)))) pk = Inl (ChainBreak n)"
proof -
  obtain ls where ls: "file = Some (utf8_encode (unlines ls))" "valid_str (unlines ls)"
    "list_all plain_line ls" "chain env pk GENESIS ls (tip w)"
    using inv by (auto simp: log_inv_def)
  have w: "w1 = \<lparr>tip = tip w, sk = key\<rparr>" "w2 = w1" "bs = utf8_encode (unlines ls)"
    using open_inv [OF good inv, of io1] open_inv [OF good inv, of io2] open_log_Inr [OF open1] open_log_Inr [OF open2]
      open1 open2 ls(1) by simp_all
  have k: "sk w1 = key" "tip w1 = tip w" by (simp_all add: w)
  obtain l r where l: "append env t1 n1 WriteDone e1 fs1 (w1, Some bs)
      = ((w1\<lparr>tip := this_sha3_256 r\<rparr>, Some (bs @ utf8_encode (l @ [10]))), Inr ())"
    "read_record env l = Some r" "record_ok env pk (tip w1) r" "plain_line l" "valid_str l"
    using append_line [OF good k(1) fs(1)] .
  obtain l' r' where l': "append env t2 n2 WriteDone e2 fs2 (w1, Some (bs @ utf8_encode (l @ [10])))
      = ((w1\<lparr>tip := this_sha3_256 r'\<rparr>, Some ((bs @ utf8_encode (l @ [10])) @ utf8_encode (l' @ [10]))), Inr ())"
    "read_record env l' = Some r'" "record_ok env pk (tip w1) r'" "plain_line l'" "valid_str l'"
    using append_line [OF good k(1) fs(2)] .
  have both: "snd (fst (append env t2 n2 WriteDone e2 fs2 (w2, file1))) = Some (utf8_encode (unlines (ls @ [l, l'])))"
    using first l(1) l'(1) by (auto simp: w(2) w(3))
  have "chain env pk GENESIS (ls @ [l]) (this_sha3_256 r)"
    using ls(4) l(2,3) chain_snoc_iff k(2) by metis
  moreover have "prev_sha3_256 r' \<noteq> this_sha3_256 r"
    using l'(3) l(1) first assms(8) k(2) by (auto simp: record_ok_def)
  ultimately have "verify_lines env pk 0 GENESIS GENESIS ((ls @ [l]) @ l' # []) = Inl (ChainBreak (0 + length (ls @ [l])))"
    using l'(2) verify_lines_break by blast
  moreover have "lines (unlines (ls @ [l, l'])) = ls @ [l, l']"
    by (rule lines_unlines) (use ls(3) l(4) l'(4) in simp)
  moreover have "valid_str (unlines (ls @ [l, l']))"
    using ls(2) l(5) l'(5) by (simp add: is_scalar_def)
  ultimately show ?thesis unfolding both verify_chain_def
    by (simp del: unlines_simps add: utf8_decode_encode)
qed


text \<open>
  A last line that cannot be read, as after a crash in the middle of a write, is not reported: the writer goes on
  from \<open>GENESIS\<close>, on the same line.
\<close>

lemma unreadable_tail_resets:
  assumes "utf8_decode bs = Some content" and "lines content = ls @ [l]" and "read_record env l = None"
    and "oi_mkdir io = None" and "oi_read io = None"
  shows "open_log env io key (Some bs) = Inr (\<lparr>tip = GENESIS, sk = key\<rparr>, bs)"
  using assms by (simp add: open_log_def last_tip_def last_opt_def)

text \<open>
  An append whose write stops in the middle (a full disk) reports the error, keeps the writer's tip, and leaves a part of
  the line in the log.  From then on the log does not verify, and the next record goes on the same line, where it
  is lost: nothing removes the part or ends its line.
\<close>

lemma torn_append:
  assumes good: "good_env env key pk" and key: "sk w = key"
    and app: "append env now rnd (WriteStops n e) ev fs (w, Some bs) = ((w', f), r)"
  shows "w' = w \<and> r = Inl (AppendIo e) \<and> (\<exists>line p. f = Some (bs @ p) \<and> strict_prefix p (utf8_encode (line @ [10])))"
proof -
  obtain line where "append env now rnd (WriteStops n e) ev fs (w, Some bs)
      = ((w, Some (bs @ take n (butlast (utf8_encode (line @ [10]))))), Inl (AppendIo e))"
    using good_env_laws(2) [OF good, of rnd "to_vec env (body_json now ev fs (tip w))"] key
    by (auto simp: append_def Let_def simp del: utf8_encode_simps(3))
  moreover have "utf8_encode (line @ [10]) \<noteq> []" by simp
  ultimately show ?thesis using take_butlast_strict [of "utf8_encode (line @ [10])" n] app by (metis Pair_inject)
qed

lemma verify_lines_unreadable:
  "chain env pk prev ls t \<Longrightarrow> read_record env l = None \<Longrightarrow> verify_lines env pk i prev prev (ls @ l # ks) = Inl VerifyParse"
  by (induction arbitrary: i rule: chain.induct) (auto simp: record_ok_def Let_def)

lemma torn_log_refused:
  assumes inv: "log_inv env key pk (w, Some bs)" and x: "valid_str x" "plain_line x" "x \<noteq> []" "read_record env x = None"
  shows "verify_chain env (Some (bs @ utf8_encode x)) pk = Inl VerifyParse"
    and "verify_chain env (Some (bs @ utf8_encode (x @ [10]))) pk = Inl VerifyParse"
proof -
  obtain ls where ls: "bs = utf8_encode (unlines ls)" "valid_str (unlines ls)" "list_all plain_line ls"
    "chain env pk GENESIS ls (tip w)"
    using inv by (auto simp: log_inv_def)
  have l: "lines (unlines ls @ x) = ls @ [x]" "lines (unlines ls @ x @ [10]) = ls @ [x]"
    using lines_unlines_tail [of ls x] lines_unlines [of "ls @ [x]"] ls(3) x by (simp_all add: plain_line_def)
  have v: "valid_str (unlines ls @ x)" "valid_str (unlines ls @ x @ [10])" using ls(2) x by (simp_all add: is_scalar_def)
  show "verify_chain env (Some (bs @ utf8_encode x)) pk = Inl VerifyParse"
    "verify_chain env (Some (bs @ utf8_encode (x @ [10]))) pk = Inl VerifyParse"
    using verify_lines_unreadable [OF ls(4) x(4)] l v unfolding verify_chain_def ls(1) utf8_encode_simps(3) [symmetric]
    by (simp_all add: utf8_decode_encode del: utf8_encode_simps(2,3))
qed

section \<open>Tampering\<close>

text \<open>What a record signs.\<close>

definition claims :: "audit_record \<Rightarrow> ustr \<times> ustr \<times> (ustr \<times> ustr) list \<times> ustr" where
  "claims r = (timestamp r, event r, rec_fields r, prev_sha3_256 r)"

fun records_of :: "audit_env \<Rightarrow> ustr list \<Rightarrow> audit_record list" where
  "records_of env ls = List.map_filter (read_record env) ls"

text \<open>The bytes a record's hash and signature are taken of, and that hash.\<close>

definition signed_body :: "audit_env \<Rightarrow> audit_record \<Rightarrow> bytes" where
  "signed_body env r = to_vec env (body_json (timestamp r) (event r) (rec_fields r) (prev_sha3_256 r))"

definition body_hash :: "audit_env \<Rightarrow> audit_record \<Rightarrow> bytes" where
  "body_hash env r = sha3_256 (keccak env) (signed_body env r)"

text \<open>Two given records whose bodies are different and have one hash, and a given record whose body has the hash
  that every log begins with: what somebody who changes a log without changing its tip has to produce.\<close>

definition collides :: "audit_env \<Rightarrow> audit_record \<Rightarrow> audit_record \<Rightarrow> bool" where
  "collides env r r' \<longleftrightarrow> signed_body env r \<noteq> signed_body env r' \<and> body_hash env r = body_hash env r'"

definition hashes_to_genesis :: "audit_env \<Rightarrow> audit_record \<Rightarrow> bool" where
  "hashes_to_genesis env r \<longleftrightarrow> hex_encode env (body_hash env r) = GENESIS"

lemma inj_fields_json: "fields_json a = fields_json b \<Longrightarrow> a = b"
proof (induction a arbitrary: b)
  case Nil
  then show ?case by (cases b) (auto simp: fields_json_def)
next
  case (Cons p a)
  then show ?case by (cases p; cases b) (auto simp: fields_json_def)
qed

lemma body_json_inject:
  "body_json ts ev fs pv = body_json ts' ev' fs' pv' \<Longrightarrow> ts = ts' \<and> ev = ev' \<and> fs = fs' \<and> pv = pv'"
proof -
  assume e: "body_json ts ev fs pv = body_json ts' ev' fs' pv'"
  have "jget k (body_json ts ev fs pv) = jget k (body_json ts' ev' fs' pv')" for k by (simp add: e)
  from this [of "lit ''timestamp''"] this [of "lit ''event''"] this [of "lit ''fields''"] this [of "lit ''prev_sha3_256''"]
  show ?thesis by (simp add: body_json_def inj_fields_json)
qed

lemma to_vec_inject: "good_env env key pk \<Longrightarrow> to_vec env v = to_vec env v' \<Longrightarrow> v = v'"
proof -
  assume g: "good_env env key pk" and e: "to_vec env v = to_vec env v'"
  then have "to_text env v = to_text env v'"
    using good_env_laws(4) [OF g] unfolding to_vec_def by (metis utf8_decode_encode option.inject)
  then show ?thesis using good_env_laws(3) [OF g] by (metis option.inject)
qed

lemma record_ok_this:
  "record_ok env pk m r \<Longrightarrow> prev_sha3_256 r = m \<and> this_sha3_256 r = hex_encode env (body_hash env r)"
  by (auto simp: record_ok_def body_hash_def signed_body_def)

lemma record_ok_inject:
  assumes "good_env env key pk" and "record_ok env p m r" and "record_ok env p' m' r'"
    and "this_sha3_256 r = this_sha3_256 r'"
  shows "claims r = claims r' \<or> collides env r r'"
proof -
  have "hex_encode env (body_hash env r) = hex_encode env (body_hash env r')"
    using assms(2-4) by (simp add: record_ok_this)
  then have "body_hash env r = body_hash env r'" using good_env_laws(1) [OF assms(1)] by (metis option.inject)
  moreover have "claims r = claims r'" if "signed_body env r = signed_body env r'"
    using to_vec_inject [OF assms(1) that [unfolded signed_body_def]] by (simp add: claims_def body_json_inject)
  ultimately show ?thesis by (auto simp: collides_def)
qed

text \<open>Two logs that verify with the same tip record the same events, or hold a collision, or a preimage of the
  genesis value.\<close>

lemma chain_unique:
  assumes good: "good_env env key pk"
    and "chain env p GENESIS ls t" and "chain env p' GENESIS ls' t"
  shows "map claims (records_of env ls) = map claims (records_of env ls')
    \<or> (\<exists>r \<in> set (records_of env ls). \<exists>r' \<in> set (records_of env ls'). collides env r r')
    \<or> (\<exists>r \<in> set (records_of env ls) \<union> set (records_of env ls'). hashes_to_genesis env r)"
  using assms(2,3)
proof (induction ls arbitrary: ls' t rule: rev_induct)
  case Nil
  then have "t = GENESIS" by simp
  then show ?case using Nil.prems(2)
    by (cases ls' rule: rev_cases)
      (auto simp: chain_snoc_iff map_filter_def hashes_to_genesis_def dest!: record_ok_this)
next
  case (snoc l ls)
  then obtain r m where r: "chain env p GENESIS ls m" "read_record env l = Some r" "record_ok env p m r"
    "t = this_sha3_256 r" by (auto simp: chain_snoc_iff)
  show ?case
  proof (cases ls' rule: rev_cases)
    case Nil
    then have "hashes_to_genesis env r"
      using snoc.prems(2) r(4) record_ok_this [OF r(3)] by (simp add: hashes_to_genesis_def)
    then show ?thesis using r(2) by (auto simp: map_filter_def)
  next
    case (snoc ks k)
    then obtain r' m' where r': "chain env p' GENESIS ks m'" "read_record env k = Some r'" "record_ok env p' m' r'"
      "t = this_sha3_256 r'" using \<open>chain env p' GENESIS ls' t\<close> by (auto simp: chain_snoc_iff)
    have sub: "records_of env (ls @ [l]) = records_of env ls @ [r]" "records_of env ls' = records_of env ks @ [r']"
      using r(2) r'(2) by (simp_all add: snoc map_filter_def)
    show ?thesis
    proof (cases "collides env r r'")
      case False
      then have c: "claims r = claims r'" using record_ok_inject [OF good r(3) r'(3)] r(4) r'(4) by auto
      then have "m = m'" using r(3) r'(3) by (simp add: record_ok_def claims_def)
      then show ?thesis using snoc.IH [OF r(1), of ks] r'(1) c unfolding sub by auto
    qed (use sub in auto)
  qed
qed

section \<open>The commands\<close>

text \<open>
  \<open>seck audit init|verify|tip\<close>.  The machine's state is the three key files and the log of each day;
  \<open>init_io\<close> gives the outcome of each effect of \<open>init\<close>: the random salt, writing it, its permissions,
  showing the prompt, reading the passphrase, writing the two keys and their permissions.
\<close>

record audit_disk =
  salt_bin :: "bytes option"
  device_pk :: "bytes option"
  device_sk :: "bytes option"
  day_log :: "ustr \<Rightarrow> bytes option"

record init_io =
  io_salt :: "io_error + bytes"
  io_write_salt :: write_outcome
  io_perm_salt :: "io_error option"
  io_flush :: "io_error option"
  io_pass :: "io_error + ustr"
  io_write_pk :: write_outcome
  io_write_sk :: write_outcome
  io_perm_keys :: "io_error option"

datatype cli_audit_error = AlreadyInitialized | InitIo io_error | EmptyPassphrase | InitPanic | NoPublicKey | NoLog ustr
  | VerifyFailed verify_error | TipIo io_error

definition audit_init :: "kdf \<Rightarrow> nat \<Rightarrow> audit_env \<Rightarrow> init_io \<Rightarrow> audit_disk
    \<Rightarrow> audit_disk \<times> (cli_audit_error + ustr)" where
  "audit_init kdf rnd env io d =
     (if salt_bin d \<noteq> None then (d, Inl AlreadyInitialized)
      else
        case io_salt io of
          Inl e \<Rightarrow> (d, Inl (InitIo e))
        | Inr salt \<Rightarrow>
        case fs_write_file (io_write_salt io) salt (salt_bin d) of
          (f, Inl e) \<Rightarrow> (d\<lparr>salt_bin := f\<rparr>, Inl (InitIo e))
        | (f, Inr _) \<Rightarrow>
        let d = d\<lparr>salt_bin := f\<rparr> in
        case io_perm_salt io of
          Some e \<Rightarrow> (d, Inl (InitIo e))
        | None \<Rightarrow>
        case io_flush io of
          Some e \<Rightarrow> (d, Inl (InitIo e))
        | None \<Rightarrow>
        case io_pass io of
          Inl e \<Rightarrow> (d, Inl (InitIo e))
        | Inr pass \<Rightarrow>
        if pass = [] then (d, Inl EmptyPassphrase)
        else
          case derive_device_key kdf (mldsa env) rnd (utf8_encode pass) salt of
            None \<Rightarrow> (d, Inl InitPanic)
          | Some key \<Rightarrow>
          case fs_write_file (io_write_pk io) (dk_public key) (device_pk d) of
            (f, Inl e) \<Rightarrow> (d\<lparr>device_pk := f\<rparr>, Inl (InitIo e))
          | (f, Inr _) \<Rightarrow>
          let d = d\<lparr>device_pk := f\<rparr> in
          case fs_write_file (io_write_sk io) (dk_secret key) (device_sk d) of
            (f, Inl e) \<Rightarrow> (d\<lparr>device_sk := f\<rparr>, Inl (InitIo e))
          | (f, Inr _) \<Rightarrow>
          let d = d\<lparr>device_sk := f\<rparr> in
          case io_perm_keys io of
            Some e \<Rightarrow> (d, Inl (InitIo e))
          | None \<Rightarrow> (d, Inr (hex_encode env (sha3_256 (keccak env) (dk_public key)))))"

definition audit_verify :: "audit_env \<Rightarrow> ustr \<Rightarrow> ustr option \<Rightarrow> audit_disk \<Rightarrow> cli_audit_error + ustr" where
  "audit_verify env today day d =
     try_bind (ok_or NoPublicKey (device_pk d)) (\<lambda>pk.
     let day = (case day of Some x \<Rightarrow> x | None \<Rightarrow> today) in
     if day_log d day = None then Inl (NoLog day)
     else map_err VerifyFailed (verify_chain env (day_log d day) pk))"

definition audit_tip :: "audit_env \<Rightarrow> ustr \<Rightarrow> audit_disk \<Rightarrow> cli_audit_error + ustr" where
  "audit_tip env today d =
     (case day_log d today of
        None \<Rightarrow> Inr (lit ''(no log for today)'')
      | Some bs \<Rightarrow>
          try_bind (ok_or (TipIo InvalidData) (utf8_decode bs)) (\<lambda>content. Inr (last_tip env content)))"

subsection \<open>Where the files are, and the command\<close>

text \<open>
  On Unix the directories are those of the XDG library: its base directories, and for a relative name the directory
  it finds or creates.  On Windows they are below \<open>APPDATA\<close>.  Every failure is an \<open>expect\<close>: \<open>None\<close>.
\<close>

record dirs_io =
  di_base :: bool
  di_data_directory :: "ustr \<Rightarrow> ustr option"
  di_appdata :: "ustr option"
  di_mkdir :: "ustr \<Rightarrow> io_error option"

definition data_dirs_unix :: "dirs_io \<Rightarrow> (ustr \<times> ustr) option" where
  "data_dirs_unix io =
     (if \<not> di_base io then None
      else Option.bind (di_data_directory io (lit ''seck/audit'')) (\<lambda>audit_dir.
           Option.bind (di_data_directory io (lit ''seck/keys'')) (\<lambda>keys_dir. Some (audit_dir, keys_dir))))"

definition data_dirs_windows :: "dirs_io \<Rightarrow> (ustr \<times> ustr) option" where
  "data_dirs_windows io =
     (let base = (case map_option (\<lambda>p. win_join p (lit ''seck'')) (di_appdata io) of
                    Some b \<Rightarrow> b
                  | None \<Rightarrow> lit ''C:'' @ [92] @ lit ''Temp'' @ [92] @ lit ''seck'');
          audit_dir = win_join base (lit ''audit'');
          keys_dir = win_join base (lit ''keys'')
      in if di_mkdir io audit_dir \<noteq> None then None
         else if di_mkdir io keys_dir \<noteq> None then None
         else Some (audit_dir, keys_dir))"

datatype audit_op = Init | Verify "ustr option" | Tip

datatype audit_run_error = DirsPanic | AuditFailed cli_audit_error

definition audit_run :: "kdf \<Rightarrow> nat \<Rightarrow> audit_env \<Rightarrow> init_io \<Rightarrow> ustr \<Rightarrow> (ustr \<times> ustr) option \<Rightarrow> audit_op
    \<Rightarrow> audit_disk \<Rightarrow> audit_disk \<times> (audit_run_error + ustr list)" where
  "audit_run kdf rnd env io today dirs op d =
     (case dirs of
        None \<Rightarrow> (d, Inl DirsPanic)
      | Some (audit_dir, keys_dir) \<Rightarrow>
          (case op of
             Init \<Rightarrow>
               (case audit_init kdf rnd env io d of
                  (d, Inl e) \<Rightarrow> (d, Inl (AuditFailed e))
                | (d, Inr fingerprint) \<Rightarrow>
                    (d, Inr [lit ''Choose an audit-log passphrase (not echoed): '' @ lit ''audit dir: '' @ audit_dir, lit ''public key SHA3-256: '' @ fingerprint]))
           | Verify day \<Rightarrow>
               (d, map_err AuditFailed (try_bind (audit_verify env today day d) (\<lambda>tip.
                     Inr [lit ''OK '' @ [0x2014] @ lit '' chain tip SHA3-256: '' @ tip])))
           | Tip \<Rightarrow> (d, map_err AuditFailed (try_bind (audit_tip env today d) (\<lambda>tip. Inr [tip])))))"

text \<open>Only \<open>init\<close> changes the machine, and it never touches a log.\<close>

lemma audit_run_state:
  "op \<noteq> Init \<Longrightarrow> fst (audit_run kdf rnd env io today dirs op d) = d"
  "day_log (fst (audit_run kdf rnd env io today dirs op d)) = day_log d"
  by (auto simp: audit_run_def audit_init_def Let_def split: audit_op.splits option.splits prod.splits sum.splits if_splits)

section \<open>Properties\<close>

text \<open>C15: from a fresh log, any sequence of appended events, appends and restarts that fail, and restarts of the
  process leaves a file, as long as no write stops in the middle of a line, that the verifier accepts, with the writer's tip as the result.\<close>

theorem audit_log_verifies:
  assumes "good_env env key pk" and "list_all whole_write ops"
  shows "case run_steps (audit_step env key) (\<lparr>tip = GENESIS, sk = key\<rparr>, Some []) ops of
           (w, log) \<Rightarrow> verify_chain env log pk = Inr (tip w)"
proof -
  obtain w log where r: "run_steps (audit_step env key) (\<lparr>tip = GENESIS, sk = key\<rparr>, Some []) ops = (w, log)"
    by force
  have "log_inv env key pk (w, log)"
    using audit_run_inv [OF assms open_fresh] by (simp add: r)
  then show ?thesis by (simp add: r log_inv_verifies)
qed

definition sample_env :: audit_env where
  "sample_env = \<lparr>keccak = (\<lambda>b. b), hex_encode = (\<lambda>b. 120 # map unat b),
     hex_decode = (\<lambda>t. case t of [] \<Rightarrow> None | c # s \<Rightarrow> Some (map of_nat s)),
     mldsa = toy_scheme,
     to_text = json_text, from_text = json_of_text\<rparr>"

lemma sample_env_good: "good_env sample_env [k] [k]"
proof -
  have "good_scheme toy_scheme" by (auto simp: good_scheme_def toy_scheme_def)
  moreover have "ml_dsa_keypair toy_scheme (unat k) = ([k], [k])" by (simp add: ml_dsa_keypair_def toy_scheme_def)
  ultimately show ?thesis by (auto simp: good_env_def sample_env_def json_of_text json_text_chars o_def)
qed

definition sample_ops :: "log_event list" where
  "sample_ops = [Event [48] 1 WriteDone (lit ''start'') [], Restart \<lparr>oi_mkdir = None, oi_read = None, oi_create = None\<rparr>,
     Event [49] 2 (OpenFails NotFound) (lit ''lost'') [],
     Restart \<lparr>oi_mkdir = None, oi_read = Some (OsError 5), oi_create = None\<rparr>,
     Event [50] 3 WriteDone (lit ''stop'') [(lit ''k'', lit ''v'')]]"

theorem audit_log_verifies_witness:
  "list_all whole_write sample_ops \<and> good_env sample_env [7] [7]
   \<and> (case run_steps (audit_step sample_env [7]) (\<lparr>tip = GENESIS, sk = [7]\<rparr>, Some []) sample_ops of
        (w, log) \<Rightarrow> verify_chain sample_env log [7] = Inr (tip w))"
proof -
  have w: "list_all whole_write sample_ops" by (simp add: sample_ops_def)
  show ?thesis by (intro conjI w sample_env_good, rule audit_log_verifies, rule sample_env_good, rule w)
qed

text \<open>C16: two log files that verify with the same tip, under whatever keys, record the same events with the same
  times, fields and links, or the two files themselves show a break of SHA3-256: a record of the one and a record of the other whose
  signed bodies differ and have the same hash, or a record of one of them whose body hashes to the genesis
  value.  Nothing is assumed of the hash.\<close>

theorem audit_tamper_evident:
  assumes "good_env env key pk" and "verify_chain env log p = Inr t" and "verify_chain env log' p' = Inr t"
  shows "\<exists>bs bs' s s'. log = Some bs \<and> log' = Some bs' \<and> utf8_decode bs = Some s \<and> utf8_decode bs' = Some s'
    \<and> (map claims (records_of env (lines s)) = map claims (records_of env (lines s'))
       \<or> (\<exists>r \<in> set (records_of env (lines s)). \<exists>r' \<in> set (records_of env (lines s')). collides env r r')
       \<or> (\<exists>r \<in> set (records_of env (lines s)) \<union> set (records_of env (lines s')). hashes_to_genesis env r))"
proof -
  obtain bs s where l: "log = Some bs" "utf8_decode bs = Some s" "verify_lines env p 0 GENESIS GENESIS (lines s) = Inr t"
    using assms(2) by (auto simp: verify_chain_def ok_or_Inr_iff)
  obtain bs' s' where l': "log' = Some bs'" "utf8_decode bs' = Some s'"
    "verify_lines env p' 0 GENESIS GENESIS (lines s') = Inr t"
    using assms(3) by (auto simp: verify_chain_def ok_or_Inr_iff)
  show ?thesis
    using chain_unique [OF assms(1) l(3) [unfolded verify_lines_chain] l'(3) [unfolded verify_lines_chain]]
      l(1,2) l'(1,2) by simp
qed

text \<open>A log of one record each, under a hash that is the same for every input: both verify with one tip, and they
  hold a collision.\<close>

definition weak_env :: audit_env where
  "weak_env = sample_env\<lparr>keccak := (\<lambda>b. [5])\<rparr>"

definition one_log :: "ustr \<Rightarrow> audit_writer \<times> bytes option" where
  "one_log ev = audit_step weak_env [7] (\<lparr>tip = GENESIS, sk = [7]\<rparr>, Some []) (Event [48] 1 WriteDone ev [])"

lemma weak_env_good: "good_env weak_env [k] [k]"
  using sample_env_good [of k] by (simp add: good_env_def weak_env_def)

lemma weak_hash: "hex_encode weak_env (sha3_256 (keccak weak_env) b) = [120, 5]"
  by (simp add: weak_env_def sample_env_def sha3_256_def hasher_update_def hasher_new_def hasher_finalize_def)

lemma one_log_line:
  obtains r where "event r = ev" and "rec_fields r = []"
    and "one_log ev = (\<lparr>tip = [120, 5], sk = [7]\<rparr>, Some (utf8_encode (to_text weak_env (record_to_json r) @ [10])))"
proof -
  obtain sig where sig: "ml_dsa_sign (mldsa weak_env) 1 [7] (to_vec weak_env (body_json [48] ev [] GENESIS)) = Some sig"
    using good_env_laws(2) [OF weak_env_good] by blast
  have "obj_of [] = ([] :: (ustr \<times> ustr) list)" by (rule obj_of_id) (simp add: obj_sorted_def)
  then show ?thesis using sig
    by (intro that [of "\<lparr>timestamp = [48], event = ev, rec_fields = [], prev_sha3_256 = GENESIS,
          this_sha3_256 = [120, 5], ml_dsa_signature_hex = hex_encode weak_env sig\<rparr>"])
      (simp_all add: one_log_def append_def Let_def weak_hash del: utf8_encode_simps(3))
qed

lemma one_log_verifies: "verify_chain weak_env (snd (one_log ev)) [7] = Inr [120, 5]"
proof -
  have "log_inv weak_env [7] [7] (one_log ev)"
    unfolding one_log_def by (rule audit_step_inv [OF weak_env_good open_fresh]) simp
  moreover obtain f where "one_log ev = (\<lparr>tip = [120, 5], sk = [7]\<rparr>, f)" by (rule one_log_line)
  ultimately show ?thesis using log_inv_verifies by fastforce
qed

lemma one_log_record:
  assumes "snd (one_log ev) = Some bs" and "utf8_decode bs = Some s"
  shows "\<exists>r. records_of weak_env (lines s) = [r] \<and> event r = ev"
proof -
  obtain r where r: "event r = ev" "rec_fields r = []"
    "one_log ev = (\<lparr>tip = [120, 5], sk = [7]\<rparr>, Some (utf8_encode (to_text weak_env (record_to_json r) @ [10])))"
    by (rule one_log_line)
  have "s = unlines [to_text weak_env (record_to_json r)]"
    using assms r(3) good_env_laws(4) [OF weak_env_good]
    by (auto simp: utf8_decode_encode is_scalar_def simp del: utf8_encode_simps(3))
  then have "lines s = [to_text weak_env (record_to_json r)]"
    using lines_unlines [of "[to_text weak_env (record_to_json r)]"] good_env_laws(5) [OF weak_env_good] by simp
  then show ?thesis
    using record_round [of r] r(1,2) good_env_laws(3) [OF weak_env_good]
    by (simp add: map_filter_def read_record_def obj_sorted_def)
qed

theorem audit_tamper_evident_witness:
  "good_env weak_env [7] [7]
   \<and> verify_chain weak_env (snd (one_log (lit ''start''))) [7] = Inr [120, 5]
   \<and> verify_chain weak_env (snd (one_log (lit ''stop''))) [7] = Inr [120, 5]
   \<and> (\<exists>bs bs' s s'. snd (one_log (lit ''start'')) = Some bs \<and> snd (one_log (lit ''stop'')) = Some bs'
        \<and> utf8_decode bs = Some s \<and> utf8_decode bs' = Some s'
        \<and> (\<exists>r \<in> set (records_of weak_env (lines s)). \<exists>r' \<in> set (records_of weak_env (lines s')).
              event r = lit ''start'' \<and> event r' = lit ''stop'' \<and> collides weak_env r r'))"
proof -
  have neq: "lit ''start'' \<noteq> lit ''stop''" by simp
  have "[120, 5] \<noteq> GENESIS" by (simp add: GENESIS_def numeral_eq_Suc)
  then have no: "\<not> hashes_to_genesis weak_env r" for r
    by (simp add: hashes_to_genesis_def body_hash_def weak_hash)
  obtain bs bs' s s' where l: "snd (one_log (lit ''start'')) = Some bs" "snd (one_log (lit ''stop'')) = Some bs'"
    "utf8_decode bs = Some s" "utf8_decode bs' = Some s'"
    and res: "map claims (records_of weak_env (lines s)) = map claims (records_of weak_env (lines s'))
       \<or> (\<exists>r \<in> set (records_of weak_env (lines s)). \<exists>r' \<in> set (records_of weak_env (lines s')). collides weak_env r r')"
    using audit_tamper_evident [OF weak_env_good one_log_verifies [of "lit ''start''"] one_log_verifies [of "lit ''stop''"]]
      no by blast
  obtain r r' where r: "records_of weak_env (lines s) = [r]" "event r = lit ''start''"
    "records_of weak_env (lines s') = [r']" "event r' = lit ''stop''"
    using one_log_record [OF l(1,3)] one_log_record [OF l(2,4)] by blast
  then have "collides weak_env r r'" using res neq by (simp add: claims_def del: lit_Cons)
  then show ?thesis using l r
    by (intro conjI weak_env_good one_log_verifies) (simp del: lit_Cons)
qed

text \<open>An initialisation that fails after the salt is written (here on an empty passphrase) cannot be
  repeated: every later one is refused as already initialised, and there is still no public key, so
  verification cannot run either.\<close>

theorem failed_init_blocks:
  assumes "salt_bin d = None" and "device_pk d = None" and "io_salt io = Inr salt" and "io_write_salt io = WriteDone"
    and "io_perm_salt io = None" and "io_flush io = None" and "io_pass io = Inr []"
  shows "case audit_init kdf rnd env io d of
           (d', r) \<Rightarrow> r = Inl EmptyPassphrase \<and> snd (audit_init kdf rnd env io' d') = Inl AlreadyInitialized
                    \<and> audit_verify env today day d' = Inl NoPublicKey"
  using assms by (simp add: audit_init_def audit_verify_def)

definition empty_disk :: audit_disk where
  "empty_disk = \<lparr>salt_bin = None, device_pk = None, device_sk = None, day_log = (\<lambda>d. None)\<rparr>"

definition no_pass_io :: init_io where
  "no_pass_io = \<lparr>io_salt = Inr [1], io_write_salt = WriteDone, io_perm_salt = None, io_flush = None, io_pass = Inr [],
     io_write_pk = WriteDone, io_write_sk = WriteDone, io_perm_keys = None\<rparr>"

theorem failed_init_blocks_witness:
  "case audit_init (\<lambda>p s m t l. Some p) 7 sample_env no_pass_io empty_disk of
     (d', r) \<Rightarrow> r = Inl EmptyPassphrase
        \<and> snd (audit_init (\<lambda>p s m t l. Some p) 7 sample_env (no_pass_io\<lparr>io_pass := Inr [65]\<rparr>) d') = Inl AlreadyInitialized
        \<and> audit_verify sample_env [] None d' = Inl NoPublicKey"
  by (rule failed_init_blocks [where salt = "[1]"]) (simp_all add: empty_disk_def no_pass_io_def)

end
