(* ===== verification/Mcp.thy ===== *)
theory Mcp
  imports Models Sanitize Json
begin

section \<open>\<open>seck-mcp\<close>: the JSON-RPC server\<close>

text \<open>
  \<open>crates/seck-mcp/src\<close> and \<open>seck mcp\<close> (\<open>crates/seck-cli/src/mcp.rs\<close>).  A message is one line of JSON.
  What \<open>serde_json\<close> reads and writes, the child process of \<open>analyze_file\<close>, the file system, the hash, the
  bundled manifest and the texts of foreign errors are parameters (\<open>mcp_env\<close>).  The report store is a map
  behind a lock; one request at a time is dispatched.
\<close>

subsection \<open>Messages\<close>

record rpc_request =
  req_jsonrpc :: ustr
  req_id :: "json option"
  req_method :: ustr
  req_params :: json

record rpc_error =
  err_code :: int
  err_message :: ustr
  err_data :: "json option"

record rpc_response =
  resp_id :: "json option"
  resp_result :: "json option"
  resp_error :: "rpc_error option"

definition resp_ok :: "json option \<Rightarrow> json \<Rightarrow> rpc_response" where
  "resp_ok i result = \<lparr>resp_id = i, resp_result = Some result, resp_error = None\<rparr>"

definition resp_err :: "json option \<Rightarrow> int \<Rightarrow> ustr \<Rightarrow> rpc_response" where
  "resp_err i code message =
     \<lparr>resp_id = i, resp_result = None,
      resp_error = Some \<lparr>err_code = code, err_message = message, err_data = None\<rparr>\<rparr>"

text \<open>The derived reader: \<open>null\<close> or a missing key is \<open>None\<close> for the identifier, missing parameters are
  \<open>null\<close>; as an array the first three fields are needed.\<close>

definition opt_value :: "json option \<Rightarrow> json option" where
  "opt_value v = (case v of None \<Rightarrow> None | Some JNull \<Rightarrow> None | Some w \<Rightarrow> Some w)"

definition request_fields :: "json \<Rightarrow> (json option \<times> json option \<times> json option \<times> json option) option" where
  "request_fields v =
     (case v of
        JObj m \<Rightarrow> Some (map_of m (lit ''jsonrpc''), map_of m (lit ''id''), map_of m (lit ''method''), map_of m (lit ''params''))
      | JArr [a, b, c] \<Rightarrow> Some (Some a, Some b, Some c, None)
      | JArr [a, b, c, d] \<Rightarrow> Some (Some a, Some b, Some c, Some d)
      | _ \<Rightarrow> None)"

definition request_from_json :: "json \<Rightarrow> rpc_request option" where
  "request_from_json v =
     Option.bind (request_fields v) (\<lambda>(j, i, m, p).
     Option.bind (Option.bind j jas_str) (\<lambda>jr.
     Option.bind (Option.bind m jas_str) (\<lambda>meth.
     Some \<lparr>req_jsonrpc = jr, req_id = opt_value i, req_method = meth,
           req_params = (case p of None \<Rightarrow> JNull | Some w \<Rightarrow> w)\<rparr>)))"

definition error_to_json :: "(int \<Rightarrow> jnum) \<Rightarrow> rpc_error \<Rightarrow> json" where
  "error_to_json num e =
     JObj ([(lit ''code'', JNum (num (err_code e))), (lit ''message'', JStr (err_message e))]
           @ (case err_data e of None \<Rightarrow> [] | Some d \<Rightarrow> [(lit ''data'', d)]))"

definition response_to_json :: "(int \<Rightarrow> jnum) \<Rightarrow> rpc_response \<Rightarrow> json" where
  "response_to_json num r =
     JObj ([(lit ''jsonrpc'', JStr (lit ''2.0'')), (lit ''id'', (case resp_id r of None \<Rightarrow> JNull | Some i \<Rightarrow> i))]
           @ (case resp_result r of None \<Rightarrow> [] | Some v \<Rightarrow> [(lit ''result'', v)])
           @ (case resp_error r of None \<Rightarrow> [] | Some e \<Rightarrow> [(lit ''error'', error_to_json num e)]))"

subsection \<open>The server's surroundings and its fixed answers\<close>

record mcp_env =
  m_from_text :: "ustr \<Rightarrow> ustr + json"
  m_shape_error :: "json \<Rightarrow> ustr"
  m_from_slice :: "bytes \<Rightarrow> ustr + json"
  m_to_text :: "json \<Rightarrow> ustr"
  m_pretty :: "json \<Rightarrow> ustr"
  m_num :: "int \<Rightarrow> jnum"
  m_f32 :: "f32 \<Rightarrow> json"
  m_sha3 :: "bytes \<Rightarrow> bytes"
  m_hex :: "bytes \<Rightarrow> ustr"
  m_spawn :: "ustr list \<Rightarrow> io_error + (bool \<times> bytes \<times> bytes)"
  m_read :: "ustr \<Rightarrow> io_error + bytes"
  m_show_io :: "io_error \<Rightarrow> ustr"
  m_manifest :: "ustr + manifest"
  m_version :: ustr

definition server_info :: "mcp_env \<Rightarrow> json" where
  "server_info env = jobj [(lit ''name'', JStr (lit ''seck'')), (lit ''version'', JStr (m_version env))]"

definition server_capabilities :: json where
  "server_capabilities = jobj [(lit ''tools'', jobj [])]"

definition str_type :: json where
  "str_type = jobj [(lit ''type'', JStr (lit ''string''))]"

definition tool_list :: json where
  "tool_list = jobj [(lit ''tools'', JArr
     [jobj [(lit ''name'', JStr (lit ''analyze_file'')),
            (lit ''description'', JStr (lit ''Run seck analyze on a file or directory in the sandboxed pipeline. Returns the JSON report.'')),
            (lit ''inputSchema'', jobj [(lit ''type'', JStr (lit ''object'')),
               (lit ''properties'', jobj [(lit ''path'', str_type)]),
               (lit ''required'', JArr [JStr (lit ''path'')])])],
      jobj [(lit ''name'', JStr (lit ''list_models'')),
            (lit ''description'', JStr (lit ''List installed local models from the bundled manifest.'')),
            (lit ''inputSchema'', jobj [(lit ''type'', JStr (lit ''object'')), (lit ''properties'', jobj [])])],
      jobj [(lit ''name'', JStr (lit ''verify_file_sha3'')),
            (lit ''description'', JStr (lit ''Verify a local file'' @ [39] @ lit ''s SHA3-256 matches the expected hex.'')),
            (lit ''inputSchema'', jobj [(lit ''type'', JStr (lit ''object'')),
               (lit ''properties'', jobj [(lit ''path'', str_type), (lit ''sha3_256_hex'', str_type)]),
               (lit ''required'', JArr [JStr (lit ''path''), JStr (lit ''sha3_256_hex'')])])]])]"

definition initialize_result :: "mcp_env \<Rightarrow> json" where
  "initialize_result env = jobj
     [(lit ''protocolVersion'', JStr (lit ''2025-06-18'')), (lit ''capabilities'', server_capabilities),
      (lit ''serverInfo'', server_info env),
      (lit ''instructions'', JStr (lit ''seck '' @ [0x2014] @ lit '' sandboxed-LLM file/project analyzer''))]"

subsection \<open>The report store\<close>

type_synonym store = "ustr \<Rightarrow> json option"

definition store_new :: store where
  "store_new = Map.empty"

definition report_id :: "mcp_env \<Rightarrow> json \<Rightarrow> ustr" where
  "report_id env v = m_hex env (m_sha3 env (utf8_encode (m_to_text env v)))"

definition store_put :: "mcp_env \<Rightarrow> json \<Rightarrow> store \<Rightarrow> store \<times> ustr" where
  "store_put env v st = (let i = report_id env v in (st(i \<mapsto> v), i))"

definition store_get :: "ustr \<Rightarrow> store \<Rightarrow> json option" where
  "store_get i st = st i"

subsection \<open>The tools\<close>

definition arg_str :: "json \<Rightarrow> ustr \<Rightarrow> ustr option" where
  "arg_str args k = Option.bind (jget k args) jas_str"

definition text_content :: "ustr \<Rightarrow> json" where
  "text_content t = JArr [jobj [(lit ''type'', JStr (lit ''text'')), (lit ''text'', JStr t)]]"

definition finding_summaries :: "json \<Rightarrow> ustr list" where
  "finding_summaries report =
     (case jas_array (jindex (lit ''findings'') report) of
        None \<Rightarrow> []
      | Some arr \<Rightarrow> List.map_filter (\<lambda>f. jas_str (jindex (lit ''summary'') f)) arr)"

definition summary_text :: "json \<Rightarrow> ustr" where
  "summary_text report = join [10] (map sanitize (finding_summaries report))"

definition missing :: "string \<Rightarrow> ustr" where
  "missing k = lit ''missing '' @ [39] @ lit k @ [39]"

definition analyze_text :: "ustr \<Rightarrow> ustr \<Rightarrow> ustr" where
  "analyze_text i summary = lit ''report_id: '' @ i @ [10] @ summary"

definition tool_analyze_file :: "mcp_env \<Rightarrow> json \<Rightarrow> store \<Rightarrow> store \<times> (ustr + json)" where
  "tool_analyze_file env args st =
     (case arg_str args (lit ''path'') of
        None \<Rightarrow> (st, Inl (missing ''path''))
      | Some p \<Rightarrow>
          (case m_spawn env [lit ''analyze'', p, lit ''--output'', lit ''json''] of
             Inl e \<Rightarrow> (st, Inl (m_show_io env e))
           | Inr (success, out, err) \<Rightarrow>
               if \<not> success then (st, Inl (lit ''seck analyze failed: '' @ utf8_lossy err))
               else
                 (case m_from_slice env out of
                    Inl e \<Rightarrow> (st, Inl e)
                  | Inr report \<Rightarrow>
                      let (st', i) = store_put env report st in
                      (st', Inr (jobj [(lit ''content'', text_content (analyze_text i (summary_text report)))])))))"

definition model_json :: "mcp_env \<Rightarrow> model_entry \<Rightarrow> json" where
  "model_json env e = jobj
     [(lit ''name'', JStr (me_name e)), (lit ''params_billion'', m_f32 env (params_billion e)),
      (lit ''recommended_min_ram_gb'', JNum (m_num env (int (unat (recommended_min_ram_gb e))))),
      (lit ''license'', JStr (license e))]"

definition tool_list_models :: "mcp_env \<Rightarrow> ustr + json" where
  "tool_list_models env =
     try_bind (m_manifest env) (\<lambda>m.
     Inr (jobj [(lit ''content'', text_content (m_pretty env (JArr (map (model_json env) (entries m)))))]))"

definition verify_text :: "bool \<Rightarrow> ustr \<Rightarrow> ustr \<Rightarrow> ustr \<Rightarrow> ustr" where
  "verify_text ok p want got =
     (if ok then ok_line p else lit ''MISMATCH: expected '' @ want @ lit '', got '' @ got)"

definition tool_verify_file_sha3 :: "mcp_env \<Rightarrow> json \<Rightarrow> ustr + json" where
  "tool_verify_file_sha3 env args =
     try_bind (ok_or (missing ''path'') (arg_str args (lit ''path''))) (\<lambda>p.
     try_bind (ok_or (missing ''sha3_256_hex'') (arg_str args (lit ''sha3_256_hex''))) (\<lambda>h.
     let want = to_lowercase h in
     try_bind (map_err (m_show_io env) (m_read env p)) (\<lambda>bs.
     let got = m_hex env (m_sha3 env bs); ok = (got = want) in
     Inr (jobj [(lit ''content'', text_content (verify_text ok p want got)), (lit ''isError'', JBool (\<not> ok))]))))"

subsection \<open>Dispatch\<close>

definition tool_reply :: "json option \<Rightarrow> ustr + json \<Rightarrow> rpc_response" where
  "tool_reply i r = (case r of Inr v \<Rightarrow> resp_ok i v | Inl e \<Rightarrow> resp_err i (-32000) e)"

definition handle_tool_call :: "mcp_env \<Rightarrow> rpc_request \<Rightarrow> store \<Rightarrow> store \<times> rpc_response" where
  "handle_tool_call env req st =
     (let name = (case arg_str (req_params req) (lit ''name'') of Some n \<Rightarrow> n | None \<Rightarrow> []);
          args = (case jget (lit ''arguments'') (req_params req) of Some a \<Rightarrow> a | None \<Rightarrow> jobj [])
      in if name = lit ''analyze_file'' then apsnd (tool_reply (req_id req)) (tool_analyze_file env args st)
         else if name = lit ''list_models'' then (st, tool_reply (req_id req) (tool_list_models env))
         else if name = lit ''verify_file_sha3'' then (st, tool_reply (req_id req) (tool_verify_file_sha3 env args))
         else (st, resp_err (req_id req) (-32602) (lit ''unknown tool: '' @ name)))"

definition handle :: "mcp_env \<Rightarrow> rpc_request \<Rightarrow> store \<Rightarrow> store \<times> rpc_response" where
  "handle env req st =
     (let m = req_method req in
      if m = lit ''initialize'' then (st, resp_ok (req_id req) (initialize_result env))
      else if m = lit ''notifications/initialized'' \<or> m = lit ''initialized'' then (st, resp_ok (req_id req) JNull)
      else if m = lit ''tools/list'' then (st, resp_ok (req_id req) tool_list)
      else if m = lit ''tools/call'' then handle_tool_call env req st
      else (st, resp_err (req_id req) (-32601) (lit ''method not found: '' @ m)))"

definition parse_request :: "mcp_env \<Rightarrow> ustr \<Rightarrow> ustr + rpc_request" where
  "parse_request env line =
     try_bind (m_from_text env line) (\<lambda>v. ok_or (m_shape_error env v) (request_from_json v))"

definition dispatch :: "mcp_env \<Rightarrow> ustr \<Rightarrow> store \<Rightarrow> store \<times> rpc_response option" where
  "dispatch env line st =
     (case parse_request env line of
        Inl e \<Rightarrow> (st, Some (resp_err None (-32700) (lit ''parse: '' @ e)))
      | Inr req \<Rightarrow>
          let is_notification = (req_id req = None);
              (st', resp) = handle env req st
          in (st', if is_notification \<and> resp_error resp = None then None else Some resp))"

text \<open>\<open>lines\<close> are the results of \<open>BufRead::lines\<close>; \<open>wr i\<close> is the failure of the \<open>i\<close>-th write or flush.\<close>

fun serve :: "mcp_env \<Rightarrow> (nat \<Rightarrow> io_error option) \<Rightarrow> (io_error + ustr) list \<Rightarrow> store \<Rightarrow> ustr list
    \<Rightarrow> store \<times> ustr list \<times> (io_error + unit)" where
  "serve env wr [] st out = (st, out, Inr ())"
| "serve env wr (Inl e # ls) st out = (st, out, Inl e)"
| "serve env wr (Inr l # ls) st out =
     (if trim l = [] then serve env wr ls st out
      else
        (case dispatch env l st of
           (st', None) \<Rightarrow> serve env wr ls st' out
         | (st', Some resp) \<Rightarrow>
             (case wr (length out) of
                Some e \<Rightarrow> (st', out, Inl e)
              | None \<Rightarrow> serve env wr ls st' (out @ [m_to_text env (response_to_json (m_num env) resp)]))))"

text \<open>The server starts the program it is itself: \<open>env\<close> is its surroundings once that is known.\<close>

definition mcp_main :: "(ustr \<Rightarrow> mcp_env) \<Rightarrow> io_error + ustr \<Rightarrow> bool \<Rightarrow> (nat \<Rightarrow> io_error option) \<Rightarrow> (io_error + ustr) list
    \<Rightarrow> ustr list \<times> (io_error option + unit)" where
  "mcp_main env exe stdio wr ls =
     (if \<not> stdio then ([], Inl None)
      else
        (case exe of
           Inl e \<Rightarrow> ([], Inl (Some e))
         | Inr seck_bin \<Rightarrow>
             let (st, out, r) = serve (env seck_bin) wr ls store_new [] in (out, map_err Some r)))"

section \<open>Lemmas\<close>

text \<open>Every answer carries a result or an error, and the identifier of its request.\<close>

definition well_formed :: "json option \<Rightarrow> rpc_response \<Rightarrow> bool" where
  "well_formed i r \<longleftrightarrow> resp_id r = i \<and> (resp_result r = None \<longleftrightarrow> resp_error r \<noteq> None)"

named_theorems replies

lemma well_formed_ok [replies]: "well_formed i (resp_ok i v)"
  by (simp add: well_formed_def resp_ok_def)

lemma well_formed_err [replies]: "well_formed i (resp_err i c m)"
  by (simp add: well_formed_def resp_err_def)

lemma well_formed_tool [replies]: "well_formed i (tool_reply i r)"
  by (simp add: tool_reply_def replies split: sum.splits)

lemma well_formed_call [replies]: "well_formed (req_id req) (snd (handle_tool_call env req st))"
  unfolding handle_tool_call_def Let_def by (simp only: split: if_split) (simp add: replies)

lemma well_formed_handle [replies]: "well_formed (req_id req) (snd (handle env req st))"
  unfolding handle_def Let_def by (simp only: split: if_split) (simp add: replies)

text \<open>Reports are filed under their own hash.\<close>

definition store_keyed :: "mcp_env \<Rightarrow> store \<Rightarrow> bool" where
  "store_keyed env st \<longleftrightarrow> (\<forall>i v. st i = Some v \<longrightarrow> i = report_id env v)"

lemma tool_analyze_cases:
  "case tool_analyze_file env args st of
     (st', Inl e) \<Rightarrow> st' = st
   | (st', Inr v) \<Rightarrow> \<exists>report. st' = st(report_id env report \<mapsto> report)
       \<and> v = jobj [(lit ''content'', text_content (analyze_text (report_id env report) (summary_text report)))]"
  by (auto simp: tool_analyze_file_def store_put_def Let_def simp del: lit_Cons split: option.splits sum.splits)

lemma keyed_analyze: "store_keyed env st \<Longrightarrow> store_keyed env (fst (tool_analyze_file env args st))"
  using tool_analyze_cases [where env = env and args = args and st = st]
  by (cases "tool_analyze_file env args st"; cases "snd (tool_analyze_file env args st)")
    (auto simp: store_keyed_def split: if_splits)

lemma keyed_call: "store_keyed env st \<Longrightarrow> store_keyed env (fst (handle_tool_call env req st))"
  unfolding handle_tool_call_def Let_def by (simp only: split: if_split) (simp add: keyed_analyze)

lemma keyed_handle: "store_keyed env st \<Longrightarrow> store_keyed env (fst (handle env req st))"
  unfolding handle_def Let_def by (simp only: split: if_split) (simp add: keyed_call)

lemma keyed_dispatch: "store_keyed env st \<Longrightarrow> store_keyed env (fst (dispatch env line st))"
  using keyed_handle [of env st] by (simp add: dispatch_def Let_def split_beta split: sum.splits)

definition store_step :: "mcp_env \<Rightarrow> store \<Rightarrow> ustr \<Rightarrow> store" where
  "store_step env st line = fst (dispatch env line st)"

interpretation report_store: stepper "store_step env" "store_keyed env" for env
  by unfold_locales (simp add: store_step_def keyed_dispatch)

lemma put_get: "store_get (snd (store_put env v st)) (fst (store_put env v st)) = Some v"
  by (simp add: store_put_def store_get_def Let_def)

text \<open>A call without an identifier gets no answer when it succeeds and one when it fails.\<close>

lemma notification_gets_error:
  assumes "parse_request env line = Inr \<lparr>req_jsonrpc = j, req_id = None, req_method = lit ''nope'', req_params = p\<rparr>"
  shows "snd (dispatch env line st) = Some (resp_err None (-32601) (lit ''method not found: nope''))"
  using assms by (simp add: dispatch_def handle_def resp_err_def)

text \<open>The path of \<open>verify_file_sha3\<close> comes back in the text as it was sent.\<close>

lemma verify_text_raw: "set p \<subseteq> set (verify_text True p w g)"
  by (auto simp: verify_text_def ok_line_def)

lemma verify_reply_raw:
  assumes "arg_str args (lit ''path'') = Some p" and "arg_str args (lit ''sha3_256_hex'') = Some h"
    and "m_read env p = Inr bs" and "m_hex env (m_sha3 env bs) = to_lowercase h"
  shows "tool_verify_file_sha3 env args =
    Inr (jobj [(lit ''content'', text_content (ok_line p)), (lit ''isError'', JBool False)])"
  using assms by (simp add: tool_verify_file_sha3_def verify_text_def Let_def del: lit_Cons)

lemma summary_text_safe: "set (summary_text report) \<subseteq> {c. safe_char c}"
  unfolding summary_text_def
  by (rule join_all) (use sanitizer.scrub_ok in \<open>auto simp: list_all_iff safe_char_def is_control_def is_bidi_def is_zero_width_def\<close>)

section \<open>Properties\<close>

text \<open>C27: a line that is no request is answered with the parse error and no identifier; a request is
  answered with its own identifier and either a result or an error, and is left unanswered only when it has no
  identifier and succeeded.\<close>

theorem mcp_reply_rules:
  "case (parse_request env line, snd (dispatch env line st)) of
     (Inl e, r) \<Rightarrow> r = Some (resp_err None (-32700) (lit ''parse: '' @ e)) \<and> fst (dispatch env line st) = st
   | (Inr req, None) \<Rightarrow> req_id req = None \<and> resp_error (snd (handle env req st)) = None
   | (Inr req, Some resp) \<Rightarrow> well_formed (req_id req) resp \<and> (req_id req, resp_error resp) \<noteq> (None, None)"
proof (cases "parse_request env line")
  case (Inl e)
  then show ?thesis by (simp add: dispatch_def del: lit_Cons)
next
  case (Inr req)
  have "well_formed (req_id req) (snd (handle env req st))" by (rule well_formed_handle)
  with Inr show ?thesis by (auto simp: dispatch_def Let_def split_beta)
qed

text \<open>C28: in every session the report store files each report under the hash of its text, whatever the
  requests and whatever the child processes answer; a report just stored is found again.\<close>

theorem mcp_store_keyed:
  "case store_get i (run_steps (store_step env) store_new requests) of
     None \<Rightarrow> store_get (snd (store_put env v st)) (fst (store_put env v st)) = Some v
   | Some report \<Rightarrow> report_id env report = i"
proof -
  have "store_keyed env (run_steps (store_step env) store_new requests)"
    by (rule report_store.run_inv) (simp add: store_keyed_def store_new_def)
  then show ?thesis by (auto simp: store_get_def store_keyed_def put_get [unfolded store_get_def] split: option.split)
qed

text \<open>A failing analysis leaves the store alone; a successful one stores the report and answers with its
  identifier and the summaries of its findings, in which every character is safe.\<close>

theorem analyze_reply_safe:
  "case tool_analyze_file env args st of
     (st', Inl e) \<Rightarrow> st' = st
   | (st', Inr v) \<Rightarrow> \<exists>report. st' = st(report_id env report \<mapsto> report)
       \<and> v = jobj [(lit ''content'', text_content (analyze_text (report_id env report) (summary_text report)))]
       \<and> set (summary_text report) \<subseteq> {c. safe_char c}"
  using tool_analyze_cases [where env = env and args = args and st = st] summary_text_safe by (auto split: prod.splits sum.splits)

end
