(* ===== verification/Tui.thy ===== *)
theory Tui
  imports Report ByteIo
begin

section \<open>\<open>seck-tui\<close>: the terminal viewer\<close>

text \<open>
  \<open>crates/seck-tui/src/lib.rs\<close> and \<open>crates/seck-cli/src/tui.rs\<close>.  \<open>key_step\<close> is the body of the event
  loop for one key, \<open>event_loop\<close> the loop over what \<open>event::read\<close> answers, \<open>draw\<close> the text of the three
  panes (their layout on the screen is the work of \<open>ratatui\<close>), and \<open>run\<close> brackets the loop with the
  changes of the terminal's mode.  An index of a finding is a natural number: it never exceeds the length of
  a vector.  The printing of a floating-point number is a parameter.
\<close>

subsection \<open>State and keys\<close>

record app_state =
  tui_report :: "report option"
  selected :: nat
  expanded :: "ustr set"

definition app_state_new :: "report \<Rightarrow> app_state" where
  "app_state_new r = \<lparr>tui_report = Some r, selected = 0, expanded = {}\<rparr>"

datatype key_code = KeyChar uchar | KeyEsc | KeyUp | KeyDown | KeyEnter | KeyOther

datatype term_event = KeyEvent key_code | OtherEvent

definition is_quit :: "key_code \<Rightarrow> bool" where
  "is_quit k \<longleftrightarrow> k = KeyChar 113 \<or> k = KeyEsc"

definition toggle :: "'a \<Rightarrow> 'a set \<Rightarrow> 'a set" where
  "toggle x A = (if x \<in> A then A - {x} else insert x A)"

text \<open>Every arm but the one that leaves the loop.\<close>

definition key_step :: "app_state \<Rightarrow> key_code \<Rightarrow> app_state" where
  "key_step s k =
     (if k = KeyChar 106 \<or> k = KeyDown then
        (case tui_report s of
           None \<Rightarrow> s
         | Some r \<Rightarrow> if selected s + 1 < length (findings r) then s\<lparr>selected := selected s + 1\<rparr> else s)
      else if k = KeyChar 107 \<or> k = KeyUp then s\<lparr>selected := selected s - 1\<rparr>
      else if k = KeyChar 103 then s\<lparr>selected := 0\<rparr>
      else if k = KeyChar 71 then
        (case tui_report s of None \<Rightarrow> s | Some r \<Rightarrow> s\<lparr>selected := length (findings r) - 1\<rparr>)
      else if k = KeyEnter then
        (case tui_report s of
           None \<Rightarrow> s
         | Some r \<Rightarrow>
             if selected s < length (findings r)
             then s\<lparr>expanded := toggle (finding_id (findings r ! selected s)) (expanded s)\<rparr>
             else s)
      else s)"

subsection \<open>Drawing\<close>

definition safe_line :: "ustr \<Rightarrow> ustr" where
  "safe_line s = sanitize s"

definition show_bool :: "bool \<Rightarrow> ustr" where
  "show_bool b = (if b then lit ''true'' else lit ''false'')"

definition render_files :: "report \<Rightarrow> ustr list" where
  "render_files r = map (\<lambda>i. safe_line (in_path i)) (report_inputs r)"

definition render_meta :: "(f32 \<Rightarrow> ustr) \<Rightarrow> report \<Rightarrow> ustr list" where
  "render_meta show_f32 r =
     [safe_line (lit ''sandbox: '' @ inv_sandbox_mode (report_invocation r)),
      safe_line (lit ''backend: '' @ backend (report_invocation r)),
      safe_line (lit ''temp: '' @ show_f32 (temperature (report_invocation r))),
      safe_line (lit ''deterministic: '' @ show_bool (deterministic (report_invocation r)))]"

text \<open>The marker is U+25B6, the dash U+2014.\<close>

definition finding_rows :: "app_state \<Rightarrow> nat \<Rightarrow> finding \<Rightarrow> ustr list" where
  "finding_rows s i f =
     safe_line ((if i = selected s then [0x25B6] else lit '' '') @ lit '' ['' @ finding_id f @ lit ''] '' @ summary f)
     # (if finding_id f \<in> expanded s
        then [safe_line (lit ''    '' @ category f @ lit ''/'' @ confidence f @ lit '' '' @ [0x2014] @ lit '' ''
                         @ evidence_quote f)]
        else [])"

definition render_findings :: "report \<Rightarrow> app_state \<Rightarrow> ustr list" where
  "render_findings r s = concat (map (\<lambda>(i, f). finding_rows s i f) (List.enumerate 0 (findings r)))"

record panes =
  files_pane :: "ustr list"
  meta_pane :: "ustr list"
  findings_pane :: "ustr list"

definition draw :: "(f32 \<Rightarrow> ustr) \<Rightarrow> app_state \<Rightarrow> panes option" where
  "draw show_f32 s =
     map_option (\<lambda>r. \<lparr>files_pane = render_files r, meta_pane = render_meta show_f32 r,
                      findings_pane = render_findings r s\<rparr>) (tui_report s)"

subsection \<open>The loop and the terminal\<close>

datatype tui_error = TuiRead io_error | TuiParse | TuiTerminal io_error | TuiDraw ustr

text \<open>\<open>drawn i\<close> is the failure of the \<open>i\<close>-th drawing; the result is \<open>None\<close> while the loop waits for an
  event that has not come.\<close>

fun event_loop :: "(nat \<Rightarrow> ustr option) \<Rightarrow> nat \<Rightarrow> (io_error + term_event) list \<Rightarrow> app_state
    \<Rightarrow> app_state \<times> (tui_error + unit) option" where
  "event_loop drawn i evs s =
     (case drawn i of
        Some e \<Rightarrow> (s, Some (Inl (TuiDraw e)))
      | None \<Rightarrow>
         (case evs of
            [] \<Rightarrow> (s, None)
          | Inl e # es \<Rightarrow> (s, Some (Inl (TuiTerminal e)))
          | Inr OtherEvent # es \<Rightarrow> event_loop drawn (Suc i) es s
          | Inr (KeyEvent k) # es \<Rightarrow>
              if is_quit k then (s, Some (Inr ())) else event_loop drawn (Suc i) es (key_step s k)))"

declare event_loop.simps [simp del]

record term_env =
  report_body :: "io_error + bytes"
  parse_report :: "bytes \<Rightarrow> json option"
  raw_on :: "io_error option"
  enter_alt :: "io_error option"
  term_new :: "io_error option"
  raw_off :: "io_error option"
  leave_alt :: "io_error option"

record term_mode =
  raw_mode :: bool
  alt_screen :: bool

definition term_try :: "io_error option \<Rightarrow> term_mode \<Rightarrow> term_mode
    \<Rightarrow> (term_mode \<Rightarrow> term_mode \<times> (tui_error + unit) option) \<Rightarrow> term_mode \<times> (tui_error + unit) option" where
  "term_try fails m m' k = (case fails of Some e \<Rightarrow> (m, Some (Inl (TuiTerminal e))) | None \<Rightarrow> k m')"

definition run :: "term_env \<Rightarrow> (nat \<Rightarrow> ustr option) \<Rightarrow> (io_error + term_event) list \<Rightarrow> term_mode
    \<Rightarrow> term_mode \<times> (tui_error + unit) option" where
  "run env drawn evs m =
     (case report_body env of
        Inl e \<Rightarrow> (m, Some (Inl (TuiRead e)))
      | Inr body \<Rightarrow>
         (case Option.bind (parse_report env body) report_from_json of
            None \<Rightarrow> (m, Some (Inl TuiParse))
          | Some r \<Rightarrow>
              term_try (raw_on env) m (m\<lparr>raw_mode := True\<rparr>) (\<lambda>m.
              term_try (enter_alt env) m (m\<lparr>alt_screen := True\<rparr>) (\<lambda>m.
              term_try (term_new env) m m (\<lambda>m.
              case event_loop drawn 0 evs (app_state_new r) of
                (s, None) \<Rightarrow> (m, None)
              | (s, Some res) \<Rightarrow>
                  term_try (raw_off env) m (m\<lparr>raw_mode := False\<rparr>) (\<lambda>m.
                  term_try (leave_alt env) m (m\<lparr>alt_screen := False\<rparr>) (\<lambda>m. (m, Some res))))))))"

section \<open>Lemmas\<close>

text \<open>The selection stays on a finding, the report is never changed, and only findings are expanded.\<close>

definition tui_inv :: "report \<Rightarrow> app_state \<Rightarrow> bool" where
  "tui_inv r s \<longleftrightarrow> tui_report s = Some r \<and> (selected s = 0 \<or> selected s < length (findings r))
     \<and> expanded s \<subseteq> finding_id ` set (findings r)"

lemma tui_inv_new: "tui_inv r (app_state_new r)"
  by (simp add: tui_inv_def app_state_new_def)

interpretation viewer: stepper key_step "tui_inv r" for r
  by unfold_locales (auto simp: tui_inv_def key_step_def toggle_def)

lemma set_draw:
  assumes "draw show_f32 s = Some p"
  shows "l \<in> set (files_pane p) \<union> set (meta_pane p) \<union> set (findings_pane p) \<Longrightarrow> l \<in> range sanitize"
  using assms by (auto simp: draw_def render_files_def render_meta_def render_findings_def finding_rows_def
      safe_line_def simp del: lit_Cons split: if_splits)

text \<open>What the keys do to a list of \<open>n\<close> items of which each is open or closed, by position.\<close>

fun list_view :: "nat \<Rightarrow> nat \<times> nat set \<Rightarrow> key_code \<Rightarrow> nat \<times> nat set" where
  "list_view n (i, opened) KeyDown = (min (i + 1) (n - 1), opened)"
| "list_view n (i, opened) KeyUp = (i - 1, opened)"
| "list_view n (i, opened) KeyEnter = (i, if i < n then toggle i opened else opened)"
| "list_view n (i, opened) (KeyChar c) =
     (if c = 106 then (min (i + 1) (n - 1), opened) else if c = 107 then (i - 1, opened)
      else if c = 103 then (0, opened) else if c = 71 then (n - 1, opened) else (i, opened))"
| "list_view n v k = v"

definition view_of :: "report \<Rightarrow> app_state \<Rightarrow> nat \<times> nat set" where
  "view_of r s = (selected s, {i. i < length (findings r) \<and> finding_id (findings r ! i) \<in> expanded s})"

lemma view_toggle:
  assumes "distinct (map finding_id (findings r))" and "j < length (findings r)"
  shows "{i. i < length (findings r) \<and> finding_id (findings r ! i) \<in> toggle (finding_id (findings r ! j)) E}
    = toggle j {i. i < length (findings r) \<and> finding_id (findings r ! i) \<in> E}"
proof -
  have "finding_id (findings r ! i) = finding_id (findings r ! j) \<longleftrightarrow> i = j" if "i < length (findings r)" for i
    using assms that by (simp add: distinct_conv_nth) metis
  then show ?thesis using assms(2) by (auto simp: toggle_def)
qed

lemma view_key_step:
  assumes "tui_inv r s" and "distinct (map finding_id (findings r))"
  shows "view_of r (key_step s k) = list_view (length (findings r)) (view_of r s) k"
  using assms view_toggle [OF assms(2)]
  by (cases k) (auto simp: tui_inv_def view_of_def key_step_def min_def)

text \<open>Two findings with the same identifier open and close together.\<close>

lemma same_id_expands_both:
  assumes "tui_report s = Some r" and "selected s < length (findings r)"
    and "finding_id f = finding_id (findings r ! selected s)"
  shows "finding_id f \<in> expanded (key_step s KeyEnter) \<longleftrightarrow> finding_id f \<notin> expanded s"
  using assms by (auto simp: key_step_def toggle_def)

text \<open>The loop ends with a failing read or the key \<open>q\<close> or Esc.\<close>

definition ends_loop :: "io_error + term_event \<Rightarrow> bool" where
  "ends_loop ev =
     (case ev of Inl e \<Rightarrow> True | Inr (KeyEvent k) \<Rightarrow> k \<in> {KeyChar 113, KeyEsc} | Inr OtherEvent \<Rightarrow> False)"

lemma is_quit_iff: "is_quit k \<longleftrightarrow> k \<in> {KeyChar 113, KeyEsc}"
  by (cases k) (auto simp: is_quit_def)

lemma ends_loop_simps [simp]:
  "ends_loop (Inl e)" "ends_loop (Inr (KeyEvent k)) \<longleftrightarrow> is_quit k" "\<not> ends_loop (Inr OtherEvent)"
  by (simp_all add: ends_loop_def is_quit_iff)

text \<open>The events the loop handles: those before the first failing drawing and before the first event that
  ends it.  The \<open>j\<close>-th event comes after the \<open>j\<close>-th drawing.\<close>

definition handled :: "(nat \<Rightarrow> ustr option) \<Rightarrow> nat \<Rightarrow> (io_error + term_event) list \<Rightarrow> (io_error + term_event) list" where
  "handled drawn i evs =
     map snd (takeWhile (\<lambda>(j, ev). drawn j = None \<and> \<not> ends_loop ev) (List.enumerate i evs))"

definition keys_of :: "(io_error + term_event) list \<Rightarrow> key_code list" where
  "keys_of evs = List.map_filter (\<lambda>ev. case ev of Inr (KeyEvent k) \<Rightarrow> Some k | _ \<Rightarrow> None) evs"

text \<open>What the loop returns once the events before have been handled.\<close>

definition loop_result :: "ustr option \<Rightarrow> (io_error + term_event) list \<Rightarrow> (tui_error + unit) option" where
  "loop_result draw_failure rest =
     (case draw_failure of
        Some e \<Rightarrow> Some (Inl (TuiDraw e))
      | None \<Rightarrow>
         (case rest of
            [] \<Rightarrow> None
          | Inl e # es \<Rightarrow> Some (Inl (TuiTerminal e))
          | Inr key # es \<Rightarrow> Some (Inr ())))"

lemma handled_simps [simp]:
  "handled drawn i [] = []"
  "handled drawn i (ev # evs) = (if drawn i = None \<and> \<not> ends_loop ev then ev # handled drawn (Suc i) evs else [])"
  by (simp_all add: handled_def)

lemma keys_of_simps [simp]:
  "keys_of [] = []" "keys_of (Inl e # evs) = keys_of evs" "keys_of (Inr OtherEvent # evs) = keys_of evs"
  "keys_of (Inr (KeyEvent k) # evs) = k # keys_of evs"
  by (simp_all add: keys_of_def)

lemma event_loop_spec:
  "event_loop drawn i evs s =
     (run_steps key_step s (keys_of (handled drawn i evs)),
      loop_result (drawn (i + length (handled drawn i evs))) (drop (length (handled drawn i evs)) evs))"
proof (induction evs arbitrary: i s)
  case Nil
  then show ?case by (subst event_loop.simps) (auto simp: loop_result_def split: option.splits)
next
  case (Cons ev es)
  show ?case
    by (subst event_loop.simps)
      (auto simp: loop_result_def Cons.IH split: option.splits sum.splits term_event.splits)
qed

lemma event_loop_ended:
  "drawn i \<noteq> None \<or> evs \<noteq> [] \<and> ends_loop (hd evs) \<Longrightarrow> \<exists>res. event_loop drawn i evs s = (s, Some res)"
  by (subst event_loop.simps) (auto split: option.splits list.splits sum.splits term_event.splits)

lemma event_loop_goes_on:
  assumes "drawn i = None" and "\<not> ends_loop ev"
  shows "\<exists>ks. event_loop drawn i (ev # es) s = event_loop drawn (Suc i) es (run_steps key_step s ks)"
proof (cases ev)
  case (Inr e)
  show ?thesis
  proof (cases e)
    case (KeyEvent k)
    then show ?thesis using assms Inr
      by (subst event_loop.simps) (auto intro!: exI [of _ "[k]"])
  next
    case OtherEvent
    then show ?thesis using assms Inr
      by (subst event_loop.simps) (auto intro!: exI [of _ "[]"])
  qed
qed (use assms in simp)

lemma ex_le_Suc: "(\<exists>j \<le> Suc n. P (i + j)) \<longleftrightarrow> P i \<or> (\<exists>j \<le> n. P (Suc i + j))" for i n :: nat
  by (metis Suc_le_mono add_Suc_right add_Suc_shift add_0_right le0 not0_implies_Suc)

lemma event_loop_returns:
  "snd (event_loop drawn i evs s) \<noteq> None \<longleftrightarrow>
     list_ex ends_loop evs \<or> (\<exists>j \<le> length (takeWhile (\<lambda>e. \<not> ends_loop e) evs). drawn (i + j) \<noteq> None)"
proof (induction evs arbitrary: i s)
  case Nil
  then show ?case by (subst event_loop.simps) (auto split: option.splits)
next
  case (Cons ev es)
  show ?case
  proof (cases "drawn i \<noteq> None \<or> ends_loop ev")
    case True
    then obtain res where "event_loop drawn i (ev # es) s = (s, Some res)"
      using event_loop_ended [of drawn i "ev # es" s] by auto
    then show ?thesis using True by (cases "ends_loop ev") (auto intro: exI [of _ 0])
  next
    case False
    then obtain ks where "event_loop drawn i (ev # es) s = event_loop drawn (Suc i) es (run_steps key_step s ks)"
      using event_loop_goes_on by blast
    then show ?thesis using False Cons.IH [of "Suc i" "run_steps key_step s ks"]
      ex_le_Suc [of "length (takeWhile (\<lambda>e. \<not> ends_loop e) es)" "\<lambda>j. drawn j \<noteq> None" i]
      by simp
  qed
qed

text \<open>When the alternate screen cannot be entered, the terminal stays in raw mode.\<close>

lemma raw_mode_left_on:
  assumes "report_body env = Inr b" and "Option.bind (parse_report env b) report_from_json = Some r"
    and "raw_on env = None" and "enter_alt env = Some e"
  shows "run env drawn evs m = (m\<lparr>raw_mode := True\<rparr>, Some (Inl (TuiTerminal e)))"
  using assms by (simp add: run_def term_try_def)

lemma restored:
  "run env drawn evs \<lparr>raw_mode = False, alt_screen = False\<rparr> = (m, Some res) \<Longrightarrow>
     enter_alt env = None \<Longrightarrow> term_new env = None \<Longrightarrow> raw_off env = None \<Longrightarrow> leave_alt env = None \<Longrightarrow>
     m = \<lparr>raw_mode = False, alt_screen = False\<rparr>"
  by (auto simp: run_def term_try_def split: sum.splits option.splits prod.splits)

section \<open>Properties\<close>

text \<open>C30: seen as a list of items that are open or closed by position, the viewer is the list viewer: after any
  keys its selection and its open items are those of the abstract machine, provided the identifiers of the
  findings differ.\<close>

theorem viewer_refines_list:
  assumes "distinct (map finding_id (findings r))"
  shows "view_of r (run_steps key_step (app_state_new r) ks)
    = foldl (list_view (length (findings r))) (0, {}) ks"
proof (induction ks rule: rev_induct)
  case Nil
  show ?case by (simp add: view_of_def app_state_new_def)
next
  case (snoc k ks)
  have "tui_inv r (run_steps key_step (app_state_new r) ks)"
    by (rule viewer.run_inv) (rule tui_inv_new)
  from view_key_step [OF this assms, of k] snoc show ?case by (simp add: run_steps_append)
qed

definition numbered :: "ustr \<Rightarrow> finding" where
  "numbered i = \<lparr>finding_id = i, summary = [], finding_files = [], category = [], confidence = [],
     evidence_quote = []\<rparr>"

definition two_findings :: report where
  "two_findings = evil_report\<lparr>findings := [numbered [49], numbered [50]]\<rparr>"

theorem viewer_refines_list_witness:
  "view_of two_findings (run_steps key_step (app_state_new two_findings) [KeyDown, KeyDown, KeyEnter, KeyUp])
    = (0, {1})"
proof -
  have "distinct (map finding_id (findings two_findings))" by (simp add: two_findings_def numbered_def)
  from viewer_refines_list [OF this, of "[KeyDown, KeyDown, KeyEnter, KeyUp]"]
  show ?thesis by (simp add: two_findings_def toggle_def)
qed

text \<open>C31: the event loop applies, once each and in order, the keys among the events before the first failing
  drawing and before the first failing read, \<open>q\<close> or Esc, and no other; then it returns the drawing's or the
  read's error, or normally for the key, and it goes on waiting when there is none of them.  So it returns exactly when a
  quit key or a failing read is among the events or a drawing fails before it; the selection
  is on a finding whenever it stops.\<close>

theorem event_loop_ends:
  "let before = handled drawn 0 evs in
     event_loop drawn 0 evs (app_state_new r)
       = (run_steps key_step (app_state_new r) (keys_of before),
          loop_result (drawn (length before)) (drop (length before) evs))
   \<and> (snd (event_loop drawn 0 evs (app_state_new r)) \<noteq> None \<longleftrightarrow>
        list_ex ends_loop evs \<or> (\<exists>j \<le> length (takeWhile (\<lambda>e. \<not> ends_loop e) evs). drawn j \<noteq> None))
   \<and> tui_inv r (fst (event_loop drawn 0 evs (app_state_new r)))"
  using event_loop_returns [of drawn 0 evs "app_state_new r"] viewer.run_inv [OF tui_inv_new]
  by (simp add: event_loop_spec [of drawn 0] Let_def)

text \<open>C32: every line the viewer draws is made of safe characters, whatever the report.\<close>

theorem draw_safe:
  "case draw show_f32 s of
     None \<Rightarrow> tui_report s = None
   | Some p \<Rightarrow> list_all (list_all safe_char) (files_pane p @ meta_pane p @ findings_pane p)"
proof (cases "draw show_f32 s")
  case None
  then show ?thesis by (simp add: draw_def)
next
  case (Some p)
  have "list_all safe_char l" if "l \<in> set (files_pane p) \<union> set (meta_pane p) \<union> set (findings_pane p)" for l
    using set_draw [OF Some that] sanitizer.range_iff by blast
  with Some show ?thesis by (auto simp: list_all_iff)
qed

end
