(* ===== verification/Dispatch.thy ===== *)
theory Dispatch
  imports EndToEnd AuditLog Web Mcp Tui
begin

section \<open>\<open>seck\<close>: the commands under one program\<close>

text \<open>
  \<open>main\<close> of \<open>crates/seck-cli/src/main.rs\<close> over the commands of the other theories, and what that says of a command
  that runs the program itself: the MCP server starts \<open>seck analyze\<close> for the tool \<open>analyze_file\<close>.  The argument parser
  (clap) is outside; its result is a \<open>cmd\<close>.
\<close>

text \<open>What clap makes of the arguments; paths of the commands that only read them are strings.\<close>

datatype cmd =
    Analyze analyze_args
  | Audit audit_op
  | Models models_op
  | Mcp bool
  | Web ustr ustr
  | Tui ustr
  | VerifyProof
  | Pair ustr

subsection \<open>The machine\<close>

text \<open>The surroundings of every command, in the order of the commands.\<close>

record seck_env =
  se_unix :: bool
  se_analyze :: analyze_env
  se_kdf :: kdf
  se_rnd :: nat
  se_audit :: audit_env
  se_init_io :: init_io
  se_today :: ustr
  se_dirs :: dirs_io
  se_models :: models_env
  se_mcp :: "ustr \<Rightarrow> mcp_env"
  se_stdin :: "(io_error + ustr) list"
  se_stdout :: "nat \<Rightarrow> io_error option"
  se_web_addr :: "ustr \<Rightarrow> ustr + socket_addr"
  se_file :: "ustr \<Rightarrow> bytes option"
  se_json :: "bytes \<Rightarrow> json option"
  se_term :: "ustr \<Rightarrow> term_env"
  se_drawn :: "nat \<Rightarrow> ustr option"
  se_events :: "(io_error + term_event) list"
  se_proof :: proof_env
  se_pair_addr :: "ustr \<Rightarrow> socket_addr option"
  se_rng :: "nat \<Rightarrow> bytes"
  se_x25519 :: "key32 \<Rightarrow> key32"
  se_parse_ip :: "ustr \<Rightarrow> ip_addr option"
  se_bundle_json :: "pairing_bundle \<Rightarrow> ustr"
  se_qr :: "ustr \<Rightarrow> ustr"
  se_lan_ip :: "ustr option"

text \<open>What the commands change: the FIPS flag, the keys and logs, the stored models, the terminal.\<close>

record seck_state =
  ss_fips :: bool
  ss_audit :: audit_disk
  ss_models :: "ustr \<Rightarrow> bytes option"
  ss_term :: term_mode

datatype seck_error =
    AnalyzeError analyze_error
  | AnalyzeOnWindows
  | AuditError audit_run_error
  | ModelsError models_error
  | McpError "io_error option"
  | WebError web_error
  | TuiError tui_error
  | ProofError proof_error
  | PairError pair_cmd_error

text \<open>A command ends with what it printed and perhaps an error, serves reports until it is killed, or waits for a key.\<close>

datatype cmd_outcome = Ended ustr "seck_error option" | Serving socket_addr report | WaitsForKey

definition ended :: "seck_error + ustr \<Rightarrow> cmd_outcome" where
  "ended r = (case r of Inl e \<Rightarrow> Ended [] (Some e) | Inr out \<Rightarrow> Ended out None)"

text \<open>\<open>println\<close>.\<close>

definition printed :: "('e \<Rightarrow> seck_error) \<Rightarrow> 'e + ustr list \<Rightarrow> cmd_outcome" where
  "printed f r = ended (try_bind (map_err f r) (\<lambda>ls. Inr (unlines ls)))"

subsection \<open>The commands\<close>

text \<open>\<open>analyze\<close> exists twice: where there are no descriptors it refuses.\<close>

definition analyze_not_unix :: "analyze_args \<Rightarrow> seck_error + ustr" where
  "analyze_not_unix args = Inl AnalyzeOnWindows"

definition cmd_analyze :: "seck_env \<Rightarrow> analyze_args \<Rightarrow> seck_state \<Rightarrow> seck_state \<times> cmd_outcome" where
  "cmd_analyze env args st =
     (if se_unix env then
        (let (fips, r) = analyze (se_analyze env) args (ss_fips st)
         in (st\<lparr>ss_fips := fips\<rparr>, ended (map_err AnalyzeError r)))
      else (st, ended (analyze_not_unix args)))"

definition data_dirs :: "seck_env \<Rightarrow> (ustr \<times> ustr) option" where
  "data_dirs env = (if se_unix env then data_dirs_unix (se_dirs env) else data_dirs_windows (se_dirs env))"

definition cmd_audit :: "seck_env \<Rightarrow> audit_op \<Rightarrow> seck_state \<Rightarrow> seck_state \<times> cmd_outcome" where
  "cmd_audit env op st =
     (let (d, r) = audit_run (se_kdf env) (se_rnd env) (se_audit env) (se_init_io env) (se_today env) (data_dirs env) op (ss_audit st)
      in (st\<lparr>ss_audit := d\<rparr>, printed AuditError r))"

definition cmd_models :: "seck_env \<Rightarrow> models_op \<Rightarrow> seck_state \<Rightarrow> seck_state \<times> cmd_outcome" where
  "cmd_models env op st =
     (let (fs, ls, r) = models_run (se_models env) op (ss_models st)
      in (st\<lparr>ss_models := fs\<rparr>, Ended (unlines ls) (case r of Inl e \<Rightarrow> Some (ModelsError e) | Inr _ \<Rightarrow> None)))"

definition cmd_mcp :: "seck_env \<Rightarrow> bool \<Rightarrow> cmd_outcome" where
  "cmd_mcp env stdio =
     (let (ls, r) = mcp_main (se_mcp env) (an_exe (se_analyze env)) stdio (se_stdout env) (se_stdin env)
      in Ended (unlines ls) (case r of Inl e \<Rightarrow> Some (McpError e) | Inr _ \<Rightarrow> None))"

definition cmd_web :: "seck_env \<Rightarrow> ustr \<Rightarrow> ustr \<Rightarrow> cmd_outcome" where
  "cmd_web env bind report =
     (case cli_web (se_web_addr env) (se_file env report) (se_json env) bind of
        Inl e \<Rightarrow> Ended [] (Some (WebError e))
      | Inr (addr, r) \<Rightarrow> Serving addr r)"

definition cmd_tui :: "seck_env \<Rightarrow> ustr \<Rightarrow> seck_state \<Rightarrow> seck_state \<times> cmd_outcome" where
  "cmd_tui env report st =
     (let (m, r) = run (se_term env report) (se_drawn env) (se_events env) (ss_term st)
      in (st\<lparr>ss_term := m\<rparr>,
          case r of None \<Rightarrow> WaitsForKey | Some (Inl e) \<Rightarrow> Ended [] (Some (TuiError e)) | Some (Inr _) \<Rightarrow> Ended [] None))"

definition cmd_verify_proof :: "seck_env \<Rightarrow> cmd_outcome" where
  "cmd_verify_proof env =
     printed ProofError (try_bind (verify_proof (se_proof env)) (\<lambda>_.
       Inr [lit ''IO-boundary proof builds (no so'' @ lit ''rry/admit in load-bearing files).'']))"

definition cmd_pair :: "seck_env \<Rightarrow> ustr \<Rightarrow> cmd_outcome" where
  "cmd_pair env bind =
     printed PairError (pair_run (se_pair_addr env) (se_rng env) (se_x25519 env) (se_parse_ip env)
       (sha3_256 (keccak (se_audit env))) (hex_encode (se_audit env)) (se_bundle_json env) (se_qr env) (se_lan_ip env) bind)"

fun seck_main :: "seck_env \<Rightarrow> cmd \<Rightarrow> seck_state \<Rightarrow> seck_state \<times> cmd_outcome" where
  "seck_main env (Analyze a) st = cmd_analyze env a st"
| "seck_main env (Audit op) st = cmd_audit env op st"
| "seck_main env (Models op) st = cmd_models env op st"
| "seck_main env (Mcp stdio) st = (st, cmd_mcp env stdio)"
| "seck_main env (Web bind report) st = (st, cmd_web env bind report)"
| "seck_main env (Tui report) st = cmd_tui env report st"
| "seck_main env VerifyProof st = (st, cmd_verify_proof env)"
| "seck_main env (Pair bind) st = (st, cmd_pair env bind)"

subsection \<open>The program as a process\<close>

text \<open>
  What \<open>Command::output\<close> sees of \<open>seck\<close> with some arguments: whether it exited with success, and its two streams.
  \<open>parse\<close> is clap, which answers \<open>--help\<close> and wrong usage itself; \<open>err_text\<close> is the message of an error.  \<open>None\<close> is
  a command that does not end.
\<close>

definition seck_process :: "(ustr list \<Rightarrow> (bool \<times> bytes \<times> bytes) + cmd) \<Rightarrow> (seck_error \<Rightarrow> ustr) \<Rightarrow> seck_env \<Rightarrow> seck_state
    \<Rightarrow> ustr list \<Rightarrow> (bool \<times> bytes \<times> bytes) option" where
  "seck_process parse err_text env st argv =
     (case parse argv of
        Inl r \<Rightarrow> Some r
      | Inr c \<Rightarrow>
          (case snd (seck_main env c st) of
             Ended out None \<Rightarrow> Some (True, utf8_encode out, [])
           | Ended out (Some e) \<Rightarrow> Some (False, utf8_encode out, utf8_encode (err_text e))
           | _ \<Rightarrow> None))"

lemma seck_process_analyze:
  assumes "parse argv = Inr (Analyze args)" and "se_unix env"
  shows "seck_process parse err_text env st argv = Some (case snd (analyze (se_analyze env) args (ss_fips st)) of
      Inl e \<Rightarrow> (False, [], utf8_encode (err_text (AnalyzeError e)))
    | Inr out \<Rightarrow> (True, utf8_encode out, []))"
  using assms by (simp add: seck_process_def cmd_analyze_def ended_def split_beta split: sum.split)

text \<open>On Windows every analysis is refused.\<close>

lemma windows_refuses: "\<not> se_unix env \<Longrightarrow> seck_main env (Analyze args) st = (st, Ended [] (Some AnalyzeOnWindows))"
  by (simp add: cmd_analyze_def ended_def analyze_not_unix_def)

section \<open>The MCP server and the program it starts\<close>

definition analyze_argv :: "ustr \<Rightarrow> ustr list" where
  "analyze_argv p = [lit ''analyze'', p, lit ''--output'', lit ''json'']"

definition stub_summary :: ustr where
  "stub_summary = lit ''stub backend: no actual analysis was performed. The pipeline ran end-to-end and would emit real findings if a real LLM backend were configured.''"

lemma stub_summary_clean: "sanitize stub_summary = stub_summary"
  by (rule sanitize_clean_id) (simp add: stub_summary_def safe_char_def is_control_def is_bidi_def is_zero_width_def)

lemma stub_report_summary:
  assumes "r_from_text renv stub_text = Some stub_value"
  shows "summary_text (mode_a_report renv frames) = stub_summary"
proof -
  have "jindex (lit ''findings'') (mode_a_report renv frames) = JArr [stub_finding]"
    by (simp add: mode_a_report_def report_json_def jindex_jobj findings_of_def assms stub_value_def)
  moreover have "jindex (lit ''summary'') stub_finding = JStr stub_summary"
    by (simp add: stub_finding_def stub_summary_def jindex_jobj)
  ultimately show ?thesis
    by (simp add: summary_text_def finding_summaries_def stub_summary_clean map_filter_simps del: lit_Cons)
qed

text \<open>A successful run of the program becomes a stored report and an answer.\<close>

lemma analyze_file_stores:
  assumes "m_spawn menv (analyze_argv p) = Inr (True, out, err)" and "m_from_slice menv out = Inr report"
    and "arg_str (req_params req) (lit ''name'') = Some (lit ''analyze_file'')"
    and "jget (lit ''arguments'') (req_params req) = Some a" and "arg_str a (lit ''path'') = Some p"
  shows "handle_tool_call menv req store = (store(report_id menv report \<mapsto> report), resp_ok (req_id req)
    (jobj [(lit ''content'', text_content (analyze_text (report_id menv report) (summary_text report)))]))"
  using assms
  by (simp add: handle_tool_call_def tool_analyze_file_def tool_reply_def store_put_def analyze_argv_def Let_def del: lit_Cons)

section \<open>Properties\<close>

text \<open>C29: the tool \<open>analyze_file\<close> of the MCP server, whose child process is this program: on a machine where no system
  call fails, for a path whose walk and reading succeed, the answer carries the identifier and the summary of the
  report that the sandboxed reader made of exactly the regular files of the tree, and the store has that report
  under that identifier.\<close>

theorem mcp_analyze_end_to_end:
  assumes "\<And>argv r. seck_process parse err_text env st argv = Some r \<Longrightarrow> m_spawn menv argv = Inr r"
    and "se_unix env" and "readers_run (se_analyze env) renv (lit ''a'')" and "r_from_text renv stub_text = Some stub_value"
    and "parse (analyze_argv p) = Inr (Analyze args)"
    and "arg_fd args = None" and "arg_mode args = lit ''a''" and "arg_output args = lit ''json''"
    and "walk (arg_path args) (an_tree (se_analyze env) (arg_path args)) default_limits = Inr es" and "build_fileset es = Inr fs"
    and "\<forall>e \<in> set es. unat (entry_size e) \<le> length (content (entry_fd e)) \<and> path_fits (entry_relative e)"
    and "\<And>v. an_from_slice (se_analyze env) (utf8_encode (r_to_text renv v)) = Some v"
    and "\<And>v. m_from_slice menv (utf8_encode (an_pretty (se_analyze env) v @ [10])) = Inr v"
    and "arg_str (req_params req) (lit ''name'') = Some (lit ''analyze_file'')"
    and "jget (lit ''arguments'') (req_params req) = Some a" and "arg_str a (lit ''path'') = Some p"
  shows "map entry_view es = files_of (arg_path args) (arg_path args) (an_tree (se_analyze env) (arg_path args))
    \<and> (let report = mode_a_report renv (delivered_frames es); i = report_id menv report
       in handle_tool_call menv req store = (store(i \<mapsto> report),
            resp_ok (req_id req) (jobj [(lit ''content'', text_content (analyze_text i stub_summary))])))"
proof
  show "map entry_view es = files_of (arg_path args) (arg_path args) (an_tree (se_analyze env) (arg_path args))"
    by (rule walk_Inr(1) [OF assms(9)])
  let ?r = "mode_a_report renv (delivered_frames es)"
  have "readers_run (se_analyze env) renv (arg_mode args)" using assms(3,7) by simp
  from analyze_readers [OF this assms(6,9-12), of "ss_fips st"]
  have "snd (analyze (se_analyze env) args (ss_fips st)) = Inr (an_pretty (se_analyze env) ?r @ [10])"
    using assms(7,8) by (simp add: analyze_output_def mode_report_def)
  then have "seck_process parse err_text env st (analyze_argv p)
      = Some (True, utf8_encode (an_pretty (se_analyze env) ?r @ [10]), [])"
    by (simp add: seck_process_analyze [where parse = parse and argv = "analyze_argv p", OF assms(5,2)] del: utf8_encode_simps)
  from assms(1) [OF this] have "m_spawn menv (analyze_argv p)
      = Inr (True, utf8_encode (an_pretty (se_analyze env) ?r @ [10]), [])" .
  from analyze_file_stores [OF this assms(13-16)] stub_report_summary [OF assms(4)]
  show "let report = ?r; i = report_id menv report
       in handle_tool_call menv req store = (store(i \<mapsto> report),
            resp_ok (req_id req) (jobj [(lit ''content'', text_content (analyze_text i stub_summary))]))"
    by (simp add: Let_def)
qed

text \<open>A machine with the sample tree and the readers of \<open>sample_reader_env\<close>; the other commands find nothing.\<close>

definition sample_mcp :: mcp_env where
  "sample_mcp = \<lparr>m_from_text = (\<lambda>s. ok_or [] (json_of_text s)), m_shape_error = (\<lambda>v. []),
     m_from_slice = (\<lambda>bs. ok_or [] (Option.bind (utf8_decode bs) (\<lambda>s. json_of_text (butlast s)))),
     m_to_text = json_text, m_pretty = json_text, m_num = (\<lambda>n. PosInt (of_int n)), m_f32 = (\<lambda>f. JNull),
     m_sha3 = (\<lambda>b. b), m_hex = map unat, m_spawn = (\<lambda>argv. Inl NotFound), m_read = (\<lambda>p. Inl NotFound),
     m_show_io = (\<lambda>e. []), m_manifest = Inl [], m_version = []\<rparr>"

definition sample_seck :: seck_env where
  "sample_seck =
     \<lparr>se_unix = True, se_analyze = sample_env_b, se_kdf = (\<lambda>p s m t l. None), se_rnd = 0, se_audit = sample_env,
      se_init_io = no_pass_io, se_today = [], se_dirs = \<lparr>di_base = False, di_data_directory = (\<lambda>p. None),
        di_appdata = None, di_mkdir = (\<lambda>p. None)\<rparr>,
      se_models = \<lparr>parse_toml = (\<lambda>t. Inl []), bundled_manifest = [], show_f32_1 = (\<lambda>f. []), xdg_cache = None,
        net = \<lparr>url_parse = (\<lambda>u. Inl []), http_client = None, http_get = (\<lambda>u. Inl []), mkdir_parent = None, tmp_create = None,
          tmp_write = (\<lambda>i. None), tmp_persist = None, net_sha3 = (\<lambda>b. b), net_hex = map unat\<rparr>, fs_read = (\<lambda>p. Inl NotFound)\<rparr>,
      se_mcp = (\<lambda>exe. sample_mcp), se_stdin = [], se_stdout = (\<lambda>i. None), se_web_addr = (\<lambda>a. Inl []), se_file = (\<lambda>p. None),
      se_json = (\<lambda>bs. None),
      se_term = (\<lambda>p. \<lparr>report_body = Inl NotFound, parse_report = (\<lambda>bs. None), raw_on = None, enter_alt = None, term_new = None,
        raw_off = None, leave_alt = None\<rparr>),
      se_drawn = (\<lambda>i. None), se_events = [],
      se_proof = \<lparr>pf_exe = Inl NotFound, pf_is_file = (\<lambda>p. False), pf_lake = (\<lambda>p. Inl NotFound), pf_read = (\<lambda>p. Inl NotFound)\<rparr>,
      se_pair_addr = (\<lambda>a. None), se_rng = (\<lambda>i. []), se_x25519 = (\<lambda>k. k), se_parse_ip = (\<lambda>a. None), se_bundle_json = (\<lambda>b. []),
      se_qr = (\<lambda>t. t), se_lan_ip = None\<rparr>"

definition sample_state :: seck_state where
  "sample_state = \<lparr>ss_fips = False, ss_audit = empty_disk, ss_models = (\<lambda>p. None), ss_term = \<lparr>raw_mode = False, alt_screen = False\<rparr>\<rparr>"

text \<open>The arguments that analyse the path \<open>r\<close>; anything else is wrong usage.\<close>

definition sample_parse :: "ustr list \<Rightarrow> (bool \<times> bytes \<times> bytes) + cmd" where
  "sample_parse argv = (if argv = analyze_argv [114] then Inr (Analyze sample_args) else Inl (False, [], []))"

definition sample_server :: mcp_env where
  "sample_server = sample_mcp\<lparr>m_spawn := (\<lambda>argv. ok_or NotFound (seck_process sample_parse (\<lambda>e. []) sample_seck sample_state argv))\<rparr>"

definition sample_request :: rpc_request where
  "sample_request = \<lparr>req_jsonrpc = lit ''2.0'', req_id = Some (JStr [49]), req_method = lit ''tools/call'',
     req_params = jobj [(lit ''name'', JStr (lit ''analyze_file'')), (lit ''arguments'', jobj [(lit ''path'', JStr [114])])]\<rparr>"

theorem mcp_analyze_end_to_end_witness:
  "let report = mode_a_report sample_reader_env (delivered_frames sample_entries); i = report_id sample_server report
   in handle_tool_call sample_server sample_request store_new = (store_new(i \<mapsto> report),
        resp_ok (Some (JStr [49])) (jobj [(lit ''content'', text_content (analyze_text i stub_summary))]))"
proof -
  obtain fs where f: "build_fileset sample_entries = Inr fs" using sample_built by blast
  have sp: "m_spawn sample_server argv = Inr r" if "seck_process sample_parse (\<lambda>e. []) sample_seck sample_state argv = Some r" for argv r
    using that by (simp add: sample_server_def)
  have e: "se_unix sample_seck" "se_analyze sample_seck = sample_env_b" by (simp_all add: sample_seck_def)
  have rr: "readers_run (se_analyze sample_seck) sample_reader_env (lit ''a'')"
    using sample_env_b_ok(1-4) sample_reader_good by (simp add: readers_run_def e)
  have s: "r_from_text sample_reader_env stub_text = Some stub_value" by (simp add: sample_reader_env_def)
  have p: "sample_parse (analyze_argv [114]) = Inr (Analyze sample_args)" by (simp add: sample_parse_def)
  have g: "arg_fd sample_args = None" "arg_mode sample_args = lit ''a''" "arg_output sample_args = lit ''json''"
    "arg_path sample_args = [Normal [114]]"
    by (simp_all add: sample_args_def)
  have w: "walk (arg_path sample_args) (an_tree (se_analyze sample_seck) (arg_path sample_args)) default_limits = Inr sample_entries"
    by (simp add: e g(4) sample_env_b_ok(5))
  have t: "an_from_slice (se_analyze sample_seck) (utf8_encode (r_to_text sample_reader_env v)) = Some v" for v
    by (simp add: e sample_env_b_ok(6))
  have m: "m_from_slice sample_server (utf8_encode (an_pretty (se_analyze sample_seck) v @ [10])) = Inr v" for v
  proof -
    have "list_all text_char (json_text v)" by (rule json_text_chars)
    then have "valid_str (json_text v @ [10])" by (auto simp: valid_str_def list_all_iff text_char_def is_scalar_def)
    then show ?thesis
      by (simp add: e sample_env_b_ok(7) sample_server_def sample_mcp_def utf8_decode_encode json_of_text del: utf8_encode_simps)
  qed
  have q: "arg_str (req_params sample_request) (lit ''name'') = Some (lit ''analyze_file'')"
    "jget (lit ''arguments'') (req_params sample_request) = Some (jobj [(lit ''path'', JStr [114])])"
    "arg_str (jobj [(lit ''path'', JStr [114])]) (lit ''path'') = Some [114]" "req_id sample_request = Some (JStr [49])"
    by (simp_all add: sample_request_def arg_str_def)
  from mcp_analyze_end_to_end [where parse = sample_parse and err_text = "\<lambda>e. []" and env = sample_seck and st = sample_state
      and menv = sample_server, OF sp e(1) rr s p g(1-3) w f sample_ready t m q(1-3), of store_new]
  show ?thesis unfolding q(4) by blast
qed

end
