(* ===== verification/Fuzz.thy ===== *)
theory Fuzz
  imports Prompt TraceCheck Sanitize
begin

section \<open>The fuzz targets\<close>

text \<open>
  \<open>fuzz/fuzz_targets\<close>: four programs that feed arbitrary bytes to the parsers.  Slicing and assertions can panic and
  are modelled; the functions the targets call are those of the other theories.
\<close>

datatype fuzz_result = Ran | Panicked

text \<open>\<open>&data[..n]\<close> and \<open>&data[n..]\<close>.\<close>

definition slice_to :: "nat \<Rightarrow> 'a list \<Rightarrow> 'a list option" where
  "slice_to n xs = (if n \<le> length xs then Some (take n xs) else None)"

definition slice_from :: "nat \<Rightarrow> 'a list \<Rightarrow> 'a list option" where
  "slice_from n xs = (if n \<le> length xs then Some (drop n xs) else None)"

definition fuzz_prompt_assembler :: "(bytes \<Rightarrow> ustr) \<Rightarrow> (bytes \<Rightarrow> ustr) \<Rightarrow> bytes \<Rightarrow> fuzz_result \<times> ustr" where
  "fuzz_prompt_assembler hex b64 data =
     (if length data < 2 then (Ran, [])
      else let split = unat (data ! 0) mod length data in
        (case (slice_to split data, slice_from split data) of
           (Some name, Some rest) \<Rightarrow>
             (Ran, assemble hex b64 (replicate 32 0) [\<lparr>relative_path = utf8_lossy name, frame_bytes = rest\<rparr>])
         | _ \<Rightarrow> (Panicked, [])))"

definition fuzz_protocol_parser :: "bytes \<Rightarrow> fuzz_result \<times> (proto_error + (frame list \<times> bytes))" where
  "fuzz_protocol_parser data = (Ran, read_frames UnexpectedEof data)"

fun sanitizer_asserts :: "ustr \<Rightarrow> fuzz_result" where
  "sanitizer_asserts [] = Ran"
| "sanitizer_asserts (c # cs) =
     (if \<not> (c = 10 \<or> c = 9 \<or> \<not> is_control c) then Panicked
      else if 0x202a \<le> c \<and> c \<le> 0x202e \<or> 0x2066 \<le> c \<and> c \<le> 0x2069 then Panicked
      else if c = 0x200b \<or> c = 0x200c \<or> c = 0x200d \<or> c = 0xfeff then Panicked
      else sanitizer_asserts cs)"

definition fuzz_report_sanitizer :: "bytes \<Rightarrow> fuzz_result" where
  "fuzz_report_sanitizer data = (case utf8_decode data of Some s \<Rightarrow> sanitizer_asserts (sanitize s) | None \<Rightarrow> Ran)"

definition fuzz_trace_invariant :: "bytes \<Rightarrow> fuzz_result \<times> (invariant_error + unit)" where
  "fuzz_trace_invariant data =
     (case utf8_decode data of
        Some s \<Rightarrow> (Ran, check_trace (parse_strace s) (blit ''CANARY''))
      | None \<Rightarrow> (Ran, Inr ()))"

lemma sanitizer_asserts_safe: "sanitizer_asserts s = Ran \<longleftrightarrow> list_all safe_char s"
  by (induction s) (auto simp: safe_char_def is_bidi_def is_zero_width_def)

text \<open>No input makes a target panic: the split point of the prompt target is inside the data, and the assertions of the
  sanitizer target hold of whatever the sanitizer returns.\<close>

lemma fuzz_never_panics:
  "fst (fuzz_prompt_assembler hex b64 data) = Ran" "fst (fuzz_protocol_parser data) = Ran"
  "fuzz_report_sanitizer data = Ran" "fst (fuzz_trace_invariant data) = Ran"
proof -
  have "unat (data ! 0) mod length data \<le> length data" if "2 \<le> length data"
    using that by (intro less_imp_le mod_less_divisor) auto
  then show "fst (fuzz_prompt_assembler hex b64 data) = Ran"
    by (auto simp: fuzz_prompt_assembler_def slice_to_def slice_from_def Let_def)
  show "fuzz_report_sanitizer data = Ran"
    using sanitizer.scrub_ok by (auto simp: fuzz_report_sanitizer_def sanitizer_asserts_safe split: option.split)
qed (simp_all add: fuzz_protocol_parser_def fuzz_trace_invariant_def split: option.split)

end
