(* ===== verification/KeyGen.thy ===== *)
theory KeyGen
  imports Crypto
begin

section \<open>The release key and its life\<close>

text \<open>
  \<open>crates/seck-release-sign/examples/gen_release_key.rs\<close>, and the three release programs on one disk: the key is
  generated, an artifact signed and the signature verified.  A file has its bytes and its mode; a new file gets
  the mode the umask leaves, an overwritten one keeps its own.
\<close>

record keyfile =
  kf_data :: bytes
  kf_mode :: nat

type_synonym disk = "ustr \<Rightarrow> keyfile option"

definition fs_write :: "write_outcome \<Rightarrow> nat \<Rightarrow> ustr \<Rightarrow> bytes \<Rightarrow> disk \<Rightarrow> disk \<times> (io_error + unit)" where
  "fs_write wo created path bs d =
     (case fs_write_file wo bs (map_option kf_data (d path)) of
        (None, r) \<Rightarrow> (d, r)
      | (Some bs', r) \<Rightarrow>
          (d(path \<mapsto> (case d path of Some f \<Rightarrow> f\<lparr>kf_data := bs'\<rparr> | None \<Rightarrow> \<lparr>kf_data = bs', kf_mode = created\<rparr>)), r))"

definition fs_chmod :: "ustr \<Rightarrow> nat \<Rightarrow> disk \<Rightarrow> disk" where
  "fs_chmod path m d = (case d path of Some f \<Rightarrow> d(path \<mapsto> f\<lparr>kf_mode := m\<rparr>) | None \<Rightarrow> d)"

definition fs_read :: "disk \<Rightarrow> files" where
  "fs_read d p = (case d p of Some f \<Rightarrow> Inr (kf_data f) | None \<Rightarrow> Inl NotFound)"

text \<open>The mode 0600.\<close>

definition OWNER_ONLY :: nat where
  "OWNER_ONLY = 6 * 8 * 8"

datatype gen_outcome = GenUsage | GenPanic io_error | GenDone "ustr list"

record gen_io =
  gi_unix :: bool
  gi_write :: "ustr \<Rightarrow> write_outcome"
  gi_chmod :: "io_error option"
  gi_created :: nat

definition gen_release_key :: "(bytes \<Rightarrow> ustr) \<Rightarrow> (bytes \<Rightarrow> bytes) \<Rightarrow> scheme \<Rightarrow> nat \<Rightarrow> gen_io \<Rightarrow> ustr list \<Rightarrow> disk \<Rightarrow> disk \<times> gen_outcome" where
  "gen_release_key hex sha3 slh rnd io args d =
     (case args of
        pk_path # sk_path # _ \<Rightarrow>
          (let (pk, sk) = slh_dsa_keypair slh rnd in
           case fs_write (gi_write io pk_path) (gi_created io) pk_path pk d of
             (d, Inl e) \<Rightarrow> (d, GenPanic e)
           | (d, Inr _) \<Rightarrow>
           case fs_write (gi_write io sk_path) (gi_created io) sk_path sk d of
             (d, Inl e) \<Rightarrow> (d, GenPanic e)
           | (d, Inr _) \<Rightarrow>
           case (if gi_unix io then gi_chmod io else None) of
             Some e \<Rightarrow> (d, GenPanic e)
           | None \<Rightarrow>
           (if gi_unix io then fs_chmod sk_path OWNER_ONLY d else d,
            GenDone [lit ''wrote '' @ pk_path @ lit '' ('' @ show_nat (length pk) @ lit '' bytes) and '' @ sk_path @ lit '' (''
                       @ show_nat (length sk) @ lit '' bytes, 0600)'',
                     lit ''SHA3-256(pk) = '' @ hex (sha3 pk)]))
      | _ \<Rightarrow> (d, GenUsage))"

lemma fs_write_done: "fs_write WriteDone created path bs d
    = (d(path \<mapsto> (case d path of Some f \<Rightarrow> f\<lparr>kf_data := bs\<rparr> | None \<Rightarrow> \<lparr>kf_data = bs, kf_mode = created\<rparr>)), Inr ())"
  by (simp add: fs_write_def)

lemma fs_write_ok: "fs_write wo created path bs d = (d', Inr u) \<Longrightarrow> wo = WriteDone"
  by (cases wo) (auto simp: fs_write_def split: option.splits)

text \<open>The secret key has the mode of a new file until it is changed, and keeps it when that fails.\<close>

lemma secret_key_exposed:
  assumes "gi_write io = (\<lambda>p. WriteDone)" and "gi_unix io" and "gi_chmod io = Some e" and "d sk_path = None" and "pk_path \<noteq> sk_path"
  shows "snd (gen_release_key hex sha3 slh rnd io [pk_path, sk_path] d) = GenPanic e
    \<and> fst (gen_release_key hex sha3 slh rnd io [pk_path, sk_path] d) sk_path
        = Some \<lparr>kf_data = snd (slh_dsa_keypair slh rnd), kf_mode = gi_created io\<rparr>"
  using assms by (auto simp: gen_release_key_def fs_write_done Let_def split: prod.split)

lemma gen_done:
  assumes "gen_release_key hex sha3 slh rnd io [pk_path, sk_path] d = (d', GenDone out)" and "pk_path \<noteq> sk_path"
    and "slh_dsa_keypair slh rnd = (pk, sk)"
  shows "fs_read d' pk_path = Inr pk" "fs_read d' sk_path = Inr sk" "gi_unix io \<Longrightarrow> map_option kf_mode (d' sk_path) = Some OWNER_ONLY"
    "p \<noteq> pk_path \<Longrightarrow> p \<noteq> sk_path \<Longrightarrow> d' p = d p"
proof -
  have w: "gi_write io pk_path = WriteDone" "gi_write io sk_path = WriteDone"
    using assms(1,3) by (auto simp: gen_release_key_def Let_def dest!: fs_write_ok split: prod.splits sum.splits)
  show "fs_read d' pk_path = Inr pk" "fs_read d' sk_path = Inr sk" "gi_unix io \<Longrightarrow> map_option kf_mode (d' sk_path) = Some OWNER_ONLY"
    "p \<noteq> pk_path \<Longrightarrow> p \<noteq> sk_path \<Longrightarrow> d' p = d p"
    using assms
    by (auto simp: gen_release_key_def fs_write_done w fs_read_def fs_chmod_def Let_def split: option.splits if_splits)
qed

section \<open>Properties\<close>

text \<open>C33: the three release programs on one disk: after the key generator has finished, on four different paths, the
  secret key is readable by its owner only, the signer succeeds, and the verifier accepts the signature file it
  wrote for the artifact with the public key that was generated, with exit code 0.\<close>

theorem release_chain:
  assumes "good_scheme slh" and "gi_unix io" and "distinct [pk_path, sk_path, artifact, sig_path]"
    and "gen_release_key hex sha3 slh rnd io [pk_path, sk_path] d = (d1, GenDone out)" and "d artifact = Some f"
  shows "map_option kf_mode (d1 sk_path) = Some OWNER_ONLY
    \<and> (\<exists>sig. release_sign slh r (fs_read d1) WriteDone old sk_path artifact sig_path = (SignDone, Some sig)
         \<and> verify_release slh (fs_read (fst (fs_write WriteDone m sig_path sig d1))) pk_path artifact sig_path = 0)"
proof -
  obtain pk sk where k: "slh_dsa_keypair slh rnd = (pk, sk)" by (cases "slh_dsa_keypair slh rnd") auto
  have ne: "pk_path \<noteq> sk_path" using assms(3) by simp
  note g = gen_done [OF assms(4) ne k]
  obtain sig where s: "slh_dsa_sign slh r sk (kf_data f) = Some sig" "slh_dsa_verify slh pk (kf_data f) sig"
    using sign_verify [OF assms(1) k] by blast
  have a: "fs_read d1 artifact = Inr (kf_data f)" using g(4) [of artifact] assms(3,5) by (auto simp: fs_read_def)
  have "release_sign slh r (fs_read d1) WriteDone old sk_path artifact sig_path = (SignDone, Some sig)"
    by (simp add: release_sign_def g(2) a s(1))
  moreover have other: "fs_read (fst (fs_write WriteDone m sig_path sig d1)) p = fs_read d1 p" if "p \<noteq> sig_path" for p
    using that by (simp add: fs_read_def fs_write_done)
  have "fs_read (fst (fs_write WriteDone m sig_path sig d1)) sig_path = Inr sig" by (simp add: fs_read_def fs_write_done split: option.split)
  then have "verify_release slh (fs_read (fst (fs_write WriteDone m sig_path sig d1))) pk_path artifact sig_path = 0"
    using assms(3) by (simp add: verify_release_def verify_real_main_def other g(1) a s(2))
  ultimately show ?thesis using g(3) [OF assms(2)] by blast
qed

theorem release_chain_witness:
  "\<exists>d1 out. gen_release_key (map unat) id toy_scheme 7 \<lparr>gi_unix = True, gi_write = (\<lambda>p. WriteDone), gi_chmod = None, gi_created = 420\<rparr>
        [[1], [2]] [[3] \<mapsto> \<lparr>kf_data = [9], kf_mode = 420\<rparr>] = (d1, GenDone out)
     \<and> map_option kf_mode (d1 [2]) = Some OWNER_ONLY
     \<and> (\<exists>sig. release_sign toy_scheme 0 (fs_read d1) WriteDone None [2] [3] [4] = (SignDone, Some sig)
         \<and> verify_release toy_scheme (fs_read (fst (fs_write WriteDone 420 [4] sig d1))) [1] [3] [4] = 0)"
proof -
  let ?io = "\<lparr>gi_unix = True, gi_write = (\<lambda>p. WriteDone), gi_chmod = None, gi_created = 420\<rparr>"
  have g: "good_scheme toy_scheme" by (auto simp: good_scheme_def toy_scheme_def)
  obtain d1 out where d: "gen_release_key (map unat) id toy_scheme 7 ?io [[1], [2]] [[3] \<mapsto> \<lparr>kf_data = [9], kf_mode = 420\<rparr>] = (d1, GenDone out)"
    by (cases "slh_dsa_keypair toy_scheme 7") (simp add: gen_release_key_def fs_write_done Let_def del: lit_Cons)
  from release_chain [OF g _ _ d, of "[3]" "[4]" "\<lparr>kf_data = [9], kf_mode = 420\<rparr>" 0 None 420] d show ?thesis by auto
qed

end
