(* ===== verification/Spec2Isabelle.thy ===== *)
theory Spec2Isabelle
  imports Pair TraceCheck Pipeline WindowsHost Bench Dispatch Fuzz KeyGen UnitTests
begin

text \<open>
  \<^bold>\<open>What this is.\<close>  A shallow embedding of \<open>seck\<close>, a command-line analyser that shows untrusted files to a
  language model, and proofs about it.  Paths below are under \<open>src/crates\<close>.

  \<^bold>\<open>The program.\<close>  \<open>seck analyze\<close> (\<open>seck-cli\<close>) walks a directory, reads every file into a tainted buffer, frames the
  buffers and writes them to a pipe whose other end is descriptor 3 of a child process.  In mode A the child
  (\<open>seck-reader\<close>) locks itself down, parses the frames, builds a prompt between random markers, runs a backend and
  writes a JSON report to descriptor 5.  In mode B it only turns the frames into lines of JSON on descriptor 7, and a
  second child (\<open>seck-reader-priv\<close>) that never sees raw bytes builds the prompt from them.  The host prints the
  report, the text renderer after sanitising the model's words.  Around this are a pipeline of three model passes, a
  hash-chained audit log, a checker of \<open>strace\<close> output against the IO boundary, three ways to look at a report
  (terminal, web page, MCP server), model downloads, release signatures, pairing of a phone and the sandboxes of
  three platforms.

  \<^bold>\<open>Theories and code.\<close>  Definitions have the names of the Rust items; the project map gives the lines of each.

  \<^item> \<open>Prelude\<close>, \<open>Utf8\<close>, \<open>ByteIo\<close>, \<open>Json\<close>, \<open>JsonText\<close>, \<open>Floats\<close>, \<open>Net\<close>: what the code uses of the standard library and of
    \<open>serde_json\<close>'s data model, with the bit patterns of \<open>f32\<close> and \<open>f64\<close> and the rounding between them.  A byte is an \<open>8 word\<close>, a Rust \<open>String\<close> a list of Unicode scalar values, an integer a
    word of its width, \<open>Result\<close> a sum with the error on the left and \<open>?\<close> is \<open>try_bind\<close>.  Locales: \<open>codec\<close> (what is
    written reads back and nothing else is accepted), \<open>byte_sink\<close>, \<open>stepper\<close> (an invariant kept by every operation
    holds after any sequence of them) and the \<open>guarded_stepper\<close> above it (kept by the allowed operations).  A write of a
    file may fail to open it or stop in the middle (\<open>write_outcome\<close>).  \<open>JsonText\<close> is a concrete printer and parser that shows the one property the
    code needs of JSON text can hold.
  \<^item> \<open>Taint\<close> (\<open>seck-taint\<close>), \<open>FdPipe\<close> (\<open>seck-fd\<close>), \<open>Proto\<close> (\<open>seck-proto\<close>, \<open>seck-reader/src/protocol.rs\<close>), \<open>Walker\<close>,
    \<open>Fileset\<close>, \<open>Orchestrator\<close> (\<open>seck-host\<close>): the path of the bytes from the directory to the reader.  The kernel is a
    record of answers: how much each write takes, what each read returns, which call fails.  Descriptors are tables
    from numbers to pipe ends, so \<open>pipe\<close>, \<open>dup2\<close> and inheritance are computed, not assumed.
  \<^item> \<open>Reader\<close> (\<open>seck-reader\<close>, \<open>seck-reader-ipc\<close>, \<open>seck-reader-priv\<close>), \<open>Cli\<close> (\<open>seck-cli\<close>): the two child programs and the
    command that composes everything.
  \<^item> \<open>Prompt\<close>: the markers around the files in the prompts of both modes.
  \<^item> \<open>PipeNet\<close>, \<open>Processes\<close>, \<open>Waiting\<close>, \<open>Stopping\<close>, \<open>Spawns\<close>, \<open>ModeRuns\<close>: the same host and readers as concurrent processes.  A program tells which
    system call it makes next, \<open>proc_step\<close> is an inductive step relation over bounded pipes with end-of-file and
    \<open>EPIPE\<close>, and the scheduler is arbitrary.  The contract of a chain of processes is the locale \<open>relay\<close>, interpreted
    for both modes; \<open>ranked_program\<close> is the termination argument, a lexicographic measure of phases, bytes still to be
    written and bytes in the pipes.  \<open>Waiting\<close> has the invariants of the runs in which a reader waits
    for input that does not come or the bytes process falls silent, \<open>Stopping\<close> those in which a reader has decided
    before the end of its input.
  \<^item> \<open>EndToEnd\<close>: \<open>seck analyze\<close> through both readers, for all outputs.  \<open>Dispatch\<close>: \<open>main\<close> over all commands, and the
    program as the child process of its own MCP server.
  \<^item> \<open>Sanitize\<close>, \<open>Report\<close> (\<open>seck-report\<close>), \<open>Tui\<close> (\<open>seck-tui\<close>), \<open>Web\<close> (\<open>seck-web\<close>), \<open>Mcp\<close> (\<open>seck-mcp\<close>): what is shown.
  \<^item> \<open>Infer\<close> (\<open>seck-plugin\<close>, \<open>seck-infer\<close>), \<open>Pipeline\<close> (\<open>seck-pipeline\<close>): a backend is a record of a state and three
    operations under the contract \<open>llm_backend\<close>, interpreted by all four backends.
  \<^item> \<open>AuditLog\<close> (\<open>seck-audit\<close>, \<open>seck audit\<close>), \<open>TraceCheck\<close> (\<open>seck-trace-check\<close>), \<open>Models\<close> (\<open>seck-models\<close>, \<open>seck-host-net\<close>,
    \<open>seck models\<close>), \<open>Crypto\<close> and \<open>KeyGen\<close> (\<open>seck-crypto\<close>, \<open>seck-mem-hard\<close>, the release programs), \<open>Pair\<close> (\<open>seck-pair\<close>), \<open>Bench\<close>
    (\<open>seck-bench\<close>, \<open>seck-canaries\<close>), \<open>Fuzz\<close> (\<open>fuzz/fuzz_targets\<close>), \<open>UnitTests\<close> (the
    \<open>#[test]\<close> functions beside the code, which the definitions pass).
  \<^item> \<open>Sandbox\<close> (\<open>seck-sandbox\<close>, \<open>seck-host-unsafe\<close>, \<open>seck-portal\<close>), \<open>WindowsHost\<close> (\<open>windows.rs\<close>, \<open>orchestrator_windows.rs\<close>):
    each system call is a field of a record that says how it answers; the state records what took effect by that answer
    alone, apart from what the code makes of it.

  \<^bold>\<open>What the theorems show.\<close> \<open>Proto\<close>: the parser accepts exactly the wire forms of
  well-formed frames. \<open>Walker\<close>: limits, completeness, no symbolic link. \<open>Fileset\<close>: what
  reaches the pipe is a prefix of the framed files whatever the kernel answers, and the reader gets exactly the files;
  a file emptied after the walk lets the next one forge a frame; a last file that shrank ends the stream early. \<open>Cli\<close>, \<open>EndToEnd\<close>:
  \<open>seck analyze\<close> from the tree to standard output; \<open>Dispatch\<close>: the same behind the MCP
  server. \<open>Prompt\<close>: no file can close its own section or open another. \<open>ModeRuns\<close>: under
  every interleaving both modes end and return what the sequential model says when the stream is complete; a stream
  that ends early, as when the last file shrank, deadlocks both modes when descriptors 3 and 4 were free for the
  host's first pipe; any other ends mode A with what the reader decided or the error of a write that found it gone,
  provided the report fits the pipe; mode B ends the same way, with the same proviso, when the bytes process accepts the
  stream, and deadlocks when it refuses it. \<open>Reader\<close>: the IPC lines carry the frames. \<open>AuditLog\<close>: any history of appends verifies
  unless a write stops inside a line, two files that verify with the same tip record the same events or hold a
  collision of the hash, and two writers open at once break the chain. \<open>Sanitize\<close>: no control, escape, bidirectional or zero-width
  character; of terminal text as ECMA-48 has it, only the text is left, except after control sequences with an
  unusual final byte, which take text with them. \<open>Report\<close>: a report reads back unless its temperature is
  not finite. \<open>Pipeline\<close>: verdicts and seeds for any backend. \<open>TraceCheck\<close>: the checker decides the IO boundary. \<open>Web\<close>, \<open>Mcp\<close>,
  \<open>Tui\<close>: single-use tokens, the reply rules of the protocol, a viewer that refines an abstract list, and a
  loop that applies exactly the keys before its end.
  \<open>Models\<close>: downloads leave verified files only. \<open>Crypto\<close>, \<open>Sandbox\<close>,
  \<open>WindowsHost\<close>, \<open>Pair\<close>, \<open>Bench\<close>: round trips; what the kernel enforces when a lockdown
  is reported, and that on Windows it is nothing; no leaked and no unlisted handle; private addresses; scores.

  \<^bold>\<open>Bounds and fuel.\<close>  No definition has fuel: loops over inputs are structural or have a measure (\<open>termination\<close>), loops
  over answers of the kernel consume the list of answers, and the concurrent runs are a relation whose converse is
  proved well-founded.  Pipes have any capacity from one byte on.  The limits of the code (10000 entries, 16 MiB a
  file, 4096 bytes a path) are those of the definitions.

  \<^bold>\<open>Parameters.\<close>  SHA3, Argon2, AEAD and signature schemes, the hexadecimal and base64 codecs, JSON and TOML text, the
  HTTP and HTML libraries, the QR encoder, random bytes, the clock and the environment are arguments.  What a theorem
  needs of them is a hypothesis (reading back what was printed, verifying what was signed), and its witness has a
  concrete instance.  The laws of JSON text are stated for every value of the model and used only at the values the
  code writes, whose object keys are sorted and whose strings are Rust strings.  Of the hash nothing is assumed: where
  it matters, the conclusion is a collision.

  \<^bold>\<open>Not modelled.\<close> The argument parser (clap; its result is a record), the transports (D-Bus, HTTP
  sockets, the terminal driver, async runtimes), the layout widgets of the terminal library below the text they are
  given, log lines. The Lean development under \<open>proof\<close> and the scripts and profiles under
  \<open>platform\<close> are not Rust. Of the tests, those beside the code that do not depend on randomness or on
  values of third-party code are modelled, in \<open>UnitTests\<close>; the integration tests are not.

  \<^bold>\<open>Findings.\<close>  Where the code and its comments differ, or a bug showed, the list of findings has the line and the lemma.
\<close>

end
